theory Spec2Isabelle
  imports Complex_Main
begin

section \<open>Data model\<close>

text \<open>
  The protocol's \<open>Memory\<close> and \<open>MemoryContext\<close> interfaces. A relevance score is a
  JavaScript number; the model uses the rationals, on which comparison and the sign of a
  difference agree with those of finite floating-point values. Time stamps are integers
  (epoch milliseconds). The opaque \<open>metadata\<close> bag is a key-value list.
\<close>

record memory =
  "text" :: string
  relevance :: rat
  timestamp :: int
  source :: string
  metadata :: "(string \<times> string) list option"

record memoryContext =
  memories :: "memory list"

text \<open>\<open>ContextOptions\<close>: the fields the code reads (\<open>topK\<close>, \<open>timeRange\<close>, \<open>categories\<close>).\<close>

record contextOptions =
  topK :: "int option"
  timeRange :: "(int option \<times> int option) option"
  categories :: "string list option"

section \<open>JavaScript primitives used by the code\<close>

text \<open>
  A string is a list of characters with the code points U+0000 to U+00FF. On these,
  \<open>String.prototype.trim\<close> strips TAB, LF, VT, FF, CR, SPACE and NO-BREAK SPACE
  (U+00A0), and \<open>toLowerCase\<close> maps the letters \<open>A\<close> to \<open>Z\<close> and the capital letters
  U+00C0 to U+00DE, the multiplication sign U+00D7 apart, to the letter 32 code points
  above (bit 5 set); every other character is left as it is.
\<close>

definition isWhitespace :: "char \<Rightarrow> bool" where
  "isWhitespace c = (of_char c \<in> {9, 10, 11, 12, 13, 32, 160 :: nat})"

definition trim :: "string \<Rightarrow> string" where
  "trim s = rev (dropWhile isWhitespace (rev (dropWhile isWhitespace s)))"

definition isUpperCase :: "char \<Rightarrow> bool" where
  "isUpperCase c =
     (let n = (of_char c :: nat)
      in (65 \<le> n \<and> n \<le> 90) \<or> (192 \<le> n \<and> n \<le> 214) \<or> (216 \<le> n \<and> n \<le> 222))"

definition toLowerChar :: "char \<Rightarrow> char" where
  "toLowerChar c = (case c of Char b0 b1 b2 b3 b4 b5 b6 b7 \<Rightarrow>
     if isUpperCase c then Char b0 b1 b2 b3 b4 True b6 b7 else c)"

definition toLowerCase :: "string \<Rightarrow> string" where
  "toLowerCase s = map toLowerChar s"

text \<open>
  \<open>xs.slice(0, e)\<close> for an integral \<open>e\<close>: a negative end counts from the end of the
  array, and the end is clipped to the length.
\<close>

definition slice0 :: "'a list \<Rightarrow> int \<Rightarrow> 'a list" where
  "slice0 xs e =
     (let n = int (length xs);
          k = (if e < 0 then max (n + e) 0 else min e n)
      in take (nat k) xs)"

text \<open>
  A JavaScript \<open>Map\<close> (and an object with non-numeric string keys) iterates in insertion
  order, and writing an existing key keeps the key's position. It is an association list
  with distinct keys: \<open>map_of\<close> is \<open>get\<close>, \<open>mapSet\<close> is \<open>set\<close>, \<open>mapDelete\<close> is
  \<open>delete\<close>.
\<close>

fun mapSet :: "'k \<Rightarrow> 'v \<Rightarrow> ('k \<times> 'v) list \<Rightarrow> ('k \<times> 'v) list" where
  "mapSet k v [] = [(k, v)]"
| "mapSet k v ((k', v') # kvs) =
     (if k' = k then (k, v) # kvs else (k', v') # mapSet k v kvs)"

definition mapDelete :: "'k \<Rightarrow> ('k \<times> 'v) list \<Rightarrow> ('k \<times> 'v) list" where
  "mapDelete k kvs = filter (\<lambda>kv. fst kv \<noteq> k) kvs"

text \<open>
  \<open>Array.prototype.sort\<close> is stable; with the comparator
  \<open>(a, b) => b.relevance - a.relevance\<close> it is a stable sort by descending relevance,
  that is \<open>sort_key\<close> (stable insertion sort) on the negated relevance.
\<close>

definition sortByRelevanceDesc :: "memory list \<Rightarrow> memory list" where
  "sortByRelevanceDesc ms = sort_key (\<lambda>m. - relevance m) ms"

section \<open>Context Merge Engine\<close>

text \<open>The deduplication key of \<open>mergeContexts\<close>: \<open>memory.text.toLowerCase().trim()\<close>.\<close>

definition memoryKey :: "memory \<Rightarrow> string" where
  "memoryKey m = trim (toLowerCase (text m))"

text \<open>One iteration of the \<open>allMemories.forEach\<close> loop on the \<open>memoryMap\<close>.\<close>

definition mergeStep :: "(string \<times> memory) list \<Rightarrow> memory \<Rightarrow> (string \<times> memory) list" where
  "mergeStep memoryMap m =
     (let key = memoryKey m in
      case map_of memoryMap key of
        None \<Rightarrow> mapSet key m memoryMap
      | Some existing \<Rightarrow>
          if relevance m > relevance existing then mapSet key m memoryMap else memoryMap)"

definition optionsTopK :: "contextOptions option \<Rightarrow> int" where
  "optionsTopK options =
     (case options of None \<Rightarrow> 50
      | Some opts \<Rightarrow> (case topK opts of None \<Rightarrow> 50 | Some k \<Rightarrow> k))"

text \<open>\<open>mergeContexts(contexts, options)\<close> of the registry manager.\<close>

definition mergeContexts :: "memoryContext list \<Rightarrow> contextOptions option \<Rightarrow> memoryContext" where
  "mergeContexts contexts options =
     (case contexts of
        [] \<Rightarrow> \<lparr>memories = []\<rparr>
      | [c] \<Rightarrow> c
      | _ \<Rightarrow>
          (let allMemories = concat (map memories contexts);
               memoryMap = foldl mergeStep [] allMemories
           in \<lparr>memories =
                 slice0 (sortByRelevanceDesc (map snd memoryMap)) (optionsTopK options)\<rparr>))"

text \<open>
  \<open>mergeContexts(contexts)\<close> of the simplified SDK (\<open>index.ts\<close>): the same function
  without the options parameter, with the limit fixed at 50.
\<close>

definition mergeContextsSimple :: "memoryContext list \<Rightarrow> memoryContext" where
  "mergeContextsSimple contexts =
     (case contexts of
        [] \<Rightarrow> \<lparr>memories = []\<rparr>
      | [c] \<Rightarrow> c
      | _ \<Rightarrow>
          (let allMemories = concat (map memories contexts);
               memoryMap = foldl mergeStep [] allMemories
           in \<lparr>memories = slice0 (sortByRelevanceDesc (map snd memoryMap)) 50\<rparr>))"

subsection \<open>The merge as the specification words it\<close>

text \<open>
  The specification's side is written without the functions of the code. White space
  and the pairs of capital and small letters are listed; trimming drops the white space
  at both ends; the normalized key is \<open>lowercase(trim(text))\<close>.
\<close>

definition spec_whitespace :: "char list" where
  "spec_whitespace = [CHR 0x09, CHR 0x0A, CHR 0x0B, CHR 0x0C, CHR 0x0D, CHR 0x20, CHR 0xA0]"

fun spec_trimStart :: "string \<Rightarrow> string" where
  "spec_trimStart [] = []"
| "spec_trimStart (c # cs) = (if c \<in> set spec_whitespace then spec_trimStart cs else c # cs)"

definition spec_trim :: "string \<Rightarrow> string" where
  "spec_trim s = rev (spec_trimStart (rev (spec_trimStart s)))"

definition spec_capitals :: "char list" where
  "spec_capitals = ''ABCDEFGHIJKLMNOPQRSTUVWXYZ'' @
     [CHR 0xC0, CHR 0xC1, CHR 0xC2, CHR 0xC3, CHR 0xC4, CHR 0xC5, CHR 0xC6, CHR 0xC7,
      CHR 0xC8, CHR 0xC9, CHR 0xCA, CHR 0xCB, CHR 0xCC, CHR 0xCD, CHR 0xCE, CHR 0xCF,
      CHR 0xD0, CHR 0xD1, CHR 0xD2, CHR 0xD3, CHR 0xD4, CHR 0xD5, CHR 0xD6,
      CHR 0xD8, CHR 0xD9, CHR 0xDA, CHR 0xDB, CHR 0xDC, CHR 0xDD, CHR 0xDE]"

definition spec_smalls :: "char list" where
  "spec_smalls = ''abcdefghijklmnopqrstuvwxyz'' @
     [CHR 0xE0, CHR 0xE1, CHR 0xE2, CHR 0xE3, CHR 0xE4, CHR 0xE5, CHR 0xE6, CHR 0xE7,
      CHR 0xE8, CHR 0xE9, CHR 0xEA, CHR 0xEB, CHR 0xEC, CHR 0xED, CHR 0xEE, CHR 0xEF,
      CHR 0xF0, CHR 0xF1, CHR 0xF2, CHR 0xF3, CHR 0xF4, CHR 0xF5, CHR 0xF6,
      CHR 0xF8, CHR 0xF9, CHR 0xFA, CHR 0xFB, CHR 0xFC, CHR 0xFD, CHR 0xFE]"

definition spec_lowercaseChar :: "char \<Rightarrow> char" where
  "spec_lowercaseChar c =
     (case map_of (zip spec_capitals spec_smalls) c of None \<Rightarrow> c | Some small \<Rightarrow> small)"

definition spec_lowercase :: "string \<Rightarrow> string" where
  "spec_lowercase s = map spec_lowercaseChar s"

definition spec_key :: "memory \<Rightarrow> string" where
  "spec_key m = spec_lowercase (spec_trim (text m))"

text \<open>
  The keys in the order in which they are first encountered, the memories that share a
  key, and the winner among them: the one with the higher relevance, the first
  encountered on a tie.
\<close>

fun firstOccurrences :: "'a list \<Rightarrow> 'a list" where
  "firstOccurrences [] = []"
| "firstOccurrences (k # ks) = k # filter (\<lambda>x. x \<noteq> k) (firstOccurrences ks)"

definition sharingKey :: "memory list \<Rightarrow> string \<Rightarrow> memory list" where
  "sharingKey ms k = filter (\<lambda>m. spec_key m = k) ms"

fun higherRelevanceFirstWins :: "memory list \<Rightarrow> memory option" where
  "higherRelevanceFirstWins [] = None"
| "higherRelevanceFirstWins (m # ms) =
     (case higherRelevanceFirstWins ms of
        None \<Rightarrow> Some m
      | Some later \<Rightarrow> if relevance later > relevance m then Some later else Some m)"

definition spec_deduplicate :: "memory list \<Rightarrow> memory list" where
  "spec_deduplicate ms =
     List.map_filter (\<lambda>k. higherRelevanceFirstWins (sharingKey ms k))
       (firstOccurrences (map spec_key ms))"

text \<open>
  Sorting by descending relevance: the memories are taken in order, and each is placed
  before the first memory of strictly lower relevance, so that of two memories with the
  same relevance the first encountered stays first. A list is in descending order when
  no memory is followed by one of higher relevance.
\<close>

fun spec_place :: "memory \<Rightarrow> memory list \<Rightarrow> memory list" where
  "spec_place m [] = [m]"
| "spec_place m (x # xs) =
     (if relevance x < relevance m then m # x # xs else x # spec_place m xs)"

definition spec_sortDescending :: "memory list \<Rightarrow> memory list" where
  "spec_sortDescending ms = foldl (\<lambda>placed m. spec_place m placed) [] ms"

definition descending :: "memory list \<Rightarrow> bool" where
  "descending ms = sorted_wrt (\<lambda>a b. relevance b \<le> relevance a) ms"

definition spec_merge :: "memoryContext list \<Rightarrow> int option \<Rightarrow> memoryContext" where
  "spec_merge contexts k =
     (if length contexts = 0 then \<lparr>memories = []\<rparr>
      else if length contexts = 1 then hd contexts
      else \<lparr>memories =
              take (nat (case k of None \<Rightarrow> 50 | Some n \<Rightarrow> n))
                (spec_sortDescending (spec_deduplicate (concat (map memories contexts))))\<rparr>)"

text \<open>
  The loop invariant of the \<open>forEach\<close>: the map's keys are the keys seen so far, in the
  order of their first occurrence, and each key holds the winner among the memories seen
  so far that share it.
\<close>

definition mergeInv :: "memory list \<Rightarrow> (string \<times> memory) list \<Rightarrow> bool" where
  "mergeInv ms acc \<longleftrightarrow>
     map fst acc = firstOccurrences (map spec_key ms) \<and>
     (\<forall>k. map_of acc k = higherRelevanceFirstWins (sharingKey ms k))"

section \<open>Results, errors and the provider interface\<close>

text \<open>
  A thrown JavaScript value is an \<open>Error\<close> with its message or some other value; the
  catch blocks read it with \<open>error instanceof Error ? error.message : fallback\<close>. A call
  that may throw (or a promise that may reject) returns \<open>thrown + 'a\<close>.
\<close>

datatype thrown = ThrownError string | ThrownOther

definition errorMessageOr :: "string \<Rightarrow> thrown \<Rightarrow> string" where
  "errorMessageOr fallback e = (case e of ThrownError msg \<Rightarrow> msg | ThrownOther \<Rightarrow> fallback)"

text \<open>
  Reading \<open>.length\<close> of an absent array throws a \<open>TypeError\<close>, with the message of
  V8; \<open>array?.length || 0\<close> is zero instead.
\<close>

definition undefinedLength :: thrown where
  "undefinedLength =
     ThrownError (''Cannot read properties of undefined (reading '' @
        [CHR 0x27] @ ''length'' @ [CHR 0x27] @ '')'')"

definition lengthOf :: "'a list option \<Rightarrow> thrown + nat" where
  "lengthOf xs = (case xs of None \<Rightarrow> Inl undefinedLength | Some l \<Rightarrow> Inr (length l))"

definition lengthOrZero :: "'a list option \<Rightarrow> nat" where
  "lengthOrZero xs = (case xs of None \<Rightarrow> 0 | Some l \<Rightarrow> length l)"

datatype errorCode =
  NOT_AVAILABLE | PERMISSION_DENIED | NO_DATA | PROVIDER_ERROR | NETWORK_ERROR | INVALID_OPTIONS

record protocolError =
  code :: errorCode
  message :: string
  recoverable :: bool
  suggestedAction :: "string option"

record providerRef =
  ref_id :: string
  ref_name :: string
  ref_version :: string

record dataSource =
  ds_timeRange :: "int option \<times> int option"
  ds_categories :: "string list"

record contextMetadata =
  generatedAt :: int
  md_provider :: providerRef
  md_dataSource :: dataSource

record aggregatedContextMetadata = contextMetadata +
  aggregationMethod :: string
  providerCount :: nat

text \<open>\<open>Partial<ContextMetadata>\<close>: every field may be missing.\<close>

record partialMetadata =
  pm_generatedAt :: "int option"
  pm_provider :: "providerRef option"
  pm_dataSource :: "dataSource option"

text \<open>\<open>ProviderContextResult\<close>: what a provider's \<open>getContext\<close> resolves to.\<close>

record providerContextResult =
  pr_success :: bool
  pr_data :: "memoryContext option"
  pr_error :: "string option"
  pr_metadata :: "partialMetadata option"

text \<open>\<open>ContextResult\<close>: what the registry's \<open>getContext\<close> resolves to.\<close>

record contextResult =
  cr_success :: bool
  cr_data :: "memoryContext option"
  cr_error :: "protocolError option"
  cr_metadata :: contextMetadata

record aggregatedContextResult =
  agg_success :: bool
  agg_data :: "memoryContext option"
  agg_error :: "protocolError option"
  agg_metadata :: aggregatedContextMetadata
  agg_providers :: "string list"
  providerResults :: "string \<rightharpoonup> providerContextResult"

text \<open>
  The write path: \<open>WebAgentContext\<close>, its options and \<open>ContextProvisionResult\<close>. The
  type requires the field \<open>memories\<close>; the code reads its length without a check, so a
  context that arrives without it is part of the model.
\<close>

record webAgentContext =
  agentId :: string
  agentName :: string
  agentType :: "string option"
  wa_memories :: "memory list option"
  sessionId :: "string option"
  contextType :: string
  wa_timestamp :: int
  wa_domain :: string
  wa_expiresAt :: "int option"

record webAgentContextOptions =
  storageType :: "string option"

record contextProvisionResult =
  cp_success :: bool
  cp_processed :: bool
  acknowledged :: bool
  memoriesAccepted :: nat
  memoriesRejected :: nat
  rejectionReasons :: "string list option"
  cp_error :: "protocolError option"
  cp_contextId :: "string option"
  storedUntil :: "int option"
  storageLocation :: "string option"
  processingTimeMs :: "int option"
  sizeBytes :: "nat option"
  cp_metadata :: "(string \<times> int \<times> string) option"

text \<open>
  A \<open>MemoryProvider\<close> as the registry sees it: its identity and its methods. The
  optional methods \<open>provideContext\<close> and \<open>contributeMemory\<close> may be absent.
\<close>

record provider =
  providerId :: string
  providerName :: string
  version :: string
  isPermissionGranted_m :: "string option \<Rightarrow> bool"
  getContext_m :: "contextOptions option \<Rightarrow> thrown + providerContextResult"
  provideContext_m ::
    "(webAgentContext \<Rightarrow> webAgentContextOptions option \<Rightarrow> thrown + contextProvisionResult) option"
  contributeMemory_m ::
    "(memory list option \<Rightarrow> string \<Rightarrow> thrown + contextProvisionResult) option"

section \<open>Registry\<close>

text \<open>
  The registry's \<open>providers\<close> is a \<open>Map\<close> from provider id to provider, in insertion
  order. \<open>registerProvider\<close> is \<open>providers.set\<close> and \<open>unregisterProvider\<close> is
  \<open>providers.delete\<close>, returning whether the id was present.
\<close>

type_synonym registry = "(string \<times> provider) list"

definition registerProvider :: "provider \<Rightarrow> registry \<Rightarrow> registry" where
  "registerProvider p providers = mapSet (providerId p) p providers"

definition unregisterProvider :: "string \<Rightarrow> registry \<Rightarrow> bool \<times> registry" where
  "unregisterProvider pid providers =
     (let existed = (map_of providers pid \<noteq> None) in
      if existed then (existed, mapDelete pid providers) else (existed, providers))"

text \<open>\<open>Array.from(providers.values())[0]\<close>: undefined for an empty map.\<close>

definition firstProvider :: "registry \<Rightarrow> provider option" where
  "firstProvider providers = (case providers of [] \<Rightarrow> None | kp # _ \<Rightarrow> Some (snd kp))"

text \<open>
  \<open>providerId ? providers.get(providerId) : Array.from(providers.values())[0]\<close>: an
  absent or empty id is falsy.
\<close>

definition selectProvider :: "registry \<Rightarrow> string option \<Rightarrow> provider option" where
  "selectProvider providers pid =
     (case pid of
        None \<Rightarrow> firstProvider providers
      | Some i \<Rightarrow> if i \<noteq> [] then map_of providers i else firstProvider providers)"

definition systemMetadata :: "int \<Rightarrow> contextMetadata" where
  "systemMetadata now =
     \<lparr>generatedAt = now,
      md_provider = \<lparr>ref_id = ''system'', ref_name = ''Memory Protocol System'',
                     ref_version = ''1.0.0''\<rparr>,
      md_dataSource = \<lparr>ds_timeRange = (Some 0, Some 0), ds_categories = []\<rparr>\<rparr>"

text \<open>
  \<open>convertToContextResult\<close> (inlined in \<open>index.ts\<close>): a truthy, that is non-empty,
  error string of the provider becomes a \<open>PROVIDER_ERROR\<close>.
\<close>

definition convertToContextResult :: "int \<Rightarrow> providerContextResult \<Rightarrow> string \<Rightarrow> contextResult" where
  "convertToContextResult now providerResult pid =
     (let md = pr_metadata providerResult;
          metadata =
            \<lparr>generatedAt =
               (case Option.bind md pm_generatedAt of None \<Rightarrow> now | Some g \<Rightarrow> g),
             md_provider =
               (case Option.bind md pm_provider of
                  None \<Rightarrow> \<lparr>ref_id = pid, ref_name = ''Unknown Provider'', ref_version = ''1.0.0''\<rparr>
                | Some r \<Rightarrow> r),
             md_dataSource =
               (case Option.bind md pm_dataSource of
                  None \<Rightarrow> \<lparr>ds_timeRange = (Some 0, Some 0), ds_categories = []\<rparr>
                | Some d \<Rightarrow> d)\<rparr>;
          error =
            (case pr_error providerResult of
               None \<Rightarrow> None
             | Some msg \<Rightarrow>
                 if msg \<noteq> []
                 then Some \<lparr>code = PROVIDER_ERROR, message = msg, recoverable = False,
                            suggestedAction = None\<rparr>
                 else None)
      in \<lparr>cr_success = pr_success providerResult, cr_data = pr_data providerResult,
          cr_error = error, cr_metadata = metadata\<rparr>)"

text \<open>
  The registry's \<open>getContext(options, providerId)\<close>. The provider's promise is awaited
  outside any \<open>try\<close>, so a rejection is the registry's rejection.
\<close>

definition registry_getContext ::
  "int \<Rightarrow> registry \<Rightarrow> contextOptions option \<Rightarrow> string option \<Rightarrow> thrown + contextResult" where
  "registry_getContext now providers options pid =
     (case selectProvider providers pid of
        None \<Rightarrow>
          Inr \<lparr>cr_success = False, cr_data = None,
               cr_error = Some \<lparr>code = NOT_AVAILABLE, message = ''No memory providers available'',
                                 recoverable = True, suggestedAction = None\<rparr>,
               cr_metadata = systemMetadata now\<rparr>
      | Some p \<Rightarrow>
          (case getContext_m p options of
             Inl e \<Rightarrow> Inl e
           | Inr providerResult \<Rightarrow>
               Inr (convertToContextResult now providerResult (providerId p))))"

text \<open>
  \<open>Promise.all\<close> over the providers' promises: the results in order, or the rejection of
  the first promise that rejects.
\<close>

fun promiseAll :: "(thrown + 'a) list \<Rightarrow> thrown + 'a list" where
  "promiseAll [] = Inr []"
| "promiseAll (Inl e # rs) = Inl e"
| "promiseAll (Inr x # rs) =
     (case promiseAll rs of Inl e \<Rightarrow> Inl e | Inr xs \<Rightarrow> Inr (x # xs))"

text \<open>\<open>Object.fromEntries\<close>: a later entry overwrites an earlier one with the same key.\<close>

definition objectFromEntries :: "('k \<times> 'v) list \<Rightarrow> ('k \<rightharpoonup> 'v)" where
  "objectFromEntries entries = foldl (\<lambda>obj kv. obj(fst kv \<mapsto> snd kv)) Map.empty entries"

definition aggregatedSystemMetadata :: "int \<Rightarrow> nat \<Rightarrow> aggregatedContextMetadata" where
  "aggregatedSystemMetadata now n =
     \<lparr>generatedAt = now,
      md_provider = \<lparr>ref_id = ''system'', ref_name = ''Memory Protocol System'',
                     ref_version = ''1.0.0''\<rparr>,
      md_dataSource = \<lparr>ds_timeRange = (Some 0, Some 0), ds_categories = []\<rparr>,
      aggregationMethod = ''merge'', providerCount = n\<rparr>"

definition optionsTimeRange :: "int \<Rightarrow> contextOptions option \<Rightarrow> int option \<times> int option" where
  "optionsTimeRange now options =
     (case Option.bind options timeRange of
        None \<Rightarrow> (Some (now - 7 * 24 * 60 * 60 * 1000), Some now)
      | Some tr \<Rightarrow> tr)"

text \<open>
  \<open>getAggregatedContext(options)\<close>, with the merge function as a parameter: the registry
  manager calls \<open>mergeContexts(contexts, options)\<close>, \<open>index.ts\<close> calls
  \<open>mergeContexts(contexts)\<close>.
\<close>

definition aggregateWith ::
  "(memoryContext list \<Rightarrow> memoryContext) \<Rightarrow> int \<Rightarrow> registry \<Rightarrow> contextOptions option
     \<Rightarrow> thrown + aggregatedContextResult" where
  "aggregateWith merge now providers options =
     (let availableProviders = filter (\<lambda>p. isPermissionGranted_m p None) (map snd providers) in
      if length availableProviders = 0 then
        Inr \<lparr>agg_success = False, agg_data = None,
             agg_error = Some \<lparr>code = PERMISSION_DENIED,
                                message = ''No providers available with permissions'',
                                recoverable = True, suggestedAction = None\<rparr>,
             agg_metadata = aggregatedSystemMetadata now 0,
             agg_providers = [], providerResults = Map.empty\<rparr>
      else
        (case promiseAll (map (\<lambda>p. getContext_m p options) availableProviders) of
           Inl e \<Rightarrow> Inl e
         | Inr results \<Rightarrow>
             (let successful = filter (\<lambda>r. pr_success r \<and> pr_data r \<noteq> None) results;
                  byProvider = objectFromEntries (zip (map providerId availableProviders) results)
              in
              if length successful = 0 then
                Inr \<lparr>agg_success = False, agg_data = None,
                     agg_error = Some \<lparr>code = NO_DATA,
                                        message = ''No providers returned successful context'',
                                        recoverable = True, suggestedAction = None\<rparr>,
                     agg_metadata = aggregatedSystemMetadata now (length availableProviders),
                     agg_providers = map providerId availableProviders,
                     providerResults = byProvider\<rparr>
              else
                Inr \<lparr>agg_success = True,
                     agg_data = Some (merge (List.map_filter pr_data successful)),
                     agg_error = None,
                     agg_metadata =
                       \<lparr>generatedAt = now,
                        md_provider = \<lparr>ref_id = ''aggregated'', ref_name = ''Aggregated'',
                                       ref_version = ''1.0.0''\<rparr>,
                        md_dataSource = \<lparr>ds_timeRange = optionsTimeRange now options,
                                         ds_categories = [''all'']\<rparr>,
                        aggregationMethod = ''merge'', providerCount = length successful\<rparr>,
                     agg_providers = map providerId availableProviders,
                     providerResults = byProvider\<rparr>)))"

definition getAggregatedContext ::
  "int \<Rightarrow> registry \<Rightarrow> contextOptions option \<Rightarrow> thrown + aggregatedContextResult" where
  "getAggregatedContext now providers options =
     aggregateWith (\<lambda>contexts. mergeContexts contexts options) now providers options"

definition getAggregatedContextSimple ::
  "int \<Rightarrow> registry \<Rightarrow> contextOptions option \<Rightarrow> thrown + aggregatedContextResult" where
  "getAggregatedContextSimple now providers options =
     aggregateWith mergeContextsSimple now providers options"

text \<open>The registry's \<open>isPermissionGranted(providerId, domain)\<close>.\<close>

definition registry_isPermissionGranted :: "registry \<Rightarrow> string option \<Rightarrow> string option \<Rightarrow> bool" where
  "registry_isPermissionGranted providers pid domain =
     (case pid of
        None \<Rightarrow> list_ex (\<lambda>p. isPermissionGranted_m p domain) (map snd providers)
      | Some i \<Rightarrow>
          if i \<noteq> [] then
            (case map_of providers i of
               None \<Rightarrow> False
             | Some p \<Rightarrow> isPermissionGranted_m p domain)
          else list_ex (\<lambda>p. isPermissionGranted_m p domain) (map snd providers))"

text \<open>
  A registry built by \<open>registerProvider\<close> and \<open>unregisterProvider\<close> holds each provider
  under its own id, each id once.
\<close>

definition registryOk :: "registry \<Rightarrow> bool" where
  "registryOk providers \<longleftrightarrow>
     distinct (map fst providers) \<and> list_all (\<lambda>kp. providerId (snd kp) = fst kp) providers"

section \<open>Host environment and persistence\<close>

text \<open>
  What the code reads from its host: whether \<open>window\<close> (and with it \<open>localStorage\<close>) is
  defined, whether \<open>chrome.storage.local\<close> is defined, \<open>window.location.hostname\<close>, and
  the length of \<open>JSON.stringify\<close> of a submitted context, which may throw. The persisted
  collections hold well-formed JSON, so that \<open>JSON.parse\<close> returns what was stored.
\<close>

record environment =
  hasWindow :: bool
  hasChromeStorage :: bool
  hostname :: string
  jsonLength :: "webAgentContext \<Rightarrow> thrown + nat"

text \<open>
  \<open>(typeof window !== "undefined" && window.location?.hostname) || "localhost"\<close>, and
  the same with a leading \<open>domain ||\<close>: an absent or empty string is falsy.
\<close>

definition hostnameOrLocalhost :: "environment \<Rightarrow> string" where
  "hostnameOrLocalhost env =
     (if hasWindow env \<and> hostname env \<noteq> [] then hostname env else ''localhost'')"

definition resolveDomain :: "environment \<Rightarrow> string option \<Rightarrow> string" where
  "resolveDomain env domain =
     (case domain of
        None \<Rightarrow> hostnameOrLocalhost env
      | Some d \<Rightarrow> if d \<noteq> [] then d else hostnameOrLocalhost env)"

text \<open>A number is truthy unless it is zero; an absent field is falsy.\<close>

definition truthyNumber :: "int option \<Rightarrow> bool" where
  "truthyNumber n = (case n of None \<Rightarrow> False | Some v \<Rightarrow> v \<noteq> 0)"

section \<open>Permission store of a provider (\<open>index.ts\<close>)\<close>

record capabilities =
  "read" :: bool
  "write" :: bool

datatype capability = ReadCapability | WriteCapability

definition capabilityFlag :: "capability \<Rightarrow> capabilities \<Rightarrow> bool" where
  "capabilityFlag c caps = (case c of ReadCapability \<Rightarrow> read caps | WriteCapability \<Rightarrow> write caps)"

record requestedCapabilities =
  req_read :: "bool option"
  req_write :: "bool option"

record appInfo =
  appName :: string
  app_domain :: "string option"
  app_requestedCapabilities :: "requestedCapabilities option"

text \<open>
  A stored permission record. The type of \<open>index.ts\<close> requires \<open>capabilities\<close>; the
  records of the \<open>PermissionManager\<close> have no such field, and a record parsed from
  storage may lack it, so the field is optional here.
\<close>

record permissionRecord =
  granted :: bool
  grantedAt :: int
  permissions :: "string list"
  capabilities :: "capabilities option"
  perm_appInfo :: "appInfo option"
  revokedAt :: "int option"
  lastUsed :: "int option"

type_synonym permissionStorage = "string \<rightharpoonup> permissionRecord"

record permissionResult =
  res_granted :: bool
  isFirstTime :: bool
  res_permissions :: "string list"
  res_capabilities :: "capabilities option"
  res_domain :: "string option"

text \<open>
  The dialogs shown to the user and the user's answers to them. The model returns the
  dialogs an operation has shown, in order.
\<close>

datatype prompt = GrantAccessPrompt bool string | ReadPrompt | WritePrompt

type_synonym user = "prompt \<Rightarrow> bool"

text \<open>The persisted state of one provider: its permission records and its write-back store.\<close>

record storedContext =
  sc_context :: webAgentContext
  receivedAt :: int
  processed :: bool
  expiresAt :: "int option"
  sc_size :: nat

type_synonym webAgentContextStorage = "(string \<times> storedContext) list"

record providerState =
  permissionStore :: permissionStorage
  webAgentStore :: webAgentContextStorage

definition getStoredPermissions :: "environment \<Rightarrow> providerState \<Rightarrow> permissionStorage" where
  "getStoredPermissions env st = (if hasWindow env then permissionStore st else Map.empty)"

definition storePermissions :: "environment \<Rightarrow> providerState \<Rightarrow> permissionStorage \<Rightarrow> providerState" where
  "storePermissions env st perms = (if hasWindow env then st\<lparr>permissionStore := perms\<rparr> else st)"

text \<open>
  Reading \<open>capabilities[capability]\<close> on a record without a capability map throws a
  \<open>TypeError\<close>, with the message of V8.
\<close>

definition undefinedCapabilities :: "capability \<Rightarrow> thrown" where
  "undefinedCapabilities c =
     ThrownError (''Cannot read properties of undefined (reading '' @
        (case c of ReadCapability \<Rightarrow> [CHR 0x27] @ ''read'' @ [CHR 0x27]
                 | WriteCapability \<Rightarrow> [CHR 0x27] @ ''write'' @ [CHR 0x27]) @ '')'')"

definition isPermissionGranted ::
  "environment \<Rightarrow> providerState \<Rightarrow> string option \<Rightarrow> capability option \<Rightarrow> thrown + bool" where
  "isPermissionGranted env st domain capability =
     (let targetDomain = resolveDomain env domain;
          perms = getStoredPermissions env st
      in case perms targetDomain of
           None \<Rightarrow> Inr False
         | Some domainPermission \<Rightarrow>
             if \<not> granted domainPermission \<or> truthyNumber (revokedAt domainPermission)
             then Inr False
             else (case capability of
                     None \<Rightarrow> Inr True
                   | Some c \<Rightarrow>
                       (case capabilities domainPermission of
                          None \<Rightarrow> Inl (undefinedCapabilities c)
                        | Some caps \<Rightarrow> Inr (capabilityFlag c caps))))"

definition effectiveRequest :: "appInfo \<Rightarrow> requestedCapabilities" where
  "effectiveRequest info =
     (case app_requestedCapabilities info of
        None \<Rightarrow> \<lparr>req_read = Some True, req_write = Some False\<rparr>
      | Some rc \<Rightarrow> rc)"

definition grantedPermissionList :: "capabilities \<Rightarrow> string list" where
  "grantedPermissionList caps =
     (if read caps then [''context.read''] else []) @
     (if write caps then [''context.write''] else [])"

text \<open>
  The user's response: in a window, the series of confirm dialogs; without a window,
  the automatic grant for tests. The result carries the dialogs shown.
\<close>

definition askUser ::
  "environment \<Rightarrow> user \<Rightarrow> appInfo \<Rightarrow> bool \<Rightarrow> (bool \<times> capabilities) \<times> prompt list" where
  "askUser env usr info firstTime =
     (let rc = effectiveRequest info in
      if hasWindow env then
        (let p0 = GrantAccessPrompt firstTime (appName info) in
         if usr p0 then
           (let askRead = (req_read rc = Some True);
                askWrite = (req_write rc = Some True);
                r = (if askRead then usr ReadPrompt else False);
                w = (if askWrite then usr WritePrompt else False)
            in ((True, \<lparr>read = r, write = w\<rparr>),
                [p0] @ (if askRead then [ReadPrompt] else []) @
                       (if askWrite then [WritePrompt] else [])))
         else ((False, \<lparr>read = False, write = False\<rparr>), [p0]))
      else ((True, \<lparr>read = True, write = (req_write rc = Some True)\<rparr>), []))"

text \<open>
  \<open>requestPermission(appInfo)\<close>: the result, the new persisted state and the dialogs
  shown to the user.
\<close>

definition requestPermission ::
  "environment \<Rightarrow> user \<Rightarrow> int \<Rightarrow> providerState \<Rightarrow> appInfo
     \<Rightarrow> thrown + (permissionResult \<times> providerState \<times> prompt list)" where
  "requestPermission env usr now st info =
     (let domain = resolveDomain env (app_domain info) in
      case isPermissionGranted env st (Some domain) None of
        Inl e \<Rightarrow> Inl e
      | Inr True \<Rightarrow>
          (case getStoredPermissions env st domain of
             None \<Rightarrow> Inl (ThrownError ''Cannot read properties of undefined'')
           | Some existingPermission \<Rightarrow>
               Inr (\<lparr>res_granted = True, isFirstTime = False,
                     res_permissions = permissions existingPermission,
                     res_capabilities = capabilities existingPermission,
                     res_domain = Some domain\<rparr>, st, []))
      | Inr False \<Rightarrow>
          (let perms = getStoredPermissions env st;
               firstTime = (perms domain = None);
               (userResponse, shown) = askUser env usr info firstTime;
               caps = snd userResponse;
               grantedPermissions = grantedPermissionList caps
           in
           if fst userResponse then
             Inr (\<lparr>res_granted = True, isFirstTime = firstTime,
                   res_permissions = grantedPermissions, res_capabilities = Some caps,
                   res_domain = Some domain\<rparr>,
                  storePermissions env st
                    (perms(domain \<mapsto>
                       \<lparr>granted = True, grantedAt = now, permissions = grantedPermissions,
                        capabilities = Some caps, perm_appInfo = Some info, revokedAt = None,
                        lastUsed = Some now\<rparr>)),
                  shown)
           else
             Inr (\<lparr>res_granted = False, isFirstTime = firstTime, res_permissions = [],
                   res_capabilities = Some \<lparr>read = False, write = False\<rparr>,
                   res_domain = Some domain\<rparr>,
                  storePermissions env st
                    (perms(domain \<mapsto>
                       \<lparr>granted = False, grantedAt = now, permissions = [],
                        capabilities = Some \<lparr>read = False, write = False\<rparr>,
                        perm_appInfo = Some info, revokedAt = None, lastUsed = None\<rparr>)),
                  shown)))"

section \<open>\<open>PermissionManager\<close> (\<open>permissions.ts\<close>)\<close>

text \<open>
  The manager reads its records from \<open>localStorage\<close> and writes them to
  \<open>chrome.storage.local\<close> when that exists, to \<open>localStorage\<close> otherwise. Its records
  carry no capability map.
\<close>

record permissionManagerConfig =
  autoShowUI :: bool
  defaultPermissions :: "string list"

record managerState =
  localPermissions :: permissionStorage
  chromePermissions :: permissionStorage

definition pm_getStoredPermissions :: "environment \<Rightarrow> managerState \<Rightarrow> permissionStorage" where
  "pm_getStoredPermissions env st = (if hasWindow env then localPermissions st else Map.empty)"

definition pm_storePermissions ::
  "environment \<Rightarrow> managerState \<Rightarrow> permissionStorage \<Rightarrow> managerState" where
  "pm_storePermissions env st perms =
     (if hasChromeStorage env then st\<lparr>chromePermissions := perms\<rparr>
      else if hasWindow env then st\<lparr>localPermissions := perms\<rparr>
      else st)"

definition pm_isPermissionGranted :: "environment \<Rightarrow> managerState \<Rightarrow> string \<Rightarrow> bool" where
  "pm_isPermissionGranted env st domain =
     (case pm_getStoredPermissions env st domain of
        None \<Rightarrow> False
      | Some domainPermission \<Rightarrow>
          granted domainPermission = True \<and> \<not> truthyNumber (revokedAt domainPermission))"

definition pm_getCurrentDomain :: "environment \<Rightarrow> string" where
  "pm_getCurrentDomain env = (if hasWindow env then hostname env else ''localhost'')"

definition pm_grantPermission ::
  "permissionManagerConfig \<Rightarrow> environment \<Rightarrow> int \<Rightarrow> managerState \<Rightarrow> string \<Rightarrow> appInfo
     \<Rightarrow> managerState" where
  "pm_grantPermission cfg env now st domain info =
     pm_storePermissions env st
       ((pm_getStoredPermissions env st)(domain \<mapsto>
          \<lparr>granted = True, grantedAt = now, permissions = defaultPermissions cfg,
           capabilities = None, perm_appInfo = Some info, revokedAt = None, lastUsed = None\<rparr>))"

definition pm_denyPermission ::
  "environment \<Rightarrow> int \<Rightarrow> managerState \<Rightarrow> string \<Rightarrow> appInfo \<Rightarrow> managerState" where
  "pm_denyPermission env now st domain info =
     pm_storePermissions env st
       ((pm_getStoredPermissions env st)(domain \<mapsto>
          \<lparr>granted = False, grantedAt = now, permissions = [],
           capabilities = None, perm_appInfo = Some info, revokedAt = None, lastUsed = None\<rparr>))"

definition pm_revokePermission :: "environment \<Rightarrow> int \<Rightarrow> managerState \<Rightarrow> string \<Rightarrow> managerState" where
  "pm_revokePermission env now st domain =
     (let perms = pm_getStoredPermissions env st in
      case perms domain of
        None \<Rightarrow> st
      | Some existingPermission \<Rightarrow>
          pm_storePermissions env st
            (perms(domain \<mapsto> existingPermission\<lparr>granted := False, revokedAt := Some now\<rparr>)))"

text \<open>\<open>showPermissionDialog\<close>: without a window the grant is automatic.\<close>

definition pm_showPermissionDialog ::
  "environment \<Rightarrow> user \<Rightarrow> appInfo \<Rightarrow> bool \<Rightarrow> bool \<times> prompt list" where
  "pm_showPermissionDialog env usr info firstTime =
     (if \<not> hasWindow env then (True, [])
      else (usr (GrantAccessPrompt firstTime (appName info)),
            [GrantAccessPrompt firstTime (appName info)]))"

text \<open>\<open>appInfo.domain || this.getCurrentDomain()\<close>.\<close>

definition pm_requestDomain :: "environment \<Rightarrow> appInfo \<Rightarrow> string" where
  "pm_requestDomain env info =
     (case app_domain info of
        None \<Rightarrow> pm_getCurrentDomain env
      | Some d \<Rightarrow> if d \<noteq> [] then d else pm_getCurrentDomain env)"

definition pm_requestPermission ::
  "permissionManagerConfig \<Rightarrow> environment \<Rightarrow> user \<Rightarrow> int \<Rightarrow> managerState \<Rightarrow> appInfo
     \<Rightarrow> permissionResult \<times> managerState \<times> prompt list" where
  "pm_requestPermission cfg env usr now st info =
     (let domain = pm_requestDomain env info in
      if pm_isPermissionGranted env st domain then
        (\<lparr>res_granted = True, isFirstTime = False, res_permissions = defaultPermissions cfg,
          res_capabilities = None, res_domain = Some domain\<rparr>, st, [])
      else
        (let firstTime = (pm_getStoredPermissions env st domain = None) in
         if autoShowUI cfg then
           (let (userGranted, shown) = pm_showPermissionDialog env usr info firstTime in
            if userGranted then
              (\<lparr>res_granted = True, isFirstTime = firstTime,
                res_permissions = defaultPermissions cfg,
                res_capabilities = None, res_domain = Some domain\<rparr>,
               pm_grantPermission cfg env now st domain info, shown)
            else
              (\<lparr>res_granted = False, isFirstTime = firstTime, res_permissions = [],
                res_capabilities = None, res_domain = Some domain\<rparr>,
               pm_denyPermission env now st domain info, shown))
         else
           (\<lparr>res_granted = False, isFirstTime = firstTime, res_permissions = [],
             res_capabilities = None, res_domain = Some domain\<rparr>, st, [])))"

section \<open>Write-back store of a provider (\<open>index.ts\<close>)\<close>

record providerConfig =
  cfg_providerId :: string
  cfg_providerName :: string
  cfg_version :: string
  supportsContextProvision :: "bool option"
  maxWebAgentContextSize :: "int option"
  webAgentStorageLimit :: "int option"
  allowedAgentTypes :: "string list option"

type_synonym webAgentContextHandler =
  "webAgentContext \<Rightarrow> webAgentContextOptions option \<Rightarrow> thrown + contextProvisionResult"

text \<open>
  An integer as a template string prints it (\<open>Number::toString\<close>): the decimal digits
  below \<open>10^21\<close>, and from there the significant digits, with a point after the first
  when there are several, followed by \<open>e+\<close> and the exponent. The digits are those of
  the integer itself, which are the ones printed for every integer that a JavaScript
  number holds exactly with at most 15 significant digits, so for every time stamp in
  epoch milliseconds.
\<close>

fun natToString :: "nat \<Rightarrow> string" where
  "natToString n =
     (if n < 10 then [''0123456789'' ! n]
      else natToString (n div 10) @ [''0123456789'' ! (n mod 10)])"

definition exponentNotation :: "nat \<Rightarrow> string" where
  "exponentNotation n =
     (let digits = natToString n;
          significant = rev (dropWhile (\<lambda>d. d = CHR ''0'') (rev digits))
      in hd significant # (if tl significant = [] then [] else ''.'' @ tl significant)
         @ ''e+'' @ natToString (length digits - 1))"

definition intToString :: "int \<Rightarrow> string" where
  "intToString i =
     (let n = nat \<bar>i\<bar>;
          printed = (if n < 10 ^ 21 then natToString n else exponentNotation n)
      in if i < 0 then ''-'' @ printed else printed)"

definition quoted :: "string \<Rightarrow> string" where
  "quoted s = [CHR 0x27] @ s @ [CHR 0x27]"

text \<open>
  \<open>getStoredWebAgentContexts()\<close>: the read of the full store. It keeps the entries with
  a falsy \<open>expiresAt\<close> or with \<open>expiresAt > now\<close>, writes the kept entries back when an
  entry was dropped, and returns them. Without a window it returns the empty store.
\<close>

definition notExpired :: "int \<Rightarrow> storedContext \<Rightarrow> bool" where
  "notExpired now contextData \<longleftrightarrow>
     \<not> truthyNumber (expiresAt contextData) \<or>
     (case expiresAt contextData of None \<Rightarrow> False | Some t \<Rightarrow> t > now)"

definition getStoredWebAgentContexts ::
  "environment \<Rightarrow> int \<Rightarrow> providerState \<Rightarrow> webAgentContextStorage \<times> providerState" where
  "getStoredWebAgentContexts env now st =
     (if \<not> hasWindow env then ([], st)
      else
        (let contexts = webAgentStore st;
             cleanedContexts = filter (\<lambda>entry. notExpired now (snd entry)) contexts
         in if length cleanedContexts \<noteq> length contexts
            then (cleanedContexts, st\<lparr>webAgentStore := cleanedContexts\<rparr>)
            else (cleanedContexts, st)))"

definition storeWebAgentContexts ::
  "environment \<Rightarrow> providerState \<Rightarrow> webAgentContextStorage \<Rightarrow> providerState" where
  "storeWebAgentContexts env st contexts =
     (if hasWindow env then st\<lparr>webAgentStore := contexts\<rparr> else st)"

text \<open>
  The eviction of \<open>handleWebAgentContext\<close>: at or beyond the limit, the entries are
  sorted by \<open>receivedAt\<close> (stable, ascending) and the first
  \<open>length - storageLimit + 1\<close> of them are deleted from the store.
\<close>

definition evictOldest :: "webAgentContextStorage \<Rightarrow> int \<Rightarrow> webAgentContextStorage" where
  "evictOldest storedContexts storageLimit =
     (let contextEntries = storedContexts in
      if int (length contextEntries) \<ge> storageLimit then
        (let sortedEntries = sort_key (\<lambda>entry. receivedAt (snd entry)) contextEntries;
             toRemove = slice0 sortedEntries (int (length contextEntries) - storageLimit + 1)
         in foldl (\<lambda>store entry. mapDelete (fst entry) store) storedContexts toRemove)
      else storedContexts)"

definition storageLimitOf :: "providerConfig \<Rightarrow> int" where
  "storageLimitOf cfg =
     (case webAgentStorageLimit cfg of None \<Rightarrow> 100 | Some l \<Rightarrow> if l \<noteq> 0 then l else 100)"

definition contextIdOf :: "webAgentContext \<Rightarrow> string" where
  "contextIdOf context =
     agentId context @ ''_'' @
     (case sessionId context of None \<Rightarrow> ''default'' | Some sid \<Rightarrow> if sid \<noteq> [] then sid else ''default'')
     @ ''_'' @ intToString (wa_timestamp context)"

definition expiryOf :: "int \<Rightarrow> webAgentContext \<Rightarrow> webAgentContextOptions option \<Rightarrow> int" where
  "expiryOf now context options =
     (if truthyNumber (wa_expiresAt context) then the (wa_expiresAt context)
      else if Option.bind options storageType = Some ''ephemeral'' then now + 5 * 60 * 1000
      else now + 24 * 60 * 60 * 1000)"

definition rejectedResult ::
  "webAgentContext \<Rightarrow> string list option \<Rightarrow> protocolError
     \<Rightarrow> thrown + contextProvisionResult" where
  "rejectedResult context reasons err =
     (case lengthOf (wa_memories context) of
        Inl e \<Rightarrow> Inl e
      | Inr n \<Rightarrow>
          Inr \<lparr>cp_success = False, cp_processed = False, acknowledged = False,
               memoriesAccepted = 0, memoriesRejected = n, rejectionReasons = reasons,
               cp_error = Some err, cp_contextId = None, storedUntil = None,
               storageLocation = None, processingTimeMs = Some 0, sizeBytes = None,
               cp_metadata = None\<rparr>)"

text \<open>
  The \<open>catch\<close> of \<open>handleWebAgentContext\<close>: its result reads
  \<open>context.memories.length\<close> too, and what it throws rejects the promise.
\<close>

definition caughtProvisionError ::
  "webAgentContext \<Rightarrow> thrown \<Rightarrow> thrown + contextProvisionResult" where
  "caughtProvisionError context e =
     rejectedResult context None
       \<lparr>code = PROVIDER_ERROR, message = errorMessageOr ''Unknown error occurred'' e,
        recoverable = False, suggestedAction = None\<rparr>"

text \<open>
  \<open>config.allowedAgentTypes && context.agentType\<close> and
  \<open>!config.allowedAgentTypes.includes(context.agentType)\<close>: an array is truthy, an empty
  or absent agent type is falsy.
\<close>

definition agentTypeRejected :: "providerConfig \<Rightarrow> webAgentContext \<Rightarrow> bool" where
  "agentTypeRejected cfg context =
     (case allowedAgentTypes cfg of
        None \<Rightarrow> False
      | Some allowed \<Rightarrow>
          (case agentType context of
             None \<Rightarrow> False
           | Some ty \<Rightarrow> ty \<noteq> [] \<and> ty \<notin> set allowed))"

text \<open>
  The body of the \<open>try\<close> of \<open>handleWebAgentContext(context, options)\<close>: what it
  returns or throws, and the new persisted state. \<open>Date.now()\<close> is one value \<open>now\<close>
  for the call. An exception of the handler is caught on the spot and the handler's
  result stays \<open>null\<close>.
\<close>

definition tryHandleWebAgentContext ::
  "providerConfig \<Rightarrow> environment \<Rightarrow> webAgentContextHandler option \<Rightarrow> int \<Rightarrow> providerState
     \<Rightarrow> webAgentContext \<Rightarrow> webAgentContextOptions option
     \<Rightarrow> (thrown + contextProvisionResult) \<times> providerState" where
  "tryHandleWebAgentContext cfg env handler now st context options =
     (case isPermissionGranted env st (Some (wa_domain context)) (Some WriteCapability) of
        Inl e \<Rightarrow> (Inl e, st)
      | Inr False \<Rightarrow>
          (rejectedResult context (Some [''Permission denied for domain''])
             \<lparr>code = PERMISSION_DENIED,
              message = ''Permission required for domain: '' @ wa_domain context,
              recoverable = True, suggestedAction = Some ''Request permission from user''\<rparr>, st)
      | Inr True \<Rightarrow>
          if agentTypeRejected cfg context then
            (rejectedResult context
               (Some [''Agent type '' @ quoted (the (agentType context)) @ '' not allowed''])
               \<lparr>code = INVALID_OPTIONS,
                message = ''Agent type '' @ quoted (the (agentType context)) @ '' is not allowed'',
                recoverable = False, suggestedAction = None\<rparr>, st)
          else
            (case jsonLength env context of
               Inl e \<Rightarrow> (Inl e, st)
             | Inr contextSize \<Rightarrow>
                 if truthyNumber (maxWebAgentContextSize cfg) \<and>
                    int contextSize > the (maxWebAgentContextSize cfg) then
                   (rejectedResult context (Some [''Context size exceeds limit''])
                      \<lparr>code = INVALID_OPTIONS,
                       message = ''Context size exceeds maximum allowed limit'',
                       recoverable = False, suggestedAction = None\<rparr>, st)
                 else
                   (let contextId = contextIdOf context;
                        (storedContexts, st1) = getStoredWebAgentContexts env now st;
                        storageLimit = storageLimitOf cfg;
                        afterEviction = evictOldest storedContexts storageLimit;
                        expires = expiryOf now context options;
                        withNew = mapSet contextId
                          \<lparr>sc_context = context, receivedAt = now, processed = False,
                           expiresAt = Some expires, sc_size = contextSize\<rparr> afterEviction;
                        st2 = storeWebAgentContexts env st1 withNew;
                        handlerResult =
                          (case handler of
                             None \<Rightarrow> None
                           | Some h \<Rightarrow>
                               (case h context options of Inl e \<Rightarrow> None | Inr r \<Rightarrow> Some r));
                        marked = mapSet contextId
                          \<lparr>sc_context = context, receivedAt = now, processed = True,
                           expiresAt = Some expires, sc_size = contextSize\<rparr> withNew;
                        st3 = storeWebAgentContexts env st2 marked
                    in ((case handlerResult of
                           Some r \<Rightarrow> Inr r
                         | None \<Rightarrow>
                             (case lengthOf (wa_memories context) of
                                Inl e \<Rightarrow> Inl e
                              | Inr n \<Rightarrow>
                                  Inr \<lparr>cp_success = True, cp_processed = True,
                                       acknowledged = True, memoriesAccepted = n,
                                       memoriesRejected = 0, rejectionReasons = None,
                                       cp_error = None, cp_contextId = Some contextId,
                                       storedUntil = Some expires,
                                       storageLocation = Some ''memory'',
                                       processingTimeMs = Some 0,
                                       sizeBytes = Some contextSize,
                                       cp_metadata =
                                         Some (cfg_providerId cfg, now, cfg_version cfg)\<rparr>)),
                        st3))))"

text \<open>
  \<open>handleWebAgentContext(context, options)\<close>, the provider's \<open>provideContext\<close>: the
  \<open>try\<close> with its \<open>catch\<close>. The promise resolves with a result or rejects.
\<close>

definition handleWebAgentContext ::
  "providerConfig \<Rightarrow> environment \<Rightarrow> webAgentContextHandler option \<Rightarrow> int \<Rightarrow> providerState
     \<Rightarrow> webAgentContext \<Rightarrow> webAgentContextOptions option
     \<Rightarrow> (thrown + contextProvisionResult) \<times> providerState" where
  "handleWebAgentContext cfg env handler now st context options =
     (let attempt = tryHandleWebAgentContext cfg env handler now st context options
      in ((case fst attempt of
             Inl e \<Rightarrow> caughtProvisionError context e
           | Inr r \<Rightarrow> Inr r),
          snd attempt))"

text \<open>The provider's \<open>contributeMemory(memories, source)\<close>.\<close>

definition contributeMemory ::
  "providerConfig \<Rightarrow> environment \<Rightarrow> webAgentContextHandler option \<Rightarrow> int \<Rightarrow> providerState
     \<Rightarrow> memory list option \<Rightarrow> string
     \<Rightarrow> (thrown + contextProvisionResult) \<times> providerState" where
  "contributeMemory cfg env handler now st mems src =
     handleWebAgentContext cfg env handler now st
       \<lparr>agentId = src, agentName = src, agentType = Some ''other'', wa_memories = mems,
        sessionId = None, contextType = ''other'', wa_timestamp = now,
        wa_domain = hostnameOrLocalhost env, wa_expiresAt = None\<rparr>
       None"

section \<open>Read path of a provider\<close>

text \<open>The metadata of a provider's answers.\<close>

definition providerErrorMetadata :: "providerConfig \<Rightarrow> int \<Rightarrow> partialMetadata" where
  "providerErrorMetadata cfg now =
     \<lparr>pm_generatedAt = Some now,
      pm_provider = Some \<lparr>ref_id = cfg_providerId cfg, ref_name = cfg_providerName cfg,
                          ref_version = cfg_version cfg\<rparr>,
      pm_dataSource = Some \<lparr>ds_timeRange = (Some 0, Some 0), ds_categories = []\<rparr>\<rparr>"

definition providerMetadata ::
  "providerConfig \<Rightarrow> int \<Rightarrow> contextOptions option \<Rightarrow> string list \<Rightarrow> partialMetadata" where
  "providerMetadata cfg now options defaultCategories =
     \<lparr>pm_generatedAt = Some now,
      pm_provider = Some \<lparr>ref_id = cfg_providerId cfg, ref_name = cfg_providerName cfg,
                          ref_version = cfg_version cfg\<rparr>,
      pm_dataSource =
        Some \<lparr>ds_timeRange = optionsTimeRange now options,
              ds_categories =
                (case Option.bind options categories of
                   None \<Rightarrow> defaultCategories | Some cs \<Rightarrow> cs)\<rparr>\<rparr>"

definition caughtContextError :: "providerConfig \<Rightarrow> int \<Rightarrow> thrown \<Rightarrow> providerContextResult" where
  "caughtContextError cfg now e =
     \<lparr>pr_success = False, pr_data = None,
      pr_error = Some (errorMessageOr ''Unknown provider error'' e),
      pr_metadata = Some (providerErrorMetadata cfg now)\<rparr>"

definition permissionRequiredResult :: "providerConfig \<Rightarrow> int \<Rightarrow> providerContextResult" where
  "permissionRequiredResult cfg now =
     \<lparr>pr_success = False, pr_data = None,
      pr_error = Some ''Permission required to access memory data'',
      pr_metadata = Some (providerErrorMetadata cfg now)\<rparr>"

type_synonym contextSource = "contextOptions option \<Rightarrow> thrown + memoryContext"

text \<open>\<open>getContext(options)\<close> of a provider made by \<open>createProvider\<close> (\<open>index.ts\<close>).\<close>

definition getContext ::
  "providerConfig \<Rightarrow> environment \<Rightarrow> contextSource \<Rightarrow> int \<Rightarrow> providerState
     \<Rightarrow> contextOptions option \<Rightarrow> providerContextResult" where
  "getContext cfg env getContextData now st options =
     (case isPermissionGranted env st (Some (hostnameOrLocalhost env)) (Some ReadCapability) of
        Inl e \<Rightarrow> caughtContextError cfg now e
      | Inr False \<Rightarrow> permissionRequiredResult cfg now
      | Inr True \<Rightarrow>
          (case getContextData options of
             Inl e \<Rightarrow> caughtContextError cfg now e
           | Inr contextData \<Rightarrow>
               \<lparr>pr_success = True,
                pr_data = Some \<lparr>memories = slice0 (memories contextData) 50\<rparr>,
                pr_error = None,
                pr_metadata = Some (providerMetadata cfg now options [''all''])\<rparr>))"

text \<open>
  The provider object \<open>createProvider\<close> returns, at a persisted state and a time: the
  write methods are present unless \<open>supportsContextProvision\<close> is \<open>false\<close>.
\<close>

definition createProvider ::
  "providerConfig \<Rightarrow> environment \<Rightarrow> contextSource \<Rightarrow> webAgentContextHandler option \<Rightarrow> int
     \<Rightarrow> providerState \<Rightarrow> provider" where
  "createProvider cfg env getContextData handler now st =
     \<lparr>providerId = cfg_providerId cfg, providerName = cfg_providerName cfg,
      version = cfg_version cfg,
      isPermissionGranted_m = (\<lambda>domain. isPermissionGranted env st domain None = Inr True),
      getContext_m = (\<lambda>options. Inr (getContext cfg env getContextData now st options)),
      provideContext_m =
        (if supportsContextProvision cfg \<noteq> Some False
         then Some (\<lambda>context options.
                fst (handleWebAgentContext cfg env handler now st context options))
         else None),
      contributeMemory_m =
        (if supportsContextProvision cfg \<noteq> Some False
         then Some (\<lambda>mems src. fst (contributeMemory cfg env handler now st mems src))
         else None)\<rparr>"

subsection \<open>\<open>ContextBuilder\<close> and \<open>BaseProvider\<close>\<close>

text \<open>
  The constructor fixes the builder's configuration: \<open>topK\<close> is \<open>config.topK ?? 50\<close>
  and the default time range is the configured one or else the seven days before the
  time of the construction. \<open>processMemories\<close> keeps the memories whose trimmed text
  and trimmed source are not empty, trims both, clamps the relevance to \<open>[0, 1]\<close>,
  sorts by descending relevance and cuts to \<open>options?.topK ?? this.config.topK\<close>.
\<close>

record contextBuilder =
  cb_topK :: int
  cb_defaultTimeRange :: "int option \<times> int option"

definition newContextBuilder ::
  "int option \<Rightarrow> (int option \<times> int option) option \<Rightarrow> int \<Rightarrow> contextBuilder" where
  "newContextBuilder k defaultTimeRange constructedAt =
     \<lparr>cb_topK = (case k of None \<Rightarrow> 50 | Some n \<Rightarrow> n),
      cb_defaultTimeRange =
        (case defaultTimeRange of
           None \<Rightarrow> (Some (constructedAt - 7 * 24 * 60 * 60 * 1000), Some constructedAt)
         | Some r \<Rightarrow> r)\<rparr>"

definition validMemory :: "memory \<Rightarrow> bool" where
  "validMemory m \<longleftrightarrow> trim (text m) \<noteq> [] \<and> trim (source m) \<noteq> []"

definition normalizeMemory :: "memory \<Rightarrow> memory" where
  "normalizeMemory m =
     \<lparr>text = trim (text m), relevance = max 0 (min 1 (relevance m)),
      timestamp = timestamp m, source = trim (source m),
      metadata = Some (case metadata m of None \<Rightarrow> [] | Some md \<Rightarrow> md)\<rparr>"

definition processMemories ::
  "contextBuilder \<Rightarrow> memory list \<Rightarrow> contextOptions option \<Rightarrow> memory list" where
  "processMemories cb ms options =
     slice0 (sortByRelevanceDesc (map normalizeMemory (filter validMemory ms)))
       (case Option.bind options topK of None \<Rightarrow> cb_topK cb | Some k \<Rightarrow> k)"

definition buildContextResult ::
  "contextBuilder \<Rightarrow> providerConfig \<Rightarrow> int \<Rightarrow> memoryContext \<Rightarrow> contextOptions option
     \<Rightarrow> providerContextResult" where
  "buildContextResult cb cfg now contextData options =
     \<lparr>pr_success = True,
      pr_data = Some \<lparr>memories = processMemories cb (memories contextData) options\<rparr>,
      pr_error = None,
      pr_metadata =
        Some \<lparr>pm_generatedAt = Some now,
              pm_provider = Some \<lparr>ref_id = cfg_providerId cfg, ref_name = cfg_providerName cfg,
                                  ref_version = cfg_version cfg\<rparr>,
              pm_dataSource =
                Some \<lparr>ds_timeRange =
                        (case Option.bind options timeRange of
                           None \<Rightarrow> cb_defaultTimeRange cb | Some tr \<Rightarrow> tr),
                      ds_categories =
                        (case Option.bind options categories of
                           None \<Rightarrow> [''memories''] | Some cs \<Rightarrow> cs)\<rparr>\<rparr>\<rparr>"

text \<open>
  \<open>BaseProvider.getContext\<close>: the permission manager and the context builder are set by
  \<open>_initialize\<close> and are absent before.
\<close>

record baseProvider =
  bp_config :: providerConfig
  bp_permissionManager :: "managerState option"
  bp_contextBuilder :: "contextBuilder option"

definition bp_isPermissionGranted :: "baseProvider \<Rightarrow> environment \<Rightarrow> string option \<Rightarrow> bool" where
  "bp_isPermissionGranted bp env domain =
     (let targetDomain = (case domain of None \<Rightarrow> pm_getCurrentDomain env | Some d \<Rightarrow> d) in
      case bp_permissionManager bp of
        None \<Rightarrow> False
      | Some mst \<Rightarrow> pm_isPermissionGranted env mst targetDomain)"

definition bp_getContext ::
  "baseProvider \<Rightarrow> environment \<Rightarrow> contextSource \<Rightarrow> int \<Rightarrow> contextOptions option
     \<Rightarrow> providerContextResult" where
  "bp_getContext bp env getContextData now options =
     (if \<not> bp_isPermissionGranted bp env (Some (pm_getCurrentDomain env)) then
        permissionRequiredResult (bp_config bp) now
      else
        (case getContextData options of
           Inl e \<Rightarrow> caughtContextError (bp_config bp) now e
         | Inr contextData \<Rightarrow>
             (case bp_contextBuilder bp of
                None \<Rightarrow>
                  caughtContextError (bp_config bp) now
                    (ThrownError
                       ''ContextBuilder not initialized. Call ExtensionSDK.initialize() first.'')
              | Some cb \<Rightarrow> buildContextResult cb (bp_config bp) now contextData options)))"

section \<open>Write routing of the registries\<close>

definition notAvailableProvision :: "nat \<Rightarrow> string \<Rightarrow> int option \<Rightarrow> contextProvisionResult" where
  "notAvailableProvision rejected msg ms =
     \<lparr>cp_success = False, cp_processed = False, acknowledged = False, memoriesAccepted = 0,
      memoriesRejected = rejected, rejectionReasons = None,
      cp_error = Some \<lparr>code = NOT_AVAILABLE, message = msg, recoverable = True,
                        suggestedAction = None\<rparr>,
      cp_contextId = None, storedUntil = None, storageLocation = None,
      processingTimeMs = ms, sizeBytes = None, cp_metadata = None\<rparr>"

definition registryCaught :: "nat \<Rightarrow> thrown \<Rightarrow> contextProvisionResult" where
  "registryCaught rejected e =
     \<lparr>cp_success = False, cp_processed = False, acknowledged = False, memoriesAccepted = 0,
      memoriesRejected = rejected, rejectionReasons = None,
      cp_error = Some \<lparr>code = PROVIDER_ERROR, message = errorMessageOr ''Unknown error'' e,
                        recoverable = False, suggestedAction = None\<rparr>,
      cp_contextId = None, storedUntil = None, storageLocation = None,
      processingTimeMs = None, sizeBytes = None, cp_metadata = None\<rparr>"

text \<open>
  The provider a write is routed to: the one registered under the given id, or else the
  first that has the method (for \<open>provideContext\<close> in \<open>index.ts\<close>: and has permission
  for the context's domain).
\<close>

definition selectWriterSimple :: "registry \<Rightarrow> webAgentContext \<Rightarrow> string option \<Rightarrow> provider option" where
  "selectWriterSimple providers context pid =
     (let firstCapable =
            find (\<lambda>p. provideContext_m p \<noteq> None
                      \<and> isPermissionGranted_m p (Some (wa_domain context)))
              (map snd providers)
      in case pid of
           None \<Rightarrow> firstCapable
         | Some i \<Rightarrow> if i \<noteq> [] then map_of providers i else firstCapable)"

definition selectWriter :: "registry \<Rightarrow> string option \<Rightarrow> provider option" where
  "selectWriter providers pid =
     (let firstCapable = find (\<lambda>p. provideContext_m p \<noteq> None) (map snd providers)
      in case pid of
           None \<Rightarrow> firstCapable
         | Some i \<Rightarrow> if i \<noteq> [] then map_of providers i else firstCapable)"

definition selectContributor :: "registry \<Rightarrow> string option \<Rightarrow> provider option" where
  "selectContributor providers pid =
     (let firstCapable = find (\<lambda>p. contributeMemory_m p \<noteq> None) (map snd providers)
      in case pid of
           None \<Rightarrow> firstCapable
         | Some i \<Rightarrow> if i \<noteq> [] then map_of providers i else firstCapable)"

text \<open>
  \<open>provideContext\<close> and \<open>contributeMemory\<close> of the registry of \<open>index.ts\<close>: the
  provider's promise is awaited outside any \<open>try\<close>, and the answer for no provider
  reads \<open>context.memories.length\<close>.
\<close>

definition registry_provideContextSimple ::
  "registry \<Rightarrow> webAgentContext \<Rightarrow> webAgentContextOptions option \<Rightarrow> string option
     \<Rightarrow> thrown + contextProvisionResult" where
  "registry_provideContextSimple providers context options pid =
     (case Option.bind (selectWriterSimple providers context pid) provideContext_m of
        None \<Rightarrow>
          (case lengthOf (wa_memories context) of
             Inl e \<Rightarrow> Inl e
           | Inr n \<Rightarrow>
               Inr (notAvailableProvision n ''No providers support context provision'' (Some 0)))
      | Some provide \<Rightarrow> provide context options)"

definition registry_contributeMemorySimple ::
  "registry \<Rightarrow> memory list option \<Rightarrow> string \<Rightarrow> string option
     \<Rightarrow> thrown + contextProvisionResult" where
  "registry_contributeMemorySimple providers mems src pid =
     (case Option.bind (selectContributor providers pid) contributeMemory_m of
        None \<Rightarrow>
          (case lengthOf mems of
             Inl e \<Rightarrow> Inl e
           | Inr n \<Rightarrow>
               Inr (notAvailableProvision n ''No providers support memory contribution'' (Some 0)))
      | Some contribute \<Rightarrow> contribute mems src)"

text \<open>
  The same two operations of the registry manager: the call is inside a \<open>try\<close>, whose
  \<open>catch\<close> builds the \<open>PROVIDER_ERROR\<close> result. \<open>provideContext\<close> reads
  \<open>context.memories?.length || 0\<close>, \<open>contributeMemory\<close> reads \<open>memories.length\<close>.
\<close>

definition registry_provideContext ::
  "registry \<Rightarrow> webAgentContext \<Rightarrow> webAgentContextOptions option \<Rightarrow> string option
     \<Rightarrow> thrown + contextProvisionResult" where
  "registry_provideContext providers context options pid =
     (case Option.bind (selectWriter providers pid) provideContext_m of
        None \<Rightarrow>
          Inr (notAvailableProvision (lengthOrZero (wa_memories context))
                 ''No providers support context provision'' None)
      | Some provide \<Rightarrow>
          (case provide context options of
             Inl e \<Rightarrow> Inr (registryCaught (lengthOrZero (wa_memories context)) e)
           | Inr r \<Rightarrow> Inr r))"

definition registry_contributeMemory ::
  "registry \<Rightarrow> memory list option \<Rightarrow> string \<Rightarrow> string option
     \<Rightarrow> thrown + contextProvisionResult" where
  "registry_contributeMemory providers mems src pid =
     (case Option.bind (selectContributor providers pid) contributeMemory_m of
        None \<Rightarrow>
          (case lengthOf mems of
             Inl e \<Rightarrow> Inl e
           | Inr n \<Rightarrow>
               Inr (notAvailableProvision n ''No providers support memory contribution'' None))
      | Some contribute \<Rightarrow>
          (case contribute mems src of
             Inl e \<Rightarrow>
               (case lengthOf mems of
                  Inl e' \<Rightarrow> Inl e'
                | Inr n \<Rightarrow> Inr (registryCaught n e))
           | Inr r \<Rightarrow> Inr r))"

subsection \<open>The registry's answers as the specification words them\<close>

text \<open>
  Routing to a provider: the provider's own answer, converted. The error code of a
  result. The providers an aggregation queries, the results it keeps, and the report of
  every queried provider's raw result in \<open>providerResults\<close>.
\<close>

definition routedTo :: "int \<Rightarrow> provider \<Rightarrow> contextOptions option \<Rightarrow> thrown + contextResult" where
  "routedTo now p options =
     (case getContext_m p options of
        Inl e \<Rightarrow> Inl e
      | Inr providerResult \<Rightarrow> Inr (convertToContextResult now providerResult (providerId p)))"

definition errorCodeOf :: "protocolError option \<Rightarrow> errorCode option" where
  "errorCodeOf e = map_option code e"

definition queriedProviders :: "registry \<Rightarrow> provider list" where
  "queriedProviders providers = filter (\<lambda>p. isPermissionGranted_m p None) (map snd providers)"

definition successfulWithData :: "providerContextResult list \<Rightarrow> providerContextResult list" where
  "successfulWithData results = filter (\<lambda>r. pr_success r \<and> pr_data r \<noteq> None) results"

definition reportsEvery ::
  "aggregatedContextResult \<Rightarrow> provider list \<Rightarrow> providerContextResult list \<Rightarrow> bool" where
  "reportsEvery r ps results \<longleftrightarrow>
     list_all (\<lambda>j. providerResults r (providerId (ps ! j)) = Some (results ! j)) [0 ..< length ps]"

definition aggregationOutcome ::
  "(memoryContext list \<Rightarrow> memoryContext) \<Rightarrow> registry \<Rightarrow> providerContextResult list
     \<Rightarrow> aggregatedContextResult \<Rightarrow> bool" where
  "aggregationOutcome merge providers results r =
     (if queriedProviders providers = [] then
        \<not> agg_success r \<and> errorCodeOf (agg_error r) = Some PERMISSION_DENIED
      else if successfulWithData results = [] then
        \<not> agg_success r \<and> errorCodeOf (agg_error r) = Some NO_DATA
        \<and> reportsEvery r (queriedProviders providers) results
      else
        agg_success r \<and> agg_error r = None
        \<and> agg_data r = Some (merge (List.map_filter pr_data (successfulWithData results)))
        \<and> reportsEvery r (queriedProviders providers) results)"

subsection \<open>Exceptions as the specification words them\<close>

text \<open>
  A raw exception reaches the caller when the promise rejects. Otherwise the caller gets
  a result, which reports a provider error when \<open>success\<close> is false and the error code
  is \<open>PROVIDER_ERROR\<close>.
\<close>

definition rawException :: "thrown + 'a \<Rightarrow> bool" where
  "rawException outcome = (case outcome of Inl e \<Rightarrow> True | Inr r \<Rightarrow> False)"

definition providerErrorContext :: "thrown + contextResult \<Rightarrow> bool" where
  "providerErrorContext outcome =
     (case outcome of
        Inl e \<Rightarrow> False
      | Inr r \<Rightarrow> \<not> cr_success r \<and> errorCodeOf (cr_error r) = Some PROVIDER_ERROR)"

definition providerErrorProvision :: "thrown + contextProvisionResult \<Rightarrow> bool" where
  "providerErrorProvision outcome =
     (case outcome of
        Inl e \<Rightarrow> False
      | Inr r \<Rightarrow> \<not> cp_success r \<and> errorCodeOf (cp_error r) = Some PROVIDER_ERROR)"

definition reportsSuccess :: "thrown + contextProvisionResult \<Rightarrow> bool" where
  "reportsSuccess outcome =
     (case outcome of Inl e \<Rightarrow> False | Inr r \<Rightarrow> cp_success r \<and> cp_error r = None)"

subsection \<open>The permission check as the specification words it\<close>

text \<open>
  A record counts as granted when \<open>granted\<close> is true and \<open>revokedAt\<close> is unset (a zero
  time stamp is as good as unset); with a capability, the capability map must be there
  and hold that flag.
\<close>

definition spec_granted :: "permissionRecord option \<Rightarrow> capability option \<Rightarrow> bool" where
  "spec_granted stored capability =
     (case stored of
        None \<Rightarrow> False
      | Some r \<Rightarrow>
          granted r \<and> \<not> truthyNumber (revokedAt r) \<and>
          (case capability of
             None \<Rightarrow> True
           | Some c \<Rightarrow>
               (case capabilities r of None \<Rightarrow> False | Some caps \<Rightarrow> capabilityFlag c caps)))"

text \<open>The tombstone of a denial: a record that is not granted and grants nothing.\<close>

definition deniedRecord :: "permissionRecord option \<Rightarrow> bool" where
  "deniedRecord stored =
     (case stored of
        None \<Rightarrow> False
      | Some r \<Rightarrow>
          \<not> granted r \<and> permissions r = [] \<and>
          (case capabilities r of
             None \<Rightarrow> True
           | Some caps \<Rightarrow> \<not> read caps \<and> \<not> write caps))"

subsection \<open>The write-back store as the specification words it\<close>

text \<open>
  An entry's \<open>expiresAt\<close> has passed at a time; a store is well formed when no entry
  carries the time stamp zero, which the code reads as no expiry (the entries that a put
  writes never do, see below); the entries that are live at a time.
\<close>

definition spec_expired :: "int \<Rightarrow> storedContext \<Rightarrow> bool" where
  "spec_expired now contextData =
     (case expiresAt contextData of None \<Rightarrow> False | Some t \<Rightarrow> t \<le> now)"

definition noZeroExpiry :: "webAgentContextStorage \<Rightarrow> bool" where
  "noZeroExpiry store = list_all (\<lambda>entry. expiresAt (snd entry) \<noteq> Some 0) store"

definition liveEntries :: "int \<Rightarrow> providerState \<Rightarrow> webAgentContextStorage" where
  "liveEntries now st = filter (\<lambda>entry. \<not> spec_expired now (snd entry)) (webAgentStore st)"

text \<open>The entries an eviction removes: the first \<open>length - limit + 1\<close> by \<open>receivedAt\<close>.\<close>

definition oldestEntries :: "webAgentContextStorage \<Rightarrow> int \<Rightarrow> webAgentContextStorage" where
  "oldestEntries S L =
     take (nat (int (length S) - L + 1)) (sort_key (\<lambda>entry. receivedAt (snd entry)) S)"

text \<open>
  A put is accepted when the host persists, write permission is granted for the
  context's domain, the agent type is allowed and the serialized size is within the
  limit. \<open>put\<close> is the persisted state after \<open>provideContext\<close>; \<open>puts\<close> runs a sequence
  of them, each at its own time.
\<close>

definition putAccepted :: "providerConfig \<Rightarrow> environment \<Rightarrow> providerState \<Rightarrow> webAgentContext \<Rightarrow> bool" where
  "putAccepted cfg env st context \<longleftrightarrow>
     hasWindow env \<and>
     isPermissionGranted env st (Some (wa_domain context)) (Some WriteCapability) = Inr True \<and>
     \<not> agentTypeRejected cfg context \<and>
     (case jsonLength env context of
        Inl e \<Rightarrow> False
      | Inr n \<Rightarrow> \<not> (truthyNumber (maxWebAgentContextSize cfg)
                     \<and> int n > the (maxWebAgentContextSize cfg)))"

definition put ::
  "providerConfig \<Rightarrow> environment \<Rightarrow> webAgentContextHandler option \<Rightarrow> providerState
     \<Rightarrow> int \<times> webAgentContext \<times> webAgentContextOptions option \<Rightarrow> providerState" where
  "put cfg env handler st call =
     snd (handleWebAgentContext cfg env handler (fst call) st (fst (snd call)) (snd (snd call)))"

definition puts ::
  "providerConfig \<Rightarrow> environment \<Rightarrow> webAgentContextHandler option \<Rightarrow> providerState
     \<Rightarrow> (int \<times> webAgentContext \<times> webAgentContextOptions option) list \<Rightarrow> providerState" where
  "puts cfg env handler st calls = foldl (put cfg env handler) st calls"

text \<open>The entry a put stores, once marked as processed.\<close>

definition storedEntryOf ::
  "environment \<Rightarrow> int \<Rightarrow> webAgentContext \<Rightarrow> webAgentContextOptions option \<Rightarrow> storedContext" where
  "storedEntryOf env now context options =
     \<lparr>sc_context = context, receivedAt = now, processed = True,
      expiresAt = Some (expiryOf now context options),
      sc_size = (case jsonLength env context of Inl e \<Rightarrow> 0 | Inr n \<Rightarrow> n)\<rparr>"

text \<open>
  The scenario of four sequential puts: times in order, every put accepted, the four
  ids distinct, and no entry expiring before the last put.
\<close>

definition sequentialPuts ::
  "providerConfig \<Rightarrow> environment \<Rightarrow> providerState
     \<Rightarrow> (int \<times> webAgentContext \<times> webAgentContextOptions option) list \<Rightarrow> bool" where
  "sequentialPuts cfg env st calls \<longleftrightarrow>
     sorted (map fst calls) \<and>
     list_all (\<lambda>call. putAccepted cfg env st (fst (snd call))) calls \<and>
     distinct (map (\<lambda>call. contextIdOf (fst (snd call))) calls) \<and>
     list_all (\<lambda>call. last (map fst calls) < expiryOf (fst call) (fst (snd call)) (snd (snd call)))
       calls"

subsection \<open>Example environment and states\<close>

text \<open>A memory with a given text and relevance.\<close>

definition exampleMemory :: "string \<Rightarrow> rat \<Rightarrow> memory" where
  "exampleMemory t r = \<lparr>text = t, relevance = r, timestamp = 1000, source = ''browsing'', metadata = None\<rparr>"

definition exampleEnv :: environment where
  "exampleEnv =
     \<lparr>hasWindow = True, hasChromeStorage = False, hostname = ''example.org'',
      jsonLength = (\<lambda>context. Inr (100 + 50 * lengthOrZero (wa_memories context)))\<rparr>"

definition exampleApp :: appInfo where
  "exampleApp =
     \<lparr>appName = ''Notes'', app_domain = Some ''example.org'',
      app_requestedCapabilities = Some \<lparr>req_read = Some True, req_write = Some True\<rparr>\<rparr>"

definition emptyState :: providerState where
  "emptyState = \<lparr>permissionStore = Map.empty, webAgentStore = []\<rparr>"

text \<open>A user who accepts every dialog, and one who declines every dialog.\<close>

definition acceptingUser :: user where
  "acceptingUser = (\<lambda>p. True)"

definition decliningUser :: user where
  "decliningUser = (\<lambda>p. False)"

text \<open>
  A state whose record for \<open>example.org\<close> is granted with both capabilities, one whose
  record lacks the capability map, and the empty state of a \<open>PermissionManager\<close>.
\<close>

definition grantedState :: providerState where
  "grantedState =
     \<lparr>permissionStore =
        [''example.org'' \<mapsto>
           \<lparr>granted = True, grantedAt = 1000, permissions = [''context.read'', ''context.write''],
            capabilities = Some \<lparr>read = True, write = True\<rparr>, perm_appInfo = Some exampleApp,
            revokedAt = None, lastUsed = Some 1000\<rparr>],
      webAgentStore = []\<rparr>"

definition legacyState :: providerState where
  "legacyState =
     \<lparr>permissionStore =
        [''example.org'' \<mapsto>
           \<lparr>granted = True, grantedAt = 1000, permissions = [''context''],
            capabilities = None, perm_appInfo = Some exampleApp,
            revokedAt = None, lastUsed = None\<rparr>],
      webAgentStore = []\<rparr>"

text \<open>
  A state whose record is still flagged granted but carries a revocation time stamp, and
  a manager state with a granted record.
\<close>

definition revokedState :: providerState where
  "revokedState =
     \<lparr>permissionStore =
        [''example.org'' \<mapsto>
           \<lparr>granted = True, grantedAt = 1000, permissions = [''context.read''],
            capabilities = Some \<lparr>read = True, write = False\<rparr>, perm_appInfo = Some exampleApp,
            revokedAt = Some 1500, lastUsed = Some 1000\<rparr>],
      webAgentStore = []\<rparr>"

definition grantedManagerState :: managerState where
  "grantedManagerState =
     \<lparr>localPermissions =
        [''example.org'' \<mapsto>
           \<lparr>granted = True, grantedAt = 1000, permissions = [''context''],
            capabilities = None, perm_appInfo = Some exampleApp,
            revokedAt = None, lastUsed = None\<rparr>],
      chromePermissions = Map.empty\<rparr>"

definition defaultManagerConfig :: permissionManagerConfig where
  "defaultManagerConfig = \<lparr>autoShowUI = True, defaultPermissions = [''context'']\<rparr>"

text \<open>The result and the state after the declining user was asked in the empty state.\<close>

definition deniedResult :: permissionResult where
  "deniedResult =
     \<lparr>res_granted = False, isFirstTime = True, res_permissions = [],
      res_capabilities = Some \<lparr>read = False, write = False\<rparr>,
      res_domain = Some ''example.org''\<rparr>"

definition deniedState :: providerState where
  "deniedState =
     \<lparr>permissionStore =
        [''example.org'' \<mapsto>
           \<lparr>granted = False, grantedAt = 1000, permissions = [],
            capabilities = Some \<lparr>read = False, write = False\<rparr>, perm_appInfo = Some exampleApp,
            revokedAt = None, lastUsed = None\<rparr>],
      webAgentStore = []\<rparr>"

definition deniedManagerState :: managerState where
  "deniedManagerState =
     \<lparr>localPermissions =
        [''example.org'' \<mapsto>
           \<lparr>granted = False, grantedAt = 1000, permissions = [],
            capabilities = None, perm_appInfo = Some exampleApp,
            revokedAt = None, lastUsed = None\<rparr>],
      chromePermissions = Map.empty\<rparr>"

definition silentManagerConfig :: permissionManagerConfig where
  "silentManagerConfig = \<lparr>autoShowUI = False, defaultPermissions = [''context'']\<rparr>"

text \<open>
  A provider configuration with a storage limit of three, submitted contexts, and a
  state with write permission whose store holds an entry that expired at 500 and one
  that expires at 9000.
\<close>

definition exampleConfig :: providerConfig where
  "exampleConfig =
     \<lparr>cfg_providerId = ''p1'', cfg_providerName = ''Provider One'', cfg_version = ''1.0.0'',
      supportsContextProvision = None, maxWebAgentContextSize = Some 10000,
      webAgentStorageLimit = Some 3, allowedAgentTypes = Some [''assistant'', ''other'']\<rparr>"

definition exampleContext :: "string \<Rightarrow> int \<Rightarrow> webAgentContext" where
  "exampleContext agent ts =
     \<lparr>agentId = agent, agentName = agent, agentType = Some ''assistant'',
      wa_memories = Some [exampleMemory ''Prefers dark mode'' (1/2)], sessionId = None,
      contextType = ''conversation'', wa_timestamp = ts, wa_domain = ''example.org'',
      wa_expiresAt = None\<rparr>"

definition exampleEntry :: "string \<Rightarrow> int \<Rightarrow> int \<Rightarrow> storedContext" where
  "exampleEntry agent received expires =
     \<lparr>sc_context = exampleContext agent received, receivedAt = received, processed = True,
      expiresAt = Some expires, sc_size = 150\<rparr>"

definition staleState :: providerState where
  "staleState =
     \<lparr>permissionStore = permissionStore grantedState,
      webAgentStore = [(''old_default_100'', exampleEntry ''old'' 100 500),
                       (''new_default_200'', exampleEntry ''new'' 200 9000)]\<rparr>"

text \<open>
  A context source that answers with a blank memory of relevance 5, a memory of low and
  one of high relevance, in that order; a source and a handler that throw; and a
  provider, not made by the SDK, whose methods reject.
\<close>

definition rawMemories :: "memory list" where
  "rawMemories =
     [\<lparr>text = ''   '', relevance = 5, timestamp = 1, source = ''browsing'', metadata = None\<rparr>,
      exampleMemory ''low'' (1/10), exampleMemory '' high '' (9/10)]"

definition exampleSource :: contextSource where
  "exampleSource = (\<lambda>options. Inr \<lparr>memories = rawMemories\<rparr>)"

definition throwingSource :: contextSource where
  "throwingSource = (\<lambda>options. Inl (ThrownError ''history unavailable''))"

definition throwingHandler :: webAgentContextHandler where
  "throwingHandler = (\<lambda>context options. Inl (ThrownError ''handler failed''))"

definition rejectingProvider :: provider where
  "rejectingProvider =
     \<lparr>providerId = ''custom'', providerName = ''Custom'', version = ''0.1.0'',
      isPermissionGranted_m = (\<lambda>domain. True),
      getContext_m = (\<lambda>options. Inl (ThrownError ''backend down'')),
      provideContext_m = Some (\<lambda>context options. Inl (ThrownError ''backend down'')),
      contributeMemory_m = Some (\<lambda>mems src. Inl (ThrownError ''backend down''))\<rparr>"

definition topOne :: contextOptions where
  "topOne = \<lparr>topK = Some 1, timeRange = None, categories = None\<rparr>"

definition minusOne :: contextOptions where
  "minusOne = \<lparr>topK = Some (- 1), timeRange = None, categories = None\<rparr>"

definition emptyManagerState :: managerState where
  "emptyManagerState = \<lparr>localPermissions = Map.empty, chromePermissions = Map.empty\<rparr>"

subsection \<open>Example providers\<close>

text \<open>
  Three providers for the scenarios below: \<open>p1\<close> has permission and answers with two
  memories, \<open>p2\<close> has no permission and answers with the denial of an SDK provider,
  \<open>p3\<close> has permission and answers with one memory whose text duplicates one of \<open>p1\<close>.
\<close>

definition exampleAnswer1 :: providerContextResult where
  "exampleAnswer1 =
     \<lparr>pr_success = True,
      pr_data = Some \<lparr>memories = [exampleMemory ''Reads papers'' (1/2), exampleMemory ''Writes Rust'' (7/10)]\<rparr>,
      pr_error = None, pr_metadata = None\<rparr>"

definition exampleAnswer2 :: providerContextResult where
  "exampleAnswer2 =
     \<lparr>pr_success = False, pr_data = None,
      pr_error = Some ''Permission required to access memory data'', pr_metadata = None\<rparr>"

definition exampleAnswer3 :: providerContextResult where
  "exampleAnswer3 =
     \<lparr>pr_success = True,
      pr_data = Some \<lparr>memories = [exampleMemory '' reads PAPERS '' (9/10)]\<rparr>,
      pr_error = None, pr_metadata = None\<rparr>"

definition exampleProvider :: "string \<Rightarrow> bool \<Rightarrow> providerContextResult \<Rightarrow> provider" where
  "exampleProvider pid hasPermission answer =
     \<lparr>providerId = pid, providerName = pid, version = ''1.0.0'',
      isPermissionGranted_m = (\<lambda>domain. hasPermission),
      getContext_m = (\<lambda>options. Inr answer),
      provideContext_m = None, contributeMemory_m = None\<rparr>"

definition exampleRegistry :: registry where
  "exampleRegistry =
     registerProvider (exampleProvider ''p3'' True exampleAnswer3)
       (registerProvider (exampleProvider ''p1'' True exampleAnswer1)
          (registerProvider (exampleProvider ''p2'' False exampleAnswer2) []))"

text \<open>
  The contexts of the two answering providers, and the registry with a fourth provider
  that has permission and whose methods reject.
\<close>

definition exampleContexts :: "memoryContext list" where
  "exampleContexts =
     [\<lparr>memories = [exampleMemory ''Reads papers'' (1/2), exampleMemory ''Writes Rust'' (7/10)]\<rparr>,
      \<lparr>memories = [exampleMemory '' reads PAPERS '' (9/10)]\<rparr>]"

definition rejectingRegistry :: registry where
  "rejectingRegistry = registerProvider rejectingProvider exampleRegistry"

text \<open>A submitted context that lacks the field \<open>memories\<close>, and a provider made by the SDK.\<close>

definition bareContext :: webAgentContext where
  "bareContext = (exampleContext ''a'' 1)\<lparr>wa_memories := None\<rparr>"

definition sdkProvider :: provider where
  "sdkProvider =
     createProvider exampleConfig exampleEnv throwingSource (Some throwingHandler) 5000
       grantedState"

section \<open>Verified properties\<close>

subsection \<open>Merge Engine\<close>

lemma isWhitespace_toLowerChar: "isWhitespace (toLowerChar c) = isWhitespace c"
  by (cases c) (auto simp: isWhitespace_def toLowerChar_def isUpperCase_def Let_def)

lemma dropWhile_toLowerCase:
  "dropWhile isWhitespace (map toLowerChar s) = map toLowerChar (dropWhile isWhitespace s)"
  by (induction s) (simp_all add: isWhitespace_toLowerChar)

lemma trim_toLowerCase: "trim (toLowerCase s) = toLowerCase (trim s)"
  by (simp add: trim_def toLowerCase_def dropWhile_toLowerCase rev_map)

lemma isWhitespace_spec: "isWhitespace c \<longleftrightarrow> c \<in> set spec_whitespace"
  by (cases c) (simp add: isWhitespace_def spec_whitespace_def; fastforce)

lemma spec_trimStart_dropWhile: "spec_trimStart s = dropWhile isWhitespace s"
  by (induction s) (simp_all add: isWhitespace_spec)

lemma trim_spec: "trim s = spec_trim s"
  by (simp add: trim_def spec_trim_def spec_trimStart_dropWhile)

lemma toLowerChar_spec: "toLowerChar c = spec_lowercaseChar c"
proof (cases c)
  case (Char b0 b1 b2 b3 b4 b5 b6 b7)
  show ?thesis
    unfolding Char
    by (cases b0; cases b1; cases b2; cases b3; cases b4; cases b5; cases b6; cases b7;
        simp add: toLowerChar_def isUpperCase_def spec_lowercaseChar_def spec_capitals_def
          spec_smalls_def)
qed

lemma toLowerCase_spec: "toLowerCase s = spec_lowercase s"
  by (simp add: toLowerCase_def spec_lowercase_def toLowerChar_spec)

lemma memoryKey_spec_key: "memoryKey m = spec_key m"
  by (simp add: memoryKey_def spec_key_def trim_toLowerCase trim_spec[symmetric]
      toLowerCase_spec[symmetric])

lemma spec_place_insort:
  "insort_key (\<lambda>m. - relevance m) a (spec_place m ys)
     = spec_place m (insort_key (\<lambda>m. - relevance m) a ys)"
  by (induction ys) auto

lemma foldr_insort_spec_place:
  "foldr (insort_key (\<lambda>m. - relevance m)) xs (spec_place m ys)
     = spec_place m (foldr (insort_key (\<lambda>m. - relevance m)) xs ys)"
  by (induction xs) (simp_all add: spec_place_insort)

lemma sortByRelevanceDesc_snoc:
  "sortByRelevanceDesc (ms @ [m]) = spec_place m (sortByRelevanceDesc ms)"
  using foldr_insort_spec_place[of ms m "[]"]
  by (simp add: sortByRelevanceDesc_def sort_key_def)

lemma spec_sortDescending_sort: "spec_sortDescending ms = sortByRelevanceDesc ms"
proof (induction ms rule: rev_induct)
  case Nil
  show ?case by (simp add: spec_sortDescending_def sortByRelevanceDesc_def)
next
  case (snoc m ms)
  then show ?case by (simp add: spec_sortDescending_def sortByRelevanceDesc_snoc)
qed

lemma sortByRelevanceDesc_sorted:
  "sorted (map (\<lambda>m. - relevance m) (sortByRelevanceDesc ms))"
  by (simp add: sortByRelevanceDesc_def)

lemma descending_sorted: "descending ms \<longleftrightarrow> sorted (map (\<lambda>m. - relevance m) ms)"
  by (simp add: descending_def sorted_map)

lemma slice0_sorted: "sorted (map f xs) \<Longrightarrow> sorted (map f (slice0 xs e))"
  by (simp add: slice0_def Let_def take_map[symmetric] sorted_wrt_take)

lemma slice0_descending: "descending (slice0 (sortByRelevanceDesc ms) e)"
  unfolding descending_sorted by (intro slice0_sorted sortByRelevanceDesc_sorted)

lemma firstOccurrences_set: "set (firstOccurrences ks) = set ks"
  by (induction ks) auto

lemma firstOccurrences_distinct: "distinct (firstOccurrences ks)"
  by (induction ks) (auto simp: firstOccurrences_set)

lemma firstOccurrences_snoc:
  "firstOccurrences (ks @ [k]) =
     (if k \<in> set ks then firstOccurrences ks else firstOccurrences ks @ [k])"
proof (induction ks)
  case Nil
  show ?case by simp
next
  case (Cons a ks)
  have "filter (\<lambda>x. x \<noteq> a) (firstOccurrences ks) = firstOccurrences ks" if "a \<notin> set ks"
    using that by (auto simp: filter_id_conv firstOccurrences_set)
  then show ?case using Cons by auto
qed

lemma higherRelevanceFirstWins_snoc:
  "higherRelevanceFirstWins (ms @ [m]) =
     (case higherRelevanceFirstWins ms of
        None \<Rightarrow> Some m
      | Some b \<Rightarrow> if relevance m > relevance b then Some m else Some b)"
  by (induction ms) (auto split: option.splits)

lemma mapSet_keys_old: "k \<in> fst ` set kvs \<Longrightarrow> map fst (mapSet k v kvs) = map fst kvs"
  by (induction kvs) force+

lemma mapSet_keys_new: "k \<notin> fst ` set kvs \<Longrightarrow> map fst (mapSet k v kvs) = map fst kvs @ [k]"
  by (induction kvs) auto

lemma map_of_mapSet: "map_of (mapSet k v kvs) = (map_of kvs)(k \<mapsto> v)"
  by (induction kvs) auto

lemma sharingKey_snoc:
  "sharingKey (ms @ [m]) k =
     (if spec_key m = k then sharingKey ms k @ [m] else sharingKey ms k)"
  by (simp add: sharingKey_def)

lemma mergeInv_step:
  assumes "mergeInv ms acc"
  shows "mergeInv (ms @ [m]) (mergeStep acc m)"
proof -
  have keys: "map fst acc = firstOccurrences (map spec_key ms)"
    and vals: "\<And>k. map_of acc k = higherRelevanceFirstWins (sharingKey ms k)"
    using assms by (auto simp: mergeInv_def)
  have dom: "fst ` set acc = spec_key ` set ms"
    using keys by (metis firstOccurrences_set list.set_map)
  show ?thesis
    unfolding mergeInv_def
  proof (intro conjI allI)
    show "map fst (mergeStep acc m) = firstOccurrences (map spec_key (ms @ [m]))"
    proof (cases "map_of acc (spec_key m)")
      case None
      then have "spec_key m \<notin> fst ` set acc"
        by (simp add: map_of_eq_None_iff)
      then show ?thesis using None keys dom
        by (simp add: mergeStep_def Let_def memoryKey_spec_key mapSet_keys_new firstOccurrences_snoc)
    next
      case (Some e)
      then have "spec_key m \<in> fst ` set acc"
        by (metis map_of_eq_None_iff option.distinct(1))
      then show ?thesis using Some keys dom
        by (simp add: mergeStep_def Let_def memoryKey_spec_key mapSet_keys_old firstOccurrences_snoc)
    qed
  next
    fix k
    show "map_of (mergeStep acc m) k = higherRelevanceFirstWins (sharingKey (ms @ [m]) k)"
      using vals[of k] vals[of "spec_key m"]
      by (auto simp: mergeStep_def Let_def memoryKey_spec_key map_of_mapSet sharingKey_snoc
          higherRelevanceFirstWins_snoc split: option.splits)
  qed
qed

lemma mergeInv_foldl: "mergeInv ms (foldl mergeStep [] ms)"
proof (induction ms rule: rev_induct)
  case Nil
  show ?case by (simp add: mergeInv_def sharingKey_def)
next
  case (snoc m ms)
  then show ?case by (simp add: mergeInv_step)
qed

lemma map_filter_agree:
  "\<forall>x \<in> set xs. f x = g x \<Longrightarrow> List.map_filter f xs = List.map_filter g xs"
  by (induction xs) (simp_all add: map_filter_simps split: option.splits)

lemma map_snd_assoc:
  "distinct (map fst acc) \<Longrightarrow> map snd acc = List.map_filter (map_of acc) (map fst acc)"
proof (induction acc)
  case Nil
  show ?case by (simp add: map_filter_simps)
next
  case (Cons a acc)
  obtain k v where a: "a = (k, v)" by (cases a)
  have "List.map_filter (map_of ((k, v) # acc)) (map fst acc) =
        List.map_filter (map_of acc) (map fst acc)"
    using Cons.prems a by (intro map_filter_agree) auto
  moreover have "map snd acc = List.map_filter (map_of acc) (map fst acc)"
    using Cons by simp
  ultimately show ?case unfolding a by (simp add: map_filter_simps fun_upd_def)
qed

lemma foldl_mergeStep_spec: "map snd (foldl mergeStep [] ms) = spec_deduplicate ms"
proof -
  let ?acc = "foldl mergeStep [] ms"
  have inv: "mergeInv ms ?acc" by (rule mergeInv_foldl)
  then have d: "distinct (map fst ?acc)"
    by (simp add: mergeInv_def firstOccurrences_distinct)
  have "map_of ?acc = (\<lambda>k. higherRelevanceFirstWins (sharingKey ms k))"
    using inv by (auto simp: mergeInv_def)
  then show ?thesis
    using inv map_snd_assoc[OF d] by (simp add: spec_deduplicate_def mergeInv_def)
qed

lemma slice0_take: "0 \<le> e \<Longrightarrow> slice0 xs e = take (nat e) xs"
  by (auto simp: slice0_def Let_def min_def)

lemma higherRelevanceFirstWins_mem: "higherRelevanceFirstWins ms = Some w \<Longrightarrow> w \<in> set ms"
  by (induction ms arbitrary: w) (auto split: option.splits if_splits)

lemma spec_deduplicate_keys: "map spec_key (spec_deduplicate ms) = firstOccurrences (map spec_key ms)"
proof -
  let ?acc = "foldl mergeStep [] ms"
  have inv: "mergeInv ms ?acc" by (rule mergeInv_foldl)
  have "spec_key (snd kv) = fst kv" if "kv \<in> set ?acc" for kv
  proof -
    have d: "distinct (map fst ?acc)"
      using inv by (simp add: mergeInv_def firstOccurrences_distinct)
    have "map_of ?acc (fst kv) = Some (snd kv)"
      using that d by simp
    then have "higherRelevanceFirstWins (sharingKey ms (fst kv)) = Some (snd kv)"
      using inv by (simp add: mergeInv_def)
    then have "snd kv \<in> set (sharingKey ms (fst kv))" by (rule higherRelevanceFirstWins_mem)
    then show ?thesis by (simp add: sharingKey_def)
  qed
  then have "map spec_key (map snd ?acc) = map fst ?acc" by simp
  then show ?thesis
    using inv by (simp add: foldl_mergeStep_spec mergeInv_def)
qed

lemma distinct_keys_sorted:
  "distinct (map f xs) \<Longrightarrow> distinct (map f (slice0 (sortByRelevanceDesc xs) e))"
proof -
  assume d: "distinct (map f xs)"
  have "distinct (map f (sortByRelevanceDesc xs))"
    using d by (simp add: sortByRelevanceDesc_def distinct_map)
  then show ?thesis
    by (simp add: slice0_def Let_def take_map[symmetric])
qed

lemma mergeContexts_spec_merge:
  assumes "case Option.bind options topK of None \<Rightarrow> True | Some k \<Rightarrow> 0 \<le> k"
  shows "mergeContexts contexts options = spec_merge contexts (Option.bind options topK)"
proof -
  have k: "0 \<le> optionsTopK options"
    "nat (optionsTopK options) = nat (case Option.bind options topK of None \<Rightarrow> 50 | Some n \<Rightarrow> n)"
    using assms by (auto simp: optionsTopK_def split: option.splits)
  show ?thesis
    by (auto simp: mergeContexts_def spec_merge_def Let_def foldl_mergeStep_spec
        slice0_take[OF k(1)] k(2) spec_sortDescending_sort split: list.splits)
qed

lemma mergeContextsSimple_spec_merge: "mergeContextsSimple contexts = spec_merge contexts None"
  by (auto simp: mergeContextsSimple_def spec_merge_def Let_def foldl_mergeStep_spec
      slice0_take spec_sortDescending_sort split: list.splits)

lemma merged_descending:
  assumes "2 \<le> length contexts"
  shows "descending (memories (mergeContexts contexts options))"
    and "descending (memories (mergeContextsSimple contexts))"
    and "distinct (map spec_key (memories (mergeContexts contexts options)))"
    and "distinct (map spec_key (memories (mergeContextsSimple contexts)))"
proof -
  let ?deduplicated = "map snd (foldl mergeStep [] (concat (map memories contexts)))"
  obtain a b cs where c: "contexts = a # b # cs"
    using assms by (cases contexts; cases "tl contexts") auto
  have d: "distinct (map spec_key ?deduplicated)"
    by (simp only: foldl_mergeStep_spec spec_deduplicate_keys firstOccurrences_distinct)
  have m: "memories (mergeContexts contexts options)
             = slice0 (sortByRelevanceDesc ?deduplicated) (optionsTopK options)"
    unfolding c by (simp add: mergeContexts_def Let_def)
  have s: "memories (mergeContextsSimple contexts)
             = slice0 (sortByRelevanceDesc ?deduplicated) 50"
    unfolding c by (simp add: mergeContextsSimple_def Let_def)
  show "descending (memories (mergeContexts contexts options))"
    unfolding m by (rule slice0_descending)
  show "descending (memories (mergeContextsSimple contexts))"
    unfolding s by (rule slice0_descending)
  show "distinct (map spec_key (memories (mergeContexts contexts options)))"
    unfolding m by (rule distinct_keys_sorted[OF d])
  show "distinct (map spec_key (memories (mergeContextsSimple contexts)))"
    unfolding s by (rule distinct_keys_sorted[OF d])
qed

lemma mergeContexts_negative:
  assumes "2 \<le> length contexts" and "Option.bind options topK = Some k" and "k < 0"
  shows "memories (mergeContexts contexts options)
           = take (length (spec_deduplicate (concat (map memories contexts))) - nat (- k))
               (spec_sortDescending (spec_deduplicate (concat (map memories contexts))))"
proof -
  let ?deduplicated = "spec_deduplicate (concat (map memories contexts))"
  obtain a b cs where c: "contexts = a # b # cs"
    using assms(1) by (cases contexts; cases "tl contexts") auto
  have o: "optionsTopK options = k"
    using assms(2) by (auto simp: optionsTopK_def split: option.splits Option.bind_splits)
  have m: "memories (mergeContexts contexts options)
             = slice0 (sortByRelevanceDesc ?deduplicated) k"
    unfolding c by (simp add: mergeContexts_def Let_def foldl_mergeStep_spec o[unfolded c])
  have l: "length (sortByRelevanceDesc ?deduplicated) = length ?deduplicated"
    by (simp add: sortByRelevanceDesc_def)
  have "nat (max (int (length ?deduplicated) + k) 0) = length ?deduplicated - nat (- k)"
    using assms(3) by linarith
  then show ?thesis
    unfolding m using assms(3) by (simp add: slice0_def Let_def l spec_sortDescending_sort)
qed

text \<open>
  C1. The merge of the registry manager returns, for every list of contexts and every
  optional \<open>topK\<close> that is a count (not negative), what the specification describes:
  the empty context for no input, the single input unchanged, and otherwise the
  flattened memories, deduplicated by the normalized text with the higher relevance
  winning and the first encountered winning a tie, sorted by descending relevance and
  cut to \<open>topK\<close>, or to 50 when no \<open>topK\<close> is supplied. The merge of \<open>index.ts\<close>
  takes no \<open>topK\<close>: whatever the caller asked for, it returns what the specification
  describes for no \<open>topK\<close>, cut to 50. For two contexts or more, the result of either
  merge is in descending order of relevance and holds no two memories with the same key,
  and a negative \<open>topK\<close> makes the registry manager drop that many memories from the
  end of the sorted list.
\<close>

theorem mergeContexts_refines_spec:
  "((case Option.bind options topK of None \<Rightarrow> True | Some k \<Rightarrow> 0 \<le> k)
      \<longrightarrow> mergeContexts contexts options = spec_merge contexts (Option.bind options topK))
   \<and> mergeContextsSimple contexts = spec_merge contexts None
   \<and> (2 \<le> length contexts
      \<longrightarrow> descending (memories (mergeContexts contexts options))
        \<and> distinct (map spec_key (memories (mergeContexts contexts options)))
        \<and> descending (memories (mergeContextsSimple contexts))
        \<and> distinct (map spec_key (memories (mergeContextsSimple contexts))))
   \<and> (2 \<le> length contexts \<and> Option.bind options topK = Some k \<and> k < 0
      \<longrightarrow> memories (mergeContexts contexts options)
          = take (length (spec_deduplicate (concat (map memories contexts))) - nat (- k))
              (spec_sortDescending (spec_deduplicate (concat (map memories contexts)))))"
  by (simp add: mergeContexts_spec_merge mergeContextsSimple_spec_merge[symmetric]
      merged_descending mergeContexts_negative)

lemma exampleContexts_merged:
  "spec_merge exampleContexts None
     = \<lparr>memories = [exampleMemory '' reads PAPERS '' (9/10), exampleMemory ''Writes Rust'' (7/10)]\<rparr>"
  "spec_merge exampleContexts (Some 1)
     = \<lparr>memories = [exampleMemory '' reads PAPERS '' (9/10)]\<rparr>"
  "spec_sortDescending (spec_deduplicate (concat (map memories exampleContexts)))
     = [exampleMemory '' reads PAPERS '' (9/10), exampleMemory ''Writes Rust'' (7/10)]"
  by (simp_all add: spec_merge_def exampleContexts_def spec_deduplicate_def sharingKey_def
      spec_key_def spec_trim_def spec_whitespace_def spec_lowercase_def spec_lowercaseChar_def
      spec_capitals_def spec_smalls_def spec_sortDescending_def exampleMemory_def)

subsection \<open>Registry\<close>

lemma objectFromEntries_rev: "objectFromEntries entries = map_of (rev entries)"
proof -
  have "foldl (\<lambda>obj kv. obj(fst kv \<mapsto> snd kv)) m entries = m ++ map_of (rev entries)" for m
    by (induction entries arbitrary: m) (auto simp: map_add_upd_left)
  then show ?thesis by (simp add: objectFromEntries_def)
qed

lemma objectFromEntries_zip:
  assumes "distinct ks" "length ks = length vs" "j < length ks"
  shows "objectFromEntries (zip ks vs) (ks ! j) = Some (vs ! j)"
proof -
  have d: "distinct (map fst (rev (zip ks vs)))"
    using assms by (simp add: rev_map[symmetric])
  have "(ks ! j, vs ! j) \<in> set (rev (zip ks vs))"
    using assms by (auto simp: set_zip)
  then show ?thesis using d by (simp add: objectFromEntries_rev)
qed

lemma promiseAll_Inr: "promiseAll (map Inr xs) = Inr xs"
  by (induction xs) auto

lemma promiseAll_Inl: "Inl e \<in> set rs \<Longrightarrow> \<exists>e'. promiseAll rs = Inl e'"
proof (induction rs)
  case Nil
  then show ?case by simp
next
  case (Cons r rs)
  then show ?case by (cases r) (auto split: sum.splits)
qed

lemma registryOk_ids:
  assumes "registryOk providers"
  shows "distinct (map providerId (filter P (map snd providers)))"
proof -
  have "map providerId (map snd providers) = map fst providers"
    using assms by (induction providers) (auto simp: registryOk_def)
  moreover have "distinct (map fst providers)"
    using assms by (simp add: registryOk_def)
  ultimately have "distinct (map providerId (map snd providers))"
    by (simp only:)
  then show ?thesis by (simp add: distinct_map_filter)
qed

lemma mapSet_distinct: "distinct (map fst kvs) \<Longrightarrow> distinct (map fst (mapSet k v kvs))"
  by (cases "k \<in> fst ` set kvs") (simp_all add: mapSet_keys_old mapSet_keys_new)

lemma mapSet_set: "set (mapSet k v kvs) \<subseteq> insert (k, v) (set kvs)"
  by (induction kvs) (auto split: if_splits)

lemma registryOk_registerProvider: "registryOk providers \<Longrightarrow> registryOk (registerProvider p providers)"
  unfolding registryOk_def registerProvider_def list_all_iff
  using mapSet_set[of "providerId p" p providers] by (auto simp: mapSet_distinct)

lemma registryOk_unregisterProvider:
  "registryOk providers \<Longrightarrow> registryOk (snd (unregisterProvider pid providers))"
  by (auto simp: registryOk_def unregisterProvider_def mapDelete_def list_all_iff
      distinct_map_filter Let_def)

lemma aggregateWith_outcome:
  assumes ok: "registryOk providers"
    and res: "map (\<lambda>p. getContext_m p options) (queriedProviders providers) = map Inr results"
  shows "\<exists>r. aggregateWith merge now providers options = Inr r
            \<and> aggregationOutcome merge providers results r"
proof -
  let ?ps = "queriedProviders providers"
  have len: "length ?ps = length results"
    using res by (metis length_map)
  have d: "distinct (map providerId ?ps)"
    using ok by (simp add: queriedProviders_def registryOk_ids)
  have rep: "list_all (\<lambda>j. objectFromEntries (zip (map providerId ?ps) results)
                             (providerId (?ps ! j)) = Some (results ! j)) [0 ..< length ?ps]"
    unfolding list_all_iff
  proof
    fix j assume "j \<in> set [0 ..< length ?ps]"
    then have j: "j < length (map providerId ?ps)" by simp
    have l: "length (map providerId ?ps) = length results" using len by simp
    show "objectFromEntries (zip (map providerId ?ps) results) (providerId (?ps ! j))
            = Some (results ! j)"
      using objectFromEntries_zip[OF d l j] j by simp
  qed
  show ?thesis
    using res rep
    by (auto simp: aggregateWith_def Let_def promiseAll_Inr queriedProviders_def
        successfulWithData_def reportsEvery_def errorCodeOf_def aggregationOutcome_def)
qed

lemma aggregateWith_rejects:
  assumes "p \<in> set (queriedProviders providers)" and "getContext_m p options = Inl e"
  shows "\<exists>e'. aggregateWith merge now providers options = Inl e'"
proof -
  let ?ps = "queriedProviders providers"
  have "Inl e \<in> set (map (\<lambda>p. getContext_m p options) ?ps)"
    using assms by force
  then obtain e' where "promiseAll (map (\<lambda>p. getContext_m p options) ?ps) = Inl e'"
    using promiseAll_Inl by blast
  moreover have "?ps \<noteq> []" using assms(1) by auto
  ultimately show ?thesis
    by (simp add: aggregateWith_def Let_def queriedProviders_def)
qed

text \<open>
  C3. In a registry that holds each provider under its own id, when every provider with
  permission (asked without a domain) answers, \<open>getAggregatedContext\<close> returns a
  result: a failure with code \<open>PERMISSION_DENIED\<close> when no provider has permission (so
  also when none is registered); otherwise, keeping the answers with \<open>success\<close> and
  data, a failure with code \<open>NO_DATA\<close> when none is kept, and else a success whose
  data is the merge of the kept contexts as the specification describes it (in the
  registry manager with the caller's \<open>topK\<close>, a count, in \<open>index.ts\<close> without); in
  both of the latter cases \<open>providerResults\<close> holds the raw answer of every queried
  provider. When the \<open>getContext\<close> of a queried provider rejects,
  \<open>getAggregatedContext\<close> rejects, in both registries: none of these results is
  returned.
\<close>

theorem getAggregatedContext_outcomes:
  assumes "registryOk providers"
  shows "(map (\<lambda>p. getContext_m p options) (queriedProviders providers) = map Inr results
            \<and> (case Option.bind options topK of None \<Rightarrow> True | Some k \<Rightarrow> 0 \<le> k)
          \<longrightarrow> (\<exists>r. getAggregatedContext now providers options = Inr r
                 \<and> aggregationOutcome (\<lambda>contexts. spec_merge contexts (Option.bind options topK))
                      providers results r))
       \<and> (map (\<lambda>p. getContext_m p options) (queriedProviders providers) = map Inr results
          \<longrightarrow> (\<exists>r. getAggregatedContextSimple now providers options = Inr r
                 \<and> aggregationOutcome (\<lambda>contexts. spec_merge contexts None) providers results r))
       \<and> (p \<in> set (queriedProviders providers) \<and> getContext_m p options = Inl e
          \<longrightarrow> (\<exists>e'. getAggregatedContext now providers options = Inl e')
            \<and> (\<exists>e'. getAggregatedContextSimple now providers options = Inl e'))"
proof (intro conjI impI)
  assume a: "map (\<lambda>p. getContext_m p options) (queriedProviders providers) = map Inr results
            \<and> (case Option.bind options topK of None \<Rightarrow> True | Some k \<Rightarrow> 0 \<le> k)"
  then have m: "(\<lambda>contexts. mergeContexts contexts options)
                  = (\<lambda>contexts. spec_merge contexts (Option.bind options topK))"
    by (intro ext mergeContexts_spec_merge) simp
  show "\<exists>r. getAggregatedContext now providers options = Inr r
          \<and> aggregationOutcome (\<lambda>contexts. spec_merge contexts (Option.bind options topK))
               providers results r"
    using aggregateWith_outcome[OF assms, of options results "\<lambda>contexts. mergeContexts contexts options" now] a
    unfolding m by (simp add: getAggregatedContext_def m)
next
  assume a: "map (\<lambda>p. getContext_m p options) (queriedProviders providers) = map Inr results"
  have m: "mergeContextsSimple = (\<lambda>contexts. spec_merge contexts None)"
    by (intro ext mergeContextsSimple_spec_merge)
  show "\<exists>r. getAggregatedContextSimple now providers options = Inr r
          \<and> aggregationOutcome (\<lambda>contexts. spec_merge contexts None) providers results r"
    using aggregateWith_outcome[OF assms a, of mergeContextsSimple now]
    unfolding m by (simp add: getAggregatedContextSimple_def m)
next
  assume a: "p \<in> set (queriedProviders providers) \<and> getContext_m p options = Inl e"
  show "\<exists>e'. getAggregatedContext now providers options = Inl e'"
    unfolding getAggregatedContext_def using a by (intro aggregateWith_rejects[of p _ _ e]) simp_all
  show "\<exists>e'. getAggregatedContextSimple now providers options = Inl e'"
    unfolding getAggregatedContextSimple_def using a by (intro aggregateWith_rejects[of p _ _ e]) simp_all
qed

lemma exampleRegistry_eval:
  "exampleRegistry =
     [(''p2'', exampleProvider ''p2'' False exampleAnswer2),
      (''p1'', exampleProvider ''p1'' True exampleAnswer1),
      (''p3'', exampleProvider ''p3'' True exampleAnswer3)]"
  by (simp add: exampleRegistry_def registerProvider_def exampleProvider_def)

lemma rejectingRegistry_eval:
  "rejectingRegistry =
     [(''p2'', exampleProvider ''p2'' False exampleAnswer2),
      (''p1'', exampleProvider ''p1'' True exampleAnswer1),
      (''p3'', exampleProvider ''p3'' True exampleAnswer3),
      (''custom'', rejectingProvider)]"
  by (simp add: rejectingRegistry_def exampleRegistry_eval registerProvider_def
      exampleProvider_def rejectingProvider_def)

lemma exampleRegistry_ok: "registryOk exampleRegistry" "registryOk rejectingRegistry"
  by (simp_all add: exampleRegistry_eval rejectingRegistry_eval registryOk_def
      exampleProvider_def rejectingProvider_def)

lemma exampleRegistry_queried:
  "queriedProviders exampleRegistry =
     [exampleProvider ''p1'' True exampleAnswer1, exampleProvider ''p3'' True exampleAnswer3]"
  "queriedProviders rejectingRegistry =
     [exampleProvider ''p1'' True exampleAnswer1, exampleProvider ''p3'' True exampleAnswer3,
      rejectingProvider]"
  by (simp_all add: exampleRegistry_eval rejectingRegistry_eval queriedProviders_def
      exampleProvider_def rejectingProvider_def)

lemma exampleRegistry_answers:
  "map (\<lambda>p. getContext_m p options) (queriedProviders exampleRegistry)
     = map Inr [exampleAnswer1, exampleAnswer3]"
  by (simp add: exampleRegistry_queried exampleProvider_def)

lemma exampleAnswers_successful:
  "successfulWithData [exampleAnswer1, exampleAnswer3] = [exampleAnswer1, exampleAnswer3]"
  "List.map_filter pr_data [exampleAnswer1, exampleAnswer3] = exampleContexts"
  by (simp_all add: successfulWithData_def exampleAnswer1_def exampleAnswer3_def
      exampleContexts_def map_filter_simps)

lemma exampleRegistry_reports:
  assumes "reportsEvery r (queriedProviders exampleRegistry) [exampleAnswer1, exampleAnswer3]"
  shows "providerResults r ''p1'' = Some exampleAnswer1"
    and "providerResults r ''p3'' = Some exampleAnswer3"
  using assms by (simp_all add: reportsEvery_def exampleRegistry_queried exampleProvider_def upt_rec)

text \<open>
  Two providers answer with three memories, two of which share a key. With \<open>topK = 1\<close>
  the registry manager returns the one memory the specification describes; the merge of
  \<open>index.ts\<close>, and with it the \<open>getAggregatedContext\<close> of \<open>index.ts\<close>, returns two.
\<close>

theorem mergeContexts_refines_spec_witness:
  "(case Option.bind (Some topOne) topK of None \<Rightarrow> True | Some k \<Rightarrow> 0 \<le> k)
   \<and> 2 \<le> length exampleContexts
   \<and> mergeContexts exampleContexts (Some topOne)
       = \<lparr>memories = [exampleMemory '' reads PAPERS '' (9/10)]\<rparr>
   \<and> mergeContextsSimple exampleContexts
       = \<lparr>memories = [exampleMemory '' reads PAPERS '' (9/10),
                       exampleMemory ''Writes Rust'' (7/10)]\<rparr>
   \<and> descending (memories (mergeContextsSimple exampleContexts))
   \<and> distinct (map spec_key (memories (mergeContextsSimple exampleContexts)))
   \<and> Option.bind (Some minusOne) topK = Some (- 1)
   \<and> memories (mergeContexts exampleContexts (Some minusOne))
       = [exampleMemory '' reads PAPERS '' (9/10)]
   \<and> (\<exists>r. getAggregatedContext 5000 exampleRegistry (Some topOne) = Inr r
         \<and> agg_data r = Some \<lparr>memories = [exampleMemory '' reads PAPERS '' (9/10)]\<rparr>)
   \<and> (\<exists>r. getAggregatedContextSimple 5000 exampleRegistry (Some topOne) = Inr r
         \<and> agg_data r = Some \<lparr>memories = [exampleMemory '' reads PAPERS '' (9/10),
                                            exampleMemory ''Writes Rust'' (7/10)]\<rparr>)"
proof -
  note T = mergeContexts_refines_spec[of "Some topOne" exampleContexts]
  have k: "topK topOne = Some 1" by (simp add: topOne_def)
  have h: "case Option.bind (Some topOne) topK of None \<Rightarrow> True | Some k \<Rightarrow> 0 \<le> k"
    by (simp add: k)
  have l: "2 \<le> length exampleContexts" by (simp add: exampleContexts_def)
  have m: "mergeContexts exampleContexts (Some topOne)
             = \<lparr>memories = [exampleMemory '' reads PAPERS '' (9/10)]\<rparr>"
    using T h by (simp add: k exampleContexts_merged)
  have s: "mergeContextsSimple exampleContexts
             = \<lparr>memories = [exampleMemory '' reads PAPERS '' (9/10),
                             exampleMemory ''Writes Rust'' (7/10)]\<rparr>"
    using T by (simp add: exampleContexts_merged)
  have d: "descending (memories (mergeContextsSimple exampleContexts))"
    "distinct (map spec_key (memories (mergeContextsSimple exampleContexts)))"
    using T l by blast+
  have n: "Option.bind (Some minusOne) topK = Some (- 1)" by (simp add: minusOne_def)
  have sd: "spec_sortDescending (spec_deduplicate (concat (map memories exampleContexts)))
              = [exampleMemory '' reads PAPERS '' (9/10), exampleMemory ''Writes Rust'' (7/10)]"
    by (rule exampleContexts_merged(3))
  have ld: "length (spec_deduplicate (concat (map memories exampleContexts))) = 2"
    using arg_cong[OF sd, of length]
    by (simp add: spec_sortDescending_sort sortByRelevanceDesc_def)
  have neg: "memories (mergeContexts exampleContexts (Some minusOne))
               = [exampleMemory '' reads PAPERS '' (9/10)]"
    using mergeContexts_refines_spec[of "Some minusOne" exampleContexts "- 1"] l n
    by (simp add: sd ld)
  obtain r where r: "getAggregatedContext 5000 exampleRegistry (Some topOne) = Inr r"
    and "aggregationOutcome (\<lambda>contexts. mergeContexts contexts (Some topOne)) exampleRegistry
           [exampleAnswer1, exampleAnswer3] r"
    using aggregateWith_outcome[OF exampleRegistry_ok(1) exampleRegistry_answers]
    unfolding getAggregatedContext_def by blast
  then have rd: "agg_data r = Some \<lparr>memories = [exampleMemory '' reads PAPERS '' (9/10)]\<rparr>"
    by (simp add: aggregationOutcome_def exampleRegistry_queried exampleAnswers_successful m
        del: map_filter_simps)
  obtain r' where r': "getAggregatedContextSimple 5000 exampleRegistry (Some topOne) = Inr r'"
    and "aggregationOutcome mergeContextsSimple exampleRegistry [exampleAnswer1, exampleAnswer3] r'"
    using aggregateWith_outcome[OF exampleRegistry_ok(1) exampleRegistry_answers]
    unfolding getAggregatedContextSimple_def by blast
  then have rd': "agg_data r' = Some \<lparr>memories = [exampleMemory '' reads PAPERS '' (9/10),
                                                    exampleMemory ''Writes Rust'' (7/10)]\<rparr>"
    by (simp add: aggregationOutcome_def exampleRegistry_queried exampleAnswers_successful s
        del: map_filter_simps)
  show ?thesis using h l m s d n neg r rd r' rd' by blast
qed

text \<open>
  The three outcomes on example registries, and the rejection once a provider whose
  \<open>getContext\<close> rejects is registered next to the two that answer.
\<close>

theorem getAggregatedContext_outcomes_witness:
  "registryOk exampleRegistry
   \<and> map (\<lambda>p. getContext_m p (Some topOne)) (queriedProviders exampleRegistry)
       = map Inr [exampleAnswer1, exampleAnswer3]
   \<and> (case Option.bind (Some topOne) topK of None \<Rightarrow> True | Some k \<Rightarrow> 0 \<le> k)
   \<and> (\<exists>r. getAggregatedContext 5000 exampleRegistry (Some topOne) = Inr r
         \<and> agg_success r \<and> agg_error r = None
         \<and> agg_data r = Some \<lparr>memories = [exampleMemory '' reads PAPERS '' (9/10)]\<rparr>
         \<and> providerResults r ''p1'' = Some exampleAnswer1
         \<and> providerResults r ''p3'' = Some exampleAnswer3)
   \<and> (\<exists>r. getAggregatedContextSimple 5000 exampleRegistry (Some topOne) = Inr r
         \<and> agg_success r \<and> agg_error r = None
         \<and> agg_data r = Some \<lparr>memories = [exampleMemory '' reads PAPERS '' (9/10),
                                            exampleMemory ''Writes Rust'' (7/10)]\<rparr>
         \<and> providerResults r ''p1'' = Some exampleAnswer1
         \<and> providerResults r ''p3'' = Some exampleAnswer3)
   \<and> registryOk [(''p2'', exampleProvider ''p2'' False exampleAnswer2)]
   \<and> (\<exists>r. getAggregatedContext 5000 [(''p2'', exampleProvider ''p2'' False exampleAnswer2)]
              (Some topOne) = Inr r
         \<and> \<not> agg_success r \<and> errorCodeOf (agg_error r) = Some PERMISSION_DENIED)
   \<and> registryOk [(''p2'', exampleProvider ''p2'' True exampleAnswer2)]
   \<and> (\<exists>r. getAggregatedContextSimple 5000 [(''p2'', exampleProvider ''p2'' True exampleAnswer2)]
              (Some topOne) = Inr r
         \<and> \<not> agg_success r \<and> errorCodeOf (agg_error r) = Some NO_DATA
         \<and> providerResults r ''p2'' = Some exampleAnswer2)
   \<and> registryOk rejectingRegistry
   \<and> rejectingProvider \<in> set (queriedProviders rejectingRegistry)
   \<and> getContext_m rejectingProvider (Some topOne) = Inl (ThrownError ''backend down'')
   \<and> (\<exists>e. getAggregatedContext 5000 rejectingRegistry (Some topOne) = Inl e)
   \<and> (\<exists>e. getAggregatedContextSimple 5000 rejectingRegistry (Some topOne) = Inl e)"
proof -
  let ?o = "Some topOne"
  have k: "topK topOne = Some 1" by (simp add: topOne_def)
  have h: "case Option.bind ?o topK of None \<Rightarrow> True | Some k \<Rightarrow> 0 \<le> k" by (simp add: k)
  note E = getAggregatedContext_outcomes
    [OF exampleRegistry_ok(1), of ?o "[exampleAnswer1, exampleAnswer3]" 5000]
  obtain r where r: "getAggregatedContext 5000 exampleRegistry ?o = Inr r"
    and o: "aggregationOutcome (\<lambda>contexts. spec_merge contexts (Option.bind ?o topK))
              exampleRegistry [exampleAnswer1, exampleAnswer3] r"
    using E exampleRegistry_answers h by blast
  have r1: "agg_success r \<and> agg_error r = None
         \<and> agg_data r = Some \<lparr>memories = [exampleMemory '' reads PAPERS '' (9/10)]\<rparr>
         \<and> providerResults r ''p1'' = Some exampleAnswer1
         \<and> providerResults r ''p3'' = Some exampleAnswer3"
    using o exampleRegistry_reports[of r]
    by (simp add: aggregationOutcome_def exampleRegistry_queried exampleAnswers_successful k
        exampleContexts_merged del: map_filter_simps)
  obtain r' where r': "getAggregatedContextSimple 5000 exampleRegistry ?o = Inr r'"
    and o': "aggregationOutcome (\<lambda>contexts. spec_merge contexts None)
              exampleRegistry [exampleAnswer1, exampleAnswer3] r'"
    using E exampleRegistry_answers by blast
  have r2: "agg_success r' \<and> agg_error r' = None
         \<and> agg_data r' = Some \<lparr>memories = [exampleMemory '' reads PAPERS '' (9/10),
                                            exampleMemory ''Writes Rust'' (7/10)]\<rparr>
         \<and> providerResults r' ''p1'' = Some exampleAnswer1
         \<and> providerResults r' ''p3'' = Some exampleAnswer3"
    using o' exampleRegistry_reports[of r']
    by (simp add: aggregationOutcome_def exampleRegistry_queried exampleAnswers_successful
        exampleContexts_merged del: map_filter_simps)
  let ?denied = "[(''p2'', exampleProvider ''p2'' False exampleAnswer2)]"
  have okd: "registryOk ?denied" by (simp add: registryOk_def exampleProvider_def)
  have qd: "queriedProviders ?denied = []" by (simp add: queriedProviders_def exampleProvider_def)
  obtain rd where rd: "getAggregatedContext 5000 ?denied ?o = Inr rd"
    and od: "aggregationOutcome (\<lambda>contexts. spec_merge contexts (Option.bind ?o topK))
              ?denied [] rd"
    using getAggregatedContext_outcomes[OF okd, of ?o "[]" 5000] h qd by auto
  have r3: "\<not> agg_success rd \<and> errorCodeOf (agg_error rd) = Some PERMISSION_DENIED"
    using od by (simp add: aggregationOutcome_def qd)
  let ?nodata = "[(''p2'', exampleProvider ''p2'' True exampleAnswer2)]"
  have okn: "registryOk ?nodata" by (simp add: registryOk_def exampleProvider_def)
  have qn: "queriedProviders ?nodata = [exampleProvider ''p2'' True exampleAnswer2]"
    by (simp add: queriedProviders_def exampleProvider_def)
  have an: "map (\<lambda>p. getContext_m p ?o) (queriedProviders ?nodata) = map Inr [exampleAnswer2]"
    unfolding qn by (simp add: exampleProvider_def)
  obtain rn where rn: "getAggregatedContextSimple 5000 ?nodata ?o = Inr rn"
    and on: "aggregationOutcome (\<lambda>contexts. spec_merge contexts None) ?nodata [exampleAnswer2] rn"
    using getAggregatedContext_outcomes[OF okn, of ?o "[exampleAnswer2]" 5000] an by blast
  have sn: "successfulWithData [exampleAnswer2] = []"
    by (simp add: successfulWithData_def exampleAnswer2_def)
  have r4: "\<not> agg_success rn \<and> errorCodeOf (agg_error rn) = Some NO_DATA
         \<and> providerResults rn ''p2'' = Some exampleAnswer2"
    using on unfolding aggregationOutcome_def qn sn
    by (simp add: reportsEvery_def exampleProvider_def)
  have mem: "rejectingProvider \<in> set (queriedProviders rejectingRegistry)"
    by (simp add: exampleRegistry_queried)
  have rej: "getContext_m rejectingProvider ?o = Inl (ThrownError ''backend down'')"
    by (simp add: rejectingProvider_def)
  have r5: "(\<exists>e. getAggregatedContext 5000 rejectingRegistry ?o = Inl e)
          \<and> (\<exists>e. getAggregatedContextSimple 5000 rejectingRegistry ?o = Inl e)"
    using getAggregatedContext_outcomes
      [OF exampleRegistry_ok(2), of ?o "[]" 5000 rejectingProvider "ThrownError ''backend down''"]
      mem rej by blast
  show ?thesis
    using exampleRegistry_ok exampleRegistry_answers[of ?o] h r r1 r' r2 okd rd r3 okn rn r4
      mem rej r5
    by blast
qed

text \<open>
  C4. The registry's \<open>getContext\<close> answers \<open>NOT_AVAILABLE\<close> when no provider is
  registered; without a provider id it routes to the first entry of the provider map,
  whatever that provider's permission state and whatever providers follow it; with a
  provider id it routes to the provider registered under that id, and answers
  \<open>NOT_AVAILABLE\<close> when there is none.
\<close>

theorem registry_getContext_routing:
  "(\<exists>r. registry_getContext now [] options pid = Inr r \<and> \<not> cr_success r
        \<and> errorCodeOf (cr_error r) = Some NOT_AVAILABLE)
   \<and> (pid = None \<or> pid = Some [] \<longrightarrow>
        registry_getContext now ((k, p) # rest) options pid = routedTo now p options)
   \<and> (i \<noteq> [] \<and> map_of providers i = Some q \<longrightarrow>
        registry_getContext now providers options (Some i) = routedTo now q options)
   \<and> (i \<noteq> [] \<and> map_of providers i = None \<longrightarrow>
        (\<exists>r. registry_getContext now providers options (Some i) = Inr r \<and> \<not> cr_success r
           \<and> errorCodeOf (cr_error r) = Some NOT_AVAILABLE))"
proof -
  have none: "selectProvider providers' pid' = None \<Longrightarrow>
      \<exists>r. registry_getContext now providers' options pid' = Inr r \<and> \<not> cr_success r
        \<and> errorCodeOf (cr_error r) = Some NOT_AVAILABLE" for providers' pid'
    by (simp add: registry_getContext_def errorCodeOf_def)
  have some: "selectProvider providers' pid' = Some p' \<Longrightarrow>
      registry_getContext now providers' options pid' = routedTo now p' options" for providers' pid' p'
    by (simp add: registry_getContext_def routedTo_def)
  show ?thesis
    by (auto intro!: none some simp: selectProvider_def firstProvider_def split: option.splits)
qed

theorem registry_getContext_routing_witness:
  "isPermissionGranted_m (exampleProvider ''p2'' False exampleAnswer2) None = False
   \<and> isPermissionGranted_m (exampleProvider ''p1'' True exampleAnswer1) None = True
   \<and> registry_getContext 5000 exampleRegistry None None
       = routedTo 5000 (exampleProvider ''p2'' False exampleAnswer2) None
   \<and> (\<exists>r. registry_getContext 5000 exampleRegistry None None = Inr r
          \<and> \<not> cr_success r \<and> cr_data r = None)
   \<and> ''p1'' \<noteq> [] \<and> map_of exampleRegistry ''p1'' = Some (exampleProvider ''p1'' True exampleAnswer1)
   \<and> registry_getContext 5000 exampleRegistry None (Some ''p1'')
       = routedTo 5000 (exampleProvider ''p1'' True exampleAnswer1) None
   \<and> ''p9'' \<noteq> [] \<and> map_of exampleRegistry ''p9'' = None
   \<and> (\<exists>r. registry_getContext 5000 exampleRegistry None (Some ''p9'') = Inr r \<and> \<not> cr_success r
          \<and> errorCodeOf (cr_error r) = Some NOT_AVAILABLE)"
  using registry_getContext_routing
      [of 5000 None None "''p2''" "exampleProvider ''p2'' False exampleAnswer2"
          "[(''p1'', exampleProvider ''p1'' True exampleAnswer1),
            (''p3'', exampleProvider ''p3'' True exampleAnswer3)]"
          "''p1''" exampleRegistry "exampleProvider ''p1'' True exampleAnswer1"]
    registry_getContext_routing
      [of 5000 None None "''p2''" "exampleProvider ''p2'' False exampleAnswer2" "[]"
          "''p9''" exampleRegistry "exampleProvider ''p1'' True exampleAnswer1"]
  by (simp add: exampleRegistry_eval [symmetric])
     (simp add: exampleRegistry_eval exampleProvider_def routedTo_def exampleAnswer2_def
        convertToContextResult_def)

text \<open>
  C10. Without a provider id, the registry's \<open>isPermissionGranted\<close> is true exactly when
  some registered provider reports permission for the domain, hence false for the empty
  registry; with a provider id it is the answer of the provider registered under that
  id, and false when there is none.
\<close>

theorem registry_isPermissionGranted_any_or_exact:
  "registry_isPermissionGranted providers None domain
     = (\<exists>p \<in> set (map snd providers). isPermissionGranted_m p domain)
   \<and> registry_isPermissionGranted [] None domain = False
   \<and> (i \<noteq> [] \<longrightarrow> registry_isPermissionGranted providers (Some i) domain
        = (case map_of providers i of None \<Rightarrow> False | Some p \<Rightarrow> isPermissionGranted_m p domain))"
  by (auto simp: registry_isPermissionGranted_def list_ex_iff split: option.splits)

theorem registry_isPermissionGranted_any_or_exact_witness:
  "registry_isPermissionGranted exampleRegistry None (Some ''example.org'') = True
   \<and> ''p2'' \<noteq> []
   \<and> registry_isPermissionGranted exampleRegistry (Some ''p2'') (Some ''example.org'') = False
   \<and> registry_isPermissionGranted exampleRegistry (Some ''p1'') (Some ''example.org'') = True
   \<and> registry_isPermissionGranted exampleRegistry (Some ''p9'') (Some ''example.org'') = False"
  using registry_isPermissionGranted_any_or_exact
      [of exampleRegistry "Some ''example.org''" "''p2''"]
    registry_isPermissionGranted_any_or_exact
      [of exampleRegistry "Some ''example.org''" "''p1''"]
    registry_isPermissionGranted_any_or_exact
      [of exampleRegistry "Some ''example.org''" "''p9''"]
  by (simp add: exampleRegistry_eval exampleProvider_def)

subsection \<open>Permission store\<close>

lemma isPermissionGranted_spec:
  "isPermissionGranted env st domain capability = Inr True
     \<longleftrightarrow> spec_granted (getStoredPermissions env st (resolveDomain env domain)) capability"
  by (auto simp: isPermissionGranted_def spec_granted_def Let_def split: option.splits)

lemma isPermissionGranted_no_capability:
  "isPermissionGranted env st domain None
     = Inr (spec_granted (getStoredPermissions env st (resolveDomain env domain)) None)"
  by (auto simp: isPermissionGranted_def spec_granted_def Let_def split: option.splits)

lemma resolveDomain_idem: "resolveDomain env (Some (resolveDomain env d)) = resolveDomain env d"
  by (auto simp: resolveDomain_def hostnameOrLocalhost_def split: option.splits)

lemma pm_revoke_denied:
  "\<not> hasChromeStorage env \<Longrightarrow> pm_isPermissionGranted env (pm_revokePermission env now mst d) d = False"
  by (auto simp: pm_isPermissionGranted_def pm_revokePermission_def pm_getStoredPermissions_def
      pm_storePermissions_def Let_def split: option.splits)

text \<open>
  C2 (amended). \<open>isPermissionGranted\<close> returns true exactly when the stored record of
  the resolved domain has \<open>granted\<close> true and no revocation time stamp and, when a
  capability is asked for, the record's capability map holds that flag. Without a record
  it returns false, for every capability and for none. A record with a revocation time
  stamp is denied whatever its \<open>granted\<close> flag, and after the manager's
  \<open>revokePermission(domain)\<close>, which sets \<open>granted\<close> to false and \<open>revokedAt\<close>, the
  manager's \<open>isPermissionGranted(domain)\<close> is false when the manager writes to the store
  it reads (no \<open>chrome.storage.local\<close>). A record with a capability map always yields a
  boolean. A record without a capability map, which the store's type excludes, is not
  read as all-false: once it is granted and not revoked, asking for a capability throws.
\<close>

theorem isPermissionGranted_fail_closed:
  "(isPermissionGranted env st domain capability = Inr True
      \<longleftrightarrow> spec_granted (getStoredPermissions env st (resolveDomain env domain)) capability)
   \<and> (getStoredPermissions env st (resolveDomain env domain) = None
        \<longrightarrow> isPermissionGranted env st domain capability = Inr False)
   \<and> (\<forall>r. getStoredPermissions env st (resolveDomain env domain) = Some r
            \<and> truthyNumber (revokedAt r)
        \<longrightarrow> isPermissionGranted env st domain capability = Inr False)
   \<and> (\<forall>r caps. getStoredPermissions env st (resolveDomain env domain) = Some r
            \<and> capabilities r = Some caps
        \<longrightarrow> isPermissionGranted env st domain capability
              = Inr (spec_granted (Some r) capability))
   \<and> (\<forall>r c. getStoredPermissions env st (resolveDomain env domain) = Some r
            \<and> capabilities r = None \<and> granted r \<and> \<not> truthyNumber (revokedAt r)
        \<longrightarrow> isPermissionGranted env st domain (Some c) = Inl (undefinedCapabilities c))
   \<and> (pm_isPermissionGranted env mst d
        \<longleftrightarrow> spec_granted (pm_getStoredPermissions env mst d) None)
   \<and> (\<not> hasChromeStorage env
        \<longrightarrow> pm_isPermissionGranted env (pm_revokePermission env now mst d) d = False)"
  apply (intro conjI)
  subgoal by (rule isPermissionGranted_spec)
  subgoal by (simp add: isPermissionGranted_def)
  subgoal by (auto simp: isPermissionGranted_def)
  subgoal by (auto simp: isPermissionGranted_def spec_granted_def split: option.splits)
  subgoal by (auto simp: isPermissionGranted_def)
  subgoal by (auto simp: pm_isPermissionGranted_def spec_granted_def split: option.splits)
  subgoal by (simp add: pm_revoke_denied)
  done


theorem isPermissionGranted_fail_closed_witness:
  "spec_granted (getStoredPermissions exampleEnv grantedState
       (resolveDomain exampleEnv (Some ''example.org''))) (Some WriteCapability)
   \<and> isPermissionGranted exampleEnv grantedState (Some ''example.org'') (Some WriteCapability)
       = Inr True
   \<and> getStoredPermissions exampleEnv emptyState (resolveDomain exampleEnv None) = None
   \<and> isPermissionGranted exampleEnv emptyState None None = Inr False
   \<and> granted (the (getStoredPermissions exampleEnv revokedState (resolveDomain exampleEnv None)))
   \<and> truthyNumber (revokedAt (the (getStoredPermissions exampleEnv revokedState
         (resolveDomain exampleEnv None))))
   \<and> isPermissionGranted exampleEnv revokedState None (Some ReadCapability) = Inr False
   \<and> isPermissionGranted exampleEnv legacyState None (Some WriteCapability)
       = Inl (undefinedCapabilities WriteCapability)
   \<and> \<not> hasChromeStorage exampleEnv
   \<and> pm_isPermissionGranted exampleEnv grantedManagerState ''example.org''
   \<and> pm_isPermissionGranted exampleEnv
        (pm_revokePermission exampleEnv 2000 grantedManagerState ''example.org'') ''example.org''
       = False"
  using isPermissionGranted_fail_closed
      [of exampleEnv grantedState "Some ''example.org''" "Some WriteCapability"
          grantedManagerState "''example.org''" 2000]
    isPermissionGranted_fail_closed
      [of exampleEnv emptyState None None grantedManagerState "''example.org''" 2000]
    isPermissionGranted_fail_closed
      [of exampleEnv revokedState None "Some ReadCapability" grantedManagerState "''example.org''" 2000]
    isPermissionGranted_fail_closed
      [of exampleEnv legacyState None "Some ReadCapability" grantedManagerState "''example.org''" 2000]
  by (simp add: exampleEnv_def grantedState_def emptyState_def revokedState_def legacyState_def
      grantedManagerState_def getStoredPermissions_def resolveDomain_def hostnameOrLocalhost_def
      spec_granted_def truthyNumber_def capabilityFlag_def pm_getStoredPermissions_def)

text \<open>
  The claim as stated fails on a granted record that lacks the capability map: the check
  of a capability does not return false.
\<close>

theorem absent_capability_map_counterexample:
  "granted (the (permissionStore legacyState ''example.org''))
   \<and> revokedAt (the (permissionStore legacyState ''example.org'')) = None
   \<and> capabilities (the (permissionStore legacyState ''example.org'')) = None
   \<and> isPermissionGranted exampleEnv legacyState (Some ''example.org'') (Some ReadCapability)
       \<noteq> Inr False
   \<and> isPermissionGranted exampleEnv legacyState (Some ''example.org'') (Some ReadCapability)
       = Inl (undefinedCapabilities ReadCapability)"
  by (simp add: isPermissionGranted_def legacyState_def exampleEnv_def getStoredPermissions_def
      resolveDomain_def truthyNumber_def)

lemma requestPermission_already_granted:
  assumes "isPermissionGranted env st (Some (resolveDomain env (app_domain info))) None = Inr True"
  shows "\<exists>r. getStoredPermissions env st (resolveDomain env (app_domain info)) = Some r
        \<and> requestPermission env usr now st info
            = Inr (\<lparr>res_granted = True, isFirstTime = False, res_permissions = permissions r,
                    res_capabilities = capabilities r,
                    res_domain = Some (resolveDomain env (app_domain info))\<rparr>, st, [])"
proof -
  obtain r where r: "getStoredPermissions env st (resolveDomain env (app_domain info)) = Some r"
    using assms
    by (auto simp: isPermissionGranted_spec spec_granted_def resolveDomain_idem split: option.splits)
  show ?thesis
    using assms r by (simp add: requestPermission_def Let_def)
qed

lemma askUser_denied_window: "fst (fst (askUser env usr info ft)) = False \<Longrightarrow> hasWindow env"
  by (auto simp: askUser_def Let_def split: if_splits)

lemma requestPermission_denial:
  assumes req: "requestPermission env usr now st info = Inr (res, st', shown)"
    and den: "\<not> res_granted res"
  shows "deniedRecord (getStoredPermissions env st' (resolveDomain env (app_domain info)))"
    and "resolveDomain env (app_domain info') = resolveDomain env (app_domain info)
      \<Longrightarrow> \<exists>res' st'' shown'. requestPermission env usr' now' st' info' = Inr (res', st'', shown')
            \<and> \<not> isFirstTime res'"
proof -
  let ?d = "resolveDomain env (app_domain info)"
  have ng: "isPermissionGranted env st (Some ?d) None = Inr False"
    using req den
    by (auto simp: requestPermission_def Let_def isPermissionGranted_no_capability
        split: option.splits if_splits bool.splits)
  obtain ur sh where ask: "askUser env usr info (getStoredPermissions env st ?d = None) = (ur, sh)"
    by (cases "askUser env usr info (getStoredPermissions env st ?d = None)")
  have nf: "\<not> fst ur"
    using req den ng ask by (auto simp: requestPermission_def Let_def split: if_splits)
  then have w: "hasWindow env"
    using askUser_denied_window[of env usr info "getStoredPermissions env st ?d = None"] ask by simp
  have st': "st' = storePermissions env st ((getStoredPermissions env st)(?d \<mapsto>
                       \<lparr>granted = False, grantedAt = now, permissions = [],
                        capabilities = Some \<lparr>read = False, write = False\<rparr>,
                        perm_appInfo = Some info, revokedAt = None, lastUsed = None\<rparr>))"
    using req ng ask nf by (auto simp: requestPermission_def Let_def)
  show rec: "deniedRecord (getStoredPermissions env st' ?d)"
    using w by (simp add: st' storePermissions_def getStoredPermissions_def deniedRecord_def)
  assume same: "resolveDomain env (app_domain info') = ?d"
  have present: "getStoredPermissions env st' ?d \<noteq> None"
    using rec by (auto simp: deniedRecord_def split: option.splits)
  show "\<exists>res' st'' shown'. requestPermission env usr' now' st' info' = Inr (res', st'', shown')
            \<and> \<not> isFirstTime res'"
    using present same
    by (cases "askUser env usr' info' False")
       (auto simp: requestPermission_def Let_def isPermissionGranted_no_capability
           split: option.splits bool.splits)
qed


lemma pm_requestPermission_already_granted:
  "pm_isPermissionGranted env mst (pm_requestDomain env info) \<Longrightarrow>
   pm_requestPermission cfg env usr now mst info
     = (\<lparr>res_granted = True, isFirstTime = False, res_permissions = defaultPermissions cfg,
         res_capabilities = None, res_domain = Some (pm_requestDomain env info)\<rparr>, mst, [])"
  by (simp add: pm_requestPermission_def)

lemma pm_requestPermission_no_ui:
  "\<not> autoShowUI cfg \<Longrightarrow> \<not> pm_isPermissionGranted env mst (pm_requestDomain env info) \<Longrightarrow>
   pm_requestPermission cfg env usr now mst info
     = (\<lparr>res_granted = False,
         isFirstTime = (pm_getStoredPermissions env mst (pm_requestDomain env info) = None),
         res_permissions = [], res_capabilities = None,
         res_domain = Some (pm_requestDomain env info)\<rparr>, mst, [])"
  by (simp add: pm_requestPermission_def Let_def)

lemma pm_requestPermission_denial:
  assumes ui: "autoShowUI cfg" and nc: "\<not> hasChromeStorage env"
    and req: "pm_requestPermission cfg env usr now mst info = (res, mst', shown)"
    and den: "\<not> res_granted res"
  shows "deniedRecord (pm_getStoredPermissions env mst' (pm_requestDomain env info))"
    and "pm_requestDomain env info' = pm_requestDomain env info
      \<Longrightarrow> \<not> isFirstTime (fst (pm_requestPermission cfg' env usr' now' mst' info'))"
proof -
  let ?d = "pm_requestDomain env info"
  have ng: "\<not> pm_isPermissionGranted env mst ?d"
    using req den by (auto simp: pm_requestPermission_def)
  have w: "hasWindow env" and mst': "mst' = pm_denyPermission env now mst ?d info"
    using req den ng ui
    by (auto simp: pm_requestPermission_def Let_def pm_showPermissionDialog_def split: if_splits)
  show rec: "deniedRecord (pm_getStoredPermissions env mst' ?d)"
    using w nc by (simp add: mst' pm_denyPermission_def pm_storePermissions_def
        pm_getStoredPermissions_def deniedRecord_def)
  assume same: "pm_requestDomain env info' = ?d"
  have present: "pm_getStoredPermissions env mst' ?d \<noteq> None"
    using rec by (auto simp: deniedRecord_def split: option.splits)
  show "\<not> isFirstTime (fst (pm_requestPermission cfg' env usr' now' mst' info'))"
    using present same
    by (auto simp: pm_requestPermission_def Let_def split: prod.splits)
qed

text \<open>
  C8 (amended). When permission is already granted for the resolved domain,
  \<open>requestPermission\<close> returns the grant with \<open>isFirstTime\<close> false, shows no dialog and
  leaves the persisted state as it is (the provider of \<open>index.ts\<close> returns the stored
  permissions and capabilities, the \<open>PermissionManager\<close> its default permissions). A
  denial given at the dialog persists a record that is not granted and grants nothing,
  and every later request for the same domain reports \<open>isFirstTime\<close> false; for the
  \<open>PermissionManager\<close> this needs the dialog to be enabled (\<open>autoShowUI\<close>) and the manager
  to write to the store it reads. With \<open>autoShowUI\<close> off, the manager denies without a
  dialog and without persisting anything.
\<close>

theorem requestPermission_idempotent_and_tombstone:
  "(isPermissionGranted env st (Some (resolveDomain env (app_domain info))) None = Inr True
      \<longrightarrow> (\<exists>r. getStoredPermissions env st (resolveDomain env (app_domain info)) = Some r
             \<and> requestPermission env usr now st info
                 = Inr (\<lparr>res_granted = True, isFirstTime = False,
                         res_permissions = permissions r, res_capabilities = capabilities r,
                         res_domain = Some (resolveDomain env (app_domain info))\<rparr>, st, [])))
   \<and> (requestPermission env usr now st info = Inr (res, st', shown) \<and> \<not> res_granted res
      \<longrightarrow> deniedRecord (getStoredPermissions env st' (resolveDomain env (app_domain info)))
          \<and> (resolveDomain env (app_domain info') = resolveDomain env (app_domain info)
              \<longrightarrow> (\<exists>res' st'' shown'.
                      requestPermission env usr' now' st' info' = Inr (res', st'', shown')
                      \<and> \<not> isFirstTime res')))
   \<and> (pm_isPermissionGranted env mst (pm_requestDomain env info)
      \<longrightarrow> pm_requestPermission cfg env usr now mst info
            = (\<lparr>res_granted = True, isFirstTime = False,
                res_permissions = defaultPermissions cfg, res_capabilities = None,
                res_domain = Some (pm_requestDomain env info)\<rparr>, mst, []))
   \<and> (autoShowUI cfg \<and> \<not> hasChromeStorage env
        \<and> pm_requestPermission cfg env usr now mst info = (mres, mst', mshown)
        \<and> \<not> res_granted mres
      \<longrightarrow> deniedRecord (pm_getStoredPermissions env mst' (pm_requestDomain env info))
          \<and> (pm_requestDomain env info' = pm_requestDomain env info
              \<longrightarrow> \<not> isFirstTime (fst (pm_requestPermission cfg' env usr' now' mst' info'))))
   \<and> (\<not> autoShowUI cfg \<and> \<not> pm_isPermissionGranted env mst (pm_requestDomain env info)
      \<longrightarrow> pm_requestPermission cfg env usr now mst info
            = (\<lparr>res_granted = False,
                isFirstTime = (pm_getStoredPermissions env mst (pm_requestDomain env info) = None),
                res_permissions = [], res_capabilities = None,
                res_domain = Some (pm_requestDomain env info)\<rparr>, mst, []))"
  apply (intro conjI impI)
  subgoal by (rule requestPermission_already_granted)
  subgoal by (elim conjE) (rule requestPermission_denial(1))
  subgoal by (elim conjE) (rule requestPermission_denial(2))
  subgoal by (rule pm_requestPermission_already_granted)
  subgoal by (elim conjE) (rule pm_requestPermission_denial(1))
  subgoal by (elim conjE) (rule pm_requestPermission_denial(2))
  subgoal by (elim conjE) (rule pm_requestPermission_no_ui)
  done

theorem requestPermission_idempotent_and_tombstone_witness:
  "isPermissionGranted exampleEnv grantedState
       (Some (resolveDomain exampleEnv (app_domain exampleApp))) None = Inr True
   \<and> requestPermission exampleEnv decliningUser 2000 grantedState exampleApp
       = Inr (\<lparr>res_granted = True, isFirstTime = False,
               res_permissions = [''context.read'', ''context.write''],
               res_capabilities = Some \<lparr>read = True, write = True\<rparr>,
               res_domain = Some ''example.org''\<rparr>, grantedState, [])
   \<and> requestPermission exampleEnv decliningUser 1000 emptyState exampleApp
       = Inr (deniedResult, deniedState, [GrantAccessPrompt True ''Notes''])
   \<and> \<not> res_granted deniedResult
   \<and> deniedRecord (getStoredPermissions exampleEnv deniedState ''example.org'')
   \<and> (\<exists>res' st'' shown'.
         requestPermission exampleEnv acceptingUser 2000 deniedState exampleApp
           = Inr (res', st'', shown') \<and> \<not> isFirstTime res')
   \<and> pm_isPermissionGranted exampleEnv grantedManagerState
        (pm_requestDomain exampleEnv exampleApp)
   \<and> pm_requestPermission defaultManagerConfig exampleEnv decliningUser 2000
        grantedManagerState exampleApp
       = (\<lparr>res_granted = True, isFirstTime = False, res_permissions = [''context''],
           res_capabilities = None, res_domain = Some ''example.org''\<rparr>,
          grantedManagerState, [])
   \<and> autoShowUI defaultManagerConfig \<and> \<not> hasChromeStorage exampleEnv
   \<and> pm_requestPermission defaultManagerConfig exampleEnv decliningUser 1000
        emptyManagerState exampleApp
       = (\<lparr>res_granted = False, isFirstTime = True, res_permissions = [],
           res_capabilities = None, res_domain = Some ''example.org''\<rparr>,
          deniedManagerState, [GrantAccessPrompt True ''Notes''])
   \<and> \<not> isFirstTime (fst (pm_requestPermission defaultManagerConfig exampleEnv acceptingUser
          2000 deniedManagerState exampleApp))
   \<and> \<not> autoShowUI silentManagerConfig
   \<and> pm_requestPermission silentManagerConfig exampleEnv acceptingUser 1000
        emptyManagerState exampleApp
       = (\<lparr>res_granted = False, isFirstTime = True, res_permissions = [],
           res_capabilities = None, res_domain = Some ''example.org''\<rparr>,
          emptyManagerState, [])"
proof -
  have r1: "requestPermission exampleEnv decliningUser 1000 emptyState exampleApp
       = Inr (deniedResult, deniedState, [GrantAccessPrompt True ''Notes''])"
    by (simp add: requestPermission_def isPermissionGranted_def getStoredPermissions_def
        storePermissions_def askUser_def resolveDomain_def exampleEnv_def exampleApp_def
        emptyState_def decliningUser_def deniedResult_def deniedState_def
        grantedPermissionList_def effectiveRequest_def Let_def)
  have m1: "pm_requestPermission defaultManagerConfig exampleEnv decliningUser 1000
        emptyManagerState exampleApp
       = (\<lparr>res_granted = False, isFirstTime = True, res_permissions = [],
           res_capabilities = None, res_domain = Some ''example.org''\<rparr>,
          deniedManagerState, [GrantAccessPrompt True ''Notes''])"
    by (simp add: pm_requestPermission_def pm_isPermissionGranted_def pm_getStoredPermissions_def
        pm_storePermissions_def pm_showPermissionDialog_def pm_denyPermission_def
        pm_requestDomain_def exampleEnv_def exampleApp_def emptyManagerState_def
        decliningUser_def deniedManagerState_def defaultManagerConfig_def Let_def)
  have g: "isPermissionGranted exampleEnv grantedState
       (Some (resolveDomain exampleEnv (app_domain exampleApp))) None = Inr True"
    by (simp add: isPermissionGranted_def getStoredPermissions_def resolveDomain_def
        exampleEnv_def exampleApp_def grantedState_def truthyNumber_def)
  have mg: "pm_isPermissionGranted exampleEnv grantedManagerState
        (pm_requestDomain exampleEnv exampleApp)"
    by (simp add: pm_isPermissionGranted_def pm_getStoredPermissions_def pm_requestDomain_def
        exampleEnv_def exampleApp_def grantedManagerState_def truthyNumber_def)
  have ui: "autoShowUI defaultManagerConfig" "\<not> hasChromeStorage exampleEnv"
       "\<not> autoShowUI silentManagerConfig" "\<not> res_granted deniedResult"
    by (simp_all add: defaultManagerConfig_def exampleEnv_def silentManagerConfig_def
        deniedResult_def)
  have ng: "\<not> pm_isPermissionGranted exampleEnv emptyManagerState
        (pm_requestDomain exampleEnv exampleApp)"
    by (simp add: pm_isPermissionGranted_def pm_getStoredPermissions_def emptyManagerState_def)
  have d: "resolveDomain exampleEnv (app_domain exampleApp) = ''example.org''"
      "pm_requestDomain exampleEnv exampleApp = ''example.org''"
    by (simp_all add: resolveDomain_def pm_requestDomain_def exampleApp_def)
  note T = requestPermission_idempotent_and_tombstone
  note T1 = T[THEN conjunct1, rule_format]
  note T2 = T[THEN conjunct2, THEN conjunct1, rule_format]
  note T3 = T[THEN conjunct2, THEN conjunct2, THEN conjunct1, rule_format]
  note T4 = T[THEN conjunct2, THEN conjunct2, THEN conjunct2, THEN conjunct1, rule_format]
  note T5 = T[THEN conjunct2, THEN conjunct2, THEN conjunct2, THEN conjunct2, rule_format]
  obtain r where r: "getStoredPermissions exampleEnv grantedState
        (resolveDomain exampleEnv (app_domain exampleApp)) = Some r"
    and rq: "requestPermission exampleEnv decliningUser 2000 grantedState exampleApp
       = Inr (\<lparr>res_granted = True, isFirstTime = False, res_permissions = permissions r,
               res_capabilities = capabilities r,
               res_domain = Some (resolveDomain exampleEnv (app_domain exampleApp))\<rparr>,
              grantedState, [])"
    using T1[OF g, of decliningUser 2000] by blast
  have a: "requestPermission exampleEnv decliningUser 2000 grantedState exampleApp
       = Inr (\<lparr>res_granted = True, isFirstTime = False,
               res_permissions = [''context.read'', ''context.write''],
               res_capabilities = Some \<lparr>read = True, write = True\<rparr>,
               res_domain = Some ''example.org''\<rparr>, grantedState, [])"
  proof -
    have "permissions r = [''context.read'', ''context.write'']"
      and "capabilities r = Some \<lparr>read = True, write = True\<rparr>"
      using r unfolding d
      by (auto simp: getStoredPermissions_def grantedState_def split: if_splits)
    then show ?thesis using rq unfolding d by simp
  qed
  have b0: "deniedRecord (getStoredPermissions exampleEnv deniedState
                (resolveDomain exampleEnv (app_domain exampleApp)))
          \<and> (resolveDomain exampleEnv (app_domain exampleApp)
                = resolveDomain exampleEnv (app_domain exampleApp)
              \<longrightarrow> (\<exists>res' st'' shown'.
                      requestPermission exampleEnv acceptingUser 2000 deniedState exampleApp
                        = Inr (res', st'', shown') \<and> \<not> isFirstTime res'))"
    by (rule T2, intro conjI, rule r1, rule ui(4))
  have b: "deniedRecord (getStoredPermissions exampleEnv deniedState ''example.org'')"
      "\<exists>res' st'' shown'.
         requestPermission exampleEnv acceptingUser 2000 deniedState exampleApp
           = Inr (res', st'', shown') \<and> \<not> isFirstTime res'"
    using b0 by (simp_all add: d)
  have c: "pm_requestPermission defaultManagerConfig exampleEnv decliningUser 2000
        grantedManagerState exampleApp
       = (\<lparr>res_granted = True, isFirstTime = False, res_permissions = [''context''],
           res_capabilities = None, res_domain = Some ''example.org''\<rparr>,
          grantedManagerState, [])"
    using T3[OF mg, of defaultManagerConfig decliningUser 2000]
    by (simp add: d defaultManagerConfig_def)
  have e0: "deniedRecord (pm_getStoredPermissions exampleEnv deniedManagerState
                (pm_requestDomain exampleEnv exampleApp))
          \<and> (pm_requestDomain exampleEnv exampleApp = pm_requestDomain exampleEnv exampleApp
              \<longrightarrow> \<not> isFirstTime (fst (pm_requestPermission defaultManagerConfig exampleEnv
                      acceptingUser 2000 deniedManagerState exampleApp)))"
    by (rule T4, intro conjI, rule ui(1), rule ui(2), rule m1, simp)
  have e: "\<not> isFirstTime (fst (pm_requestPermission defaultManagerConfig exampleEnv acceptingUser
          2000 deniedManagerState exampleApp))"
    using e0 by simp
  have f: "pm_requestPermission silentManagerConfig exampleEnv acceptingUser 1000
        emptyManagerState exampleApp
       = (\<lparr>res_granted = False, isFirstTime = True, res_permissions = [],
           res_capabilities = None, res_domain = Some ''example.org''\<rparr>,
          emptyManagerState, [])"
    using T5[of silentManagerConfig exampleEnv emptyManagerState exampleApp acceptingUser 1000]
      ng ui
    unfolding d by (simp add: pm_getStoredPermissions_def emptyManagerState_def)
  show ?thesis using g a r1 ui b mg c m1 e f by simp
qed

text \<open>
  The claim as stated fails for a \<open>PermissionManager\<close> whose dialog is disabled: the
  request is denied, no record is persisted, and the next request for the same domain
  reports \<open>isFirstTime\<close> true again.
\<close>

theorem denial_without_prompt_counterexample:
  "\<not> res_granted (fst (pm_requestPermission silentManagerConfig exampleEnv acceptingUser 1000
        emptyManagerState exampleApp))
   \<and> fst (snd (pm_requestPermission silentManagerConfig exampleEnv acceptingUser 1000
        emptyManagerState exampleApp)) = emptyManagerState
   \<and> pm_getStoredPermissions exampleEnv
        (fst (snd (pm_requestPermission silentManagerConfig exampleEnv acceptingUser 1000
           emptyManagerState exampleApp))) ''example.org'' = None
   \<and> isFirstTime (fst (pm_requestPermission silentManagerConfig exampleEnv acceptingUser 2000
        (fst (snd (pm_requestPermission silentManagerConfig exampleEnv acceptingUser 1000
           emptyManagerState exampleApp))) exampleApp))"
  by (simp add: pm_requestPermission_def pm_isPermissionGranted_def pm_getStoredPermissions_def
      pm_requestDomain_def silentManagerConfig_def emptyManagerState_def exampleEnv_def
      exampleApp_def Let_def)

subsection \<open>Write-back store\<close>

lemma notExpired_spec:
  "expiresAt e \<noteq> Some 0 \<Longrightarrow> notExpired now e \<longleftrightarrow> \<not> spec_expired now e"
  by (auto simp: notExpired_def spec_expired_def truthyNumber_def split: option.splits)

lemma filter_notExpired_spec:
  "noZeroExpiry store \<Longrightarrow>
   filter (\<lambda>entry. notExpired now (snd entry)) store
     = filter (\<lambda>entry. \<not> spec_expired now (snd entry)) store"
  by (rule filter_cong) (auto simp: noZeroExpiry_def list_all_iff notExpired_spec)

lemma getStored_window:
  assumes w: "hasWindow env"
  shows "fst (getStoredWebAgentContexts env now st)
     = filter (\<lambda>entry. notExpired now (snd entry)) (webAgentStore st)
   \<and> webAgentStore (snd (getStoredWebAgentContexts env now st))
     = filter (\<lambda>entry. notExpired now (snd entry)) (webAgentStore st)
   \<and> permissionStore (snd (getStoredWebAgentContexts env now st)) = permissionStore st"
proof -
  have same: "filter P xs = xs" if "length (filter P xs) = length xs" for P and xs :: "'a list"
  proof -
    have "\<forall>x \<in> set xs. P x"
      using that length_filter_less[of _ xs P] by force
    then show ?thesis by (simp add: filter_id_conv)
  qed
  show ?thesis
    using w same[of "\<lambda>entry. notExpired now (snd entry)" "webAgentStore st"]
    by (auto simp: getStoredWebAgentContexts_def Let_def)
qed

text \<open>
  C7. In a window, on a store without zero expiry stamps, every read of the full
  write-back store returns exactly the entries whose \<open>expiresAt\<close> has not passed and
  leaves exactly those in the persisted collection, so that no expired entry remains
  after a read; the permission records are untouched. Nothing but a read drops expired
  entries: writing the store persists what it is given, entry for entry, and the model
  has no other operation on the store than the read and the put, which itself reads.
\<close>

theorem lazy_expiry_on_read:
  assumes "hasWindow env" and "noZeroExpiry (webAgentStore st)"
  shows "fst (getStoredWebAgentContexts env now st) = liveEntries now st
       \<and> webAgentStore (snd (getStoredWebAgentContexts env now st)) = liveEntries now st
       \<and> list_all (\<lambda>entry. \<not> spec_expired now (snd entry))
            (webAgentStore (snd (getStoredWebAgentContexts env now st)))
       \<and> permissionStore (snd (getStoredWebAgentContexts env now st)) = permissionStore st
       \<and> webAgentStore (storeWebAgentContexts env st contexts) = contexts"
  using assms getStored_window[OF assms(1), of now st]
  by (simp add: liveEntries_def filter_notExpired_spec list_all_iff storeWebAgentContexts_def)


lemma foldl_mapDelete:
  "foldl (\<lambda>store entry. mapDelete (fst entry) store) S T
     = filter (\<lambda>e. fst e \<notin> fst ` set T) S"
proof (induction T arbitrary: S)
  case Nil
  show ?case by simp
next
  case (Cons t T)
  have "foldl (\<lambda>store entry. mapDelete (fst entry) store) (mapDelete (fst t) S) T
          = filter (\<lambda>e. fst e \<notin> fst ` set T) (mapDelete (fst t) S)"
    by (rule Cons.IH)
  also have "\<dots> = filter (\<lambda>e. fst e \<notin> fst ` set (t # T)) S"
    unfolding mapDelete_def filter_filter by (rule filter_cong) auto
  finally show ?case by simp
qed

lemma evictOldest_below: "int (length S) < L \<Longrightarrow> evictOldest S L = S"
  by (simp add: evictOldest_def)

lemma evictOldest_at:
  assumes "1 \<le> L" "L \<le> int (length S)"
  shows "evictOldest S L = filter (\<lambda>e. fst e \<notin> fst ` set (oldestEntries S L)) S"
proof -
  have "slice0 (sort_key (\<lambda>entry. receivedAt (snd entry)) S) (int (length S) - L + 1)
          = oldestEntries S L"
    using assms by (simp add: slice0_def oldestEntries_def Let_def min_def)
  then show ?thesis
    using assms by (simp add: evictOldest_def Let_def foldl_mapDelete)
qed

lemma oldestEntries_subset: "set (oldestEntries S L) \<subseteq> set S"
  using set_take_subset[of "nat (int (length S) - L + 1)" "sort_key (\<lambda>entry. receivedAt (snd entry)) S"]
  by (simp add: oldestEntries_def)

lemma key_in_oldest:
  assumes d: "distinct (map fst S)" and e: "e \<in> set S"
  shows "fst e \<in> fst ` set (oldestEntries S L) \<longleftrightarrow> e \<in> set (oldestEntries S L)"
proof
  assume "fst e \<in> fst ` set (oldestEntries S L)"
  then obtain t where t: "t \<in> set (oldestEntries S L)" "fst t = fst e" by auto
  then have "t \<in> set S" using oldestEntries_subset by blast
  then have "t = e" using d e t(2) by (metis distinct_map inj_on_def)
  then show "e \<in> set (oldestEntries S L)" using t(1) by simp
qed auto

lemma evictOldest_keeps:
  assumes "distinct (map fst S)" "1 \<le> L" "L \<le> int (length S)"
  shows "evictOldest S L = filter (\<lambda>e. e \<notin> set (oldestEntries S L)) S"
  unfolding evictOldest_at[OF assms(2,3)]
  by (rule filter_cong) (simp_all add: key_in_oldest[OF assms(1)])

lemma evictOldest_subset: "set (evictOldest S L) \<subseteq> set S"
  by (cases "int (length S) \<ge> L")
     (auto simp: evictOldest_def Let_def foldl_mapDelete)

lemma evictOldest_distinct: "distinct (map fst S) \<Longrightarrow> distinct (map fst (evictOldest S L))"
  by (cases "int (length S) \<ge> L")
     (auto simp: evictOldest_def Let_def foldl_mapDelete distinct_map_filter)

lemma evictOldest_length:
  assumes d: "distinct (map fst S)" and L: "1 \<le> L" "L \<le> int (length S)"
  shows "int (length (evictOldest S L)) = L - 1"
proof -
  let ?T = "oldestEntries S L"
  have dS: "distinct S" using d by (simp add: distinct_map)
  have dT: "distinct ?T"
    using dS by (simp add: oldestEntries_def)
  have lT: "length ?T = nat (int (length S) - L + 1)"
    using L by (simp add: oldestEntries_def)
  have "length (filter (\<lambda>e. e \<notin> set ?T) S) = card ({e. e \<notin> set ?T} \<inter> set S)"
    using dS by (rule distinct_length_filter)
  also have "{e. e \<notin> set ?T} \<inter> set S = set S - set ?T" by auto
  also have "card (set S - set ?T) = card (set S) - card (set ?T)"
    using oldestEntries_subset by (intro card_Diff_subset) auto
  also have "\<dots> = length S - length ?T"
    using dS dT by (simp add: distinct_card)
  finally show ?thesis
    using L lT by (simp add: evictOldest_keeps[OF d L])
qed

lemma evictOldest_oldest:
  assumes d: "distinct (map fst S)" and L: "1 \<le> L"
    and x: "x \<in> set S" "x \<notin> set (evictOldest S L)" and y: "y \<in> set (evictOldest S L)"
  shows "receivedAt (snd x) \<le> receivedAt (snd y)"
proof (cases "L \<le> int (length S)")
  case False
  then show ?thesis using x by (simp add: evictOldest_below)
next
  case True
  let ?f = "\<lambda>entry. receivedAt (snd entry)"
  let ?k = "nat (int (length S) - L + 1)"
  let ?sorted = "sort_key ?f S"
  have keep: "evictOldest S L = filter (\<lambda>e. e \<notin> set (oldestEntries S L)) S"
    by (rule evictOldest_keeps[OF d L True])
  have xT: "x \<in> set (take ?k ?sorted)"
    using x by (simp add: keep oldestEntries_def)
  have "y \<in> set S" "y \<notin> set (take ?k ?sorted)"
    using y by (simp_all add: keep oldestEntries_def)
  then have "y \<in> set (take ?k ?sorted @ drop ?k ?sorted)" by simp
  then have yD: "y \<in> set (drop ?k ?sorted)"
    using \<open>y \<notin> set (take ?k ?sorted)\<close> by (simp only: set_append) blast
  have "sorted (map ?f (take ?k ?sorted @ drop ?k ?sorted))" by simp
  then have "\<forall>a \<in> set (take ?k ?sorted). \<forall>b \<in> set (drop ?k ?sorted). ?f a \<le> ?f b"
    unfolding map_append sorted_append by auto
  then show ?thesis using xT yD by blast
qed

lemma mapSet_mapSet: "mapSet k v2 (mapSet k v1 kvs) = mapSet k v2 kvs"
  by (induction kvs) auto

lemma put_store:
  assumes "putAccepted cfg env st context"
  shows "webAgentStore (snd (handleWebAgentContext cfg env handler now st context options))
           = mapSet (contextIdOf context) (storedEntryOf env now context options)
               (evictOldest (filter (\<lambda>entry. notExpired now (snd entry)) (webAgentStore st))
                  (storageLimitOf cfg))"
    and "permissionStore (snd (handleWebAgentContext cfg env handler now st context options))
           = permissionStore st"
proof -
  have w: "hasWindow env" using assms by (simp add: putAccepted_def)
  obtain n where n: "jsonLength env context = Inr n"
    using assms by (auto simp: putAccepted_def split: sum.splits)
  obtain live st1 where g: "getStoredWebAgentContexts env now st = (live, st1)"
    by (cases "getStoredWebAgentContexts env now st")
  have live: "live = filter (\<lambda>entry. notExpired now (snd entry)) (webAgentStore st)"
    and p1: "permissionStore st1 = permissionStore st"
    using getStored_window[OF w, of now st] g by simp_all
  show "webAgentStore (snd (handleWebAgentContext cfg env handler now st context options))
           = mapSet (contextIdOf context) (storedEntryOf env now context options)
               (evictOldest (filter (\<lambda>entry. notExpired now (snd entry)) (webAgentStore st))
                  (storageLimitOf cfg))"
    using assms w n g live
    by (auto simp: handleWebAgentContext_def tryHandleWebAgentContext_def putAccepted_def Let_def storeWebAgentContexts_def
        storedEntryOf_def mapSet_mapSet)
  show "permissionStore (snd (handleWebAgentContext cfg env handler now st context options))
           = permissionStore st"
    using assms w n g p1
    by (auto simp: handleWebAgentContext_def tryHandleWebAgentContext_def putAccepted_def Let_def storeWebAgentContexts_def)
qed


lemma putAccepted_cong:
  "permissionStore st' = permissionStore st \<Longrightarrow>
   putAccepted cfg env st' context = putAccepted cfg env st context"
  by (simp add: putAccepted_def isPermissionGranted_def getStoredPermissions_def)

lemma put_accepted:
  assumes "putAccepted cfg env st context"
  shows "webAgentStore (put cfg env handler st (now, context, options))
           = mapSet (contextIdOf context) (storedEntryOf env now context options)
               (evictOldest (filter (\<lambda>entry. notExpired now (snd entry)) (webAgentStore st))
                  (storageLimitOf cfg))"
    and "putAccepted cfg env (put cfg env handler st (now, context, options)) context'
           = putAccepted cfg env st context'"
proof -
  show "webAgentStore (put cfg env handler st (now, context, options))
           = mapSet (contextIdOf context) (storedEntryOf env now context options)
               (evictOldest (filter (\<lambda>entry. notExpired now (snd entry)) (webAgentStore st))
                  (storageLimitOf cfg))"
    by (simp add: put_def put_store(1)[OF assms])
  show "putAccepted cfg env (put cfg env handler st (now, context, options)) context'
           = putAccepted cfg env st context'"
    by (rule putAccepted_cong) (simp add: put_def put_store(2)[OF assms])
qed

lemma notExpired_later:
  "now < expiryOf t c opts \<Longrightarrow> notExpired now (storedEntryOf env t c opts)"
  by (simp add: notExpired_def storedEntryOf_def)

lemma four_puts:
  assumes empty: "webAgentStore st = []" and limit: "storageLimitOf cfg = 3"
    and seq: "sequentialPuts cfg env st [(t1, c1, o1), (t2, c2, o2), (t3, c3, o3), (t4, c4, o4)]"
  shows "fst (getStoredWebAgentContexts env t4
            (puts cfg env handler st [(t1, c1, o1), (t2, c2, o2), (t3, c3, o3), (t4, c4, o4)]))
         = [(contextIdOf c2, storedEntryOf env t2 c2 o2),
            (contextIdOf c3, storedEntryOf env t3 c3 o3),
            (contextIdOf c4, storedEntryOf env t4 c4 o4)]"
proof -
  let ?e1 = "storedEntryOf env t1 c1 o1" and ?e2 = "storedEntryOf env t2 c2 o2"
  let ?e3 = "storedEntryOf env t3 c3 o3" and ?e4 = "storedEntryOf env t4 c4 o4"
  let ?s1 = "put cfg env handler st (t1, c1, o1)"
  let ?s2 = "put cfg env handler ?s1 (t2, c2, o2)"
  let ?s3 = "put cfg env handler ?s2 (t3, c3, o3)"
  let ?s4 = "put cfg env handler ?s3 (t4, c4, o4)"
  have t: "t1 \<le> t2" "t2 \<le> t3" "t3 \<le> t4" "t1 \<le> t3"
    using seq by (simp_all add: sequentialPuts_def)
  have a: "putAccepted cfg env st c1" "putAccepted cfg env st c2"
          "putAccepted cfg env st c3" "putAccepted cfg env st c4"
    using seq by (simp_all add: sequentialPuts_def)
  have ids: "contextIdOf c1 \<noteq> contextIdOf c2" "contextIdOf c1 \<noteq> contextIdOf c3"
      "contextIdOf c1 \<noteq> contextIdOf c4" "contextIdOf c2 \<noteq> contextIdOf c3"
      "contextIdOf c2 \<noteq> contextIdOf c4" "contextIdOf c3 \<noteq> contextIdOf c4"
    using seq by (auto simp: sequentialPuts_def)
  have ex: "t4 < expiryOf t1 c1 o1" "t4 < expiryOf t2 c2 o2"
           "t4 < expiryOf t3 c3 o3" "t4 < expiryOf t4 c4 o4"
    using seq by (simp_all add: sequentialPuts_def)
  have live: "notExpired t2 ?e1" "notExpired t3 ?e1" "notExpired t3 ?e2"
      "notExpired t4 ?e1" "notExpired t4 ?e2" "notExpired t4 ?e3" "notExpired t4 ?e4"
    using t ex by (auto intro!: notExpired_later)
  have w: "hasWindow env" using a(1) by (simp add: putAccepted_def)
  have s1: "webAgentStore ?s1 = [(contextIdOf c1, ?e1)]"
    using put_accepted(1)[OF a(1), of handler t1 o1]
    by (simp add: empty limit evictOldest_def)
  have a1: "putAccepted cfg env ?s1 c2" "putAccepted cfg env ?s1 c3" "putAccepted cfg env ?s1 c4"
    using a by (simp_all add: put_accepted(2)[OF a(1)])
  have s2: "webAgentStore ?s2 = [(contextIdOf c1, ?e1), (contextIdOf c2, ?e2)]"
    using put_accepted(1)[OF a1(1), of handler t2 o2] ids live
    by (simp add: s1 limit evictOldest_def)
  have a2: "putAccepted cfg env ?s2 c3" "putAccepted cfg env ?s2 c4"
    using a1 by (simp_all add: put_accepted(2)[OF a1(1)])
  have s3: "webAgentStore ?s3
              = [(contextIdOf c1, ?e1), (contextIdOf c2, ?e2), (contextIdOf c3, ?e3)]"
    using put_accepted(1)[OF a2(1), of handler t3 o3] ids live
    by (simp add: s2 limit evictOldest_def)
  have a3: "putAccepted cfg env ?s3 c4"
    using a2 by (simp_all add: put_accepted(2)[OF a2(1)])
  have r: "receivedAt ?e1 = t1" "receivedAt ?e2 = t2" "receivedAt ?e3 = t3"
    by (simp_all add: storedEntryOf_def)
  have ev: "evictOldest [(contextIdOf c1, ?e1), (contextIdOf c2, ?e2), (contextIdOf c3, ?e3)] 3
              = [(contextIdOf c2, ?e2), (contextIdOf c3, ?e3)]"
    using t ids by (simp add: evictOldest_def Let_def slice0_def mapDelete_def r)
  have s4: "webAgentStore ?s4
              = [(contextIdOf c2, ?e2), (contextIdOf c3, ?e3), (contextIdOf c4, ?e4)]"
    using put_accepted(1)[OF a3, of handler t4 o4] ids live
    by (simp add: s3 limit ev)
  have "puts cfg env handler st [(t1, c1, o1), (t2, c2, o2), (t3, c3, o3), (t4, c4, o4)] = ?s4"
    by (simp add: puts_def)
  then show ?thesis
    using getStored_window[OF w, of t4 ?s4] live by (simp add: s4)
qed


theorem lazy_expiry_on_read_witness:
  "hasWindow exampleEnv \<and> noZeroExpiry (webAgentStore staleState)
   \<and> spec_expired 1000 (exampleEntry ''old'' 100 500)
   \<and> fst (getStoredWebAgentContexts exampleEnv 1000 staleState)
       = [(''new_default_200'', exampleEntry ''new'' 200 9000)]
   \<and> webAgentStore (snd (getStoredWebAgentContexts exampleEnv 1000 staleState))
       = [(''new_default_200'', exampleEntry ''new'' 200 9000)]
   \<and> webAgentStore (storeWebAgentContexts exampleEnv staleState (webAgentStore staleState))
       = webAgentStore staleState"
proof -
  have w: "hasWindow exampleEnv" by (simp add: exampleEnv_def)
  have z: "noZeroExpiry (webAgentStore staleState)"
    by (simp add: noZeroExpiry_def staleState_def exampleEntry_def)
  have l: "liveEntries 1000 staleState = [(''new_default_200'', exampleEntry ''new'' 200 9000)]"
    by (simp add: liveEntries_def staleState_def spec_expired_def exampleEntry_def)
  have e: "spec_expired 1000 (exampleEntry ''old'' 100 500)"
    by (simp add: spec_expired_def exampleEntry_def)
  show ?thesis
    using lazy_expiry_on_read[OF w z, of 1000 "webAgentStore staleState"] w z e
    by (simp add: l)
qed

lemma expiryOf_nonzero: "0 \<le> now \<Longrightarrow> expiryOf now context options \<noteq> 0"
  by (auto simp: expiryOf_def truthyNumber_def split: option.splits)

lemma put_invariants:
  assumes acc: "putAccepted cfg env st context"
    and d: "distinct (map fst (webAgentStore st))"
    and z: "noZeroExpiry (webAgentStore st)" and now: "0 \<le> now"
  shows "distinct (map fst (webAgentStore (put cfg env handler st (now, context, options))))"
    and "noZeroExpiry (webAgentStore (put cfg env handler st (now, context, options)))"
proof -
  let ?live = "filter (\<lambda>entry. notExpired now (snd entry)) (webAgentStore st)"
  let ?kept = "evictOldest ?live (storageLimitOf cfg)"
  have st: "webAgentStore (put cfg env handler st (now, context, options))
              = mapSet (contextIdOf context) (storedEntryOf env now context options) ?kept"
    by (rule put_accepted(1)[OF acc])
  have "distinct (map fst ?live)" using d by (simp add: distinct_map_filter)
  then have "distinct (map fst ?kept)" by (rule evictOldest_distinct)
  then show "distinct (map fst (webAgentStore (put cfg env handler st (now, context, options))))"
    unfolding st by (rule mapSet_distinct)
  have "set ?kept \<subseteq> set (webAgentStore st)"
    using evictOldest_subset[of ?live "storageLimitOf cfg"] by auto
  then have "set (mapSet (contextIdOf context) (storedEntryOf env now context options) ?kept)
               \<subseteq> insert (contextIdOf context, storedEntryOf env now context options)
                    (set (webAgentStore st))"
    using mapSet_set[of "contextIdOf context" "storedEntryOf env now context options" ?kept]
    by auto
  then show "noZeroExpiry (webAgentStore (put cfg env handler st (now, context, options)))"
    using z expiryOf_nonzero[OF now, of "context" options]
    unfolding st noZeroExpiry_def list_all_iff
    by (auto simp: storedEntryOf_def)
qed

text \<open>
  C6. An accepted put on a store without zero expiry stamps persists the new entry on
  top of the live (non-expired) entries after eviction. Below the limit nothing is
  evicted. At or beyond a positive limit the eviction leaves exactly \<open>limit - 1\<close>
  entries, one slot for the new entry; it removes the first \<open>length - limit + 1\<close>
  entries in the stable order by \<open>receivedAt\<close>, and every removed entry was received no
  later than every kept one. A read returns and keeps the entries as they are, so that
  reading an entry never changes its place in that order. With a limit of three, after
  four sequential accepted puts with distinct ids on an empty store, none expiring
  meanwhile, a read returns the second, third and fourth entry and not the first.
\<close>

theorem write_back_eviction:
  "(putAccepted cfg env st context \<and> noZeroExpiry (webAgentStore st)
      \<longrightarrow> webAgentStore (put cfg env handler st (now, context, options))
            = mapSet (contextIdOf context) (storedEntryOf env now context options)
                (evictOldest (liveEntries now st) (storageLimitOf cfg)))
   \<and> (int (length live) < limit \<longrightarrow> evictOldest live limit = live)
   \<and> (distinct (map fst live) \<and> 1 \<le> limit \<and> limit \<le> int (length live)
      \<longrightarrow> int (length (evictOldest live limit)) = limit - 1
          \<and> evictOldest live limit = filter (\<lambda>e. e \<notin> set (oldestEntries live limit)) live
          \<and> (\<forall>x \<in> set (oldestEntries live limit). \<forall>y \<in> set (evictOldest live limit).
                receivedAt (snd x) \<le> receivedAt (snd y)))
   \<and> (hasWindow env
      \<longrightarrow> fst (getStoredWebAgentContexts env t st)
            = filter (\<lambda>entry. notExpired t (snd entry)) (webAgentStore st)
          \<and> webAgentStore (snd (getStoredWebAgentContexts env t st))
            = filter (\<lambda>entry. notExpired t (snd entry)) (webAgentStore st))
   \<and> (webAgentStore st0 = [] \<and> storageLimitOf cfg = 3
        \<and> sequentialPuts cfg env st0 [(t1, c1, o1), (t2, c2, o2), (t3, c3, o3), (t4, c4, o4)]
      \<longrightarrow> fst (getStoredWebAgentContexts env t4
              (puts cfg env handler st0 [(t1, c1, o1), (t2, c2, o2), (t3, c3, o3), (t4, c4, o4)]))
            = [(contextIdOf c2, storedEntryOf env t2 c2 o2),
               (contextIdOf c3, storedEntryOf env t3 c3 o3),
               (contextIdOf c4, storedEntryOf env t4 c4 o4)])"
proof (intro conjI impI)
  assume "putAccepted cfg env st context \<and> noZeroExpiry (webAgentStore st)"
  then show "webAgentStore (put cfg env handler st (now, context, options))
            = mapSet (contextIdOf context) (storedEntryOf env now context options)
                (evictOldest (liveEntries now st) (storageLimitOf cfg))"
    by (simp add: put_accepted(1) liveEntries_def filter_notExpired_spec)
next
  assume "int (length live) < limit"
  then show "evictOldest live limit = live" by (rule evictOldest_below)
next
  assume a: "distinct (map fst live) \<and> 1 \<le> limit \<and> limit \<le> int (length live)"
  then show "int (length (evictOldest live limit)) = limit - 1"
    by (simp add: evictOldest_length)
  from a show k: "evictOldest live limit = filter (\<lambda>e. e \<notin> set (oldestEntries live limit)) live"
    by (simp add: evictOldest_keeps)
  show "\<forall>x \<in> set (oldestEntries live limit). \<forall>y \<in> set (evictOldest live limit).
          receivedAt (snd x) \<le> receivedAt (snd y)"
  proof (intro ballI)
    fix x y assume x: "x \<in> set (oldestEntries live limit)" and y: "y \<in> set (evictOldest live limit)"
    have "x \<in> set live" using x oldestEntries_subset by blast
    moreover have "x \<notin> set (evictOldest live limit)" using x by (simp add: k)
    ultimately show "receivedAt (snd x) \<le> receivedAt (snd y)"
      using a y by (intro evictOldest_oldest[of live limit x y]) simp_all
  qed
next
  assume w: "hasWindow env"
  show "fst (getStoredWebAgentContexts env t st)
            = filter (\<lambda>entry. notExpired t (snd entry)) (webAgentStore st)"
    using getStored_window[OF w, of t st] by simp
  show "webAgentStore (snd (getStoredWebAgentContexts env t st))
            = filter (\<lambda>entry. notExpired t (snd entry)) (webAgentStore st)"
    using getStored_window[OF w, of t st] by simp
next
  assume "webAgentStore st0 = [] \<and> storageLimitOf cfg = 3
        \<and> sequentialPuts cfg env st0 [(t1, c1, o1), (t2, c2, o2), (t3, c3, o3), (t4, c4, o4)]"
  then show "fst (getStoredWebAgentContexts env t4
              (puts cfg env handler st0 [(t1, c1, o1), (t2, c2, o2), (t3, c3, o3), (t4, c4, o4)]))
            = [(contextIdOf c2, storedEntryOf env t2 c2 o2),
               (contextIdOf c3, storedEntryOf env t3 c3 o3),
               (contextIdOf c4, storedEntryOf env t4 c4 o4)]"
    by (intro four_puts) simp_all
qed


theorem write_back_eviction_witness:
  "webAgentStore grantedState = [] \<and> storageLimitOf exampleConfig = 3
   \<and> sequentialPuts exampleConfig exampleEnv grantedState
        [(1000, exampleContext ''a'' 1, None), (1001, exampleContext ''b'' 2, None),
         (1002, exampleContext ''c'' 3, None), (1003, exampleContext ''d'' 4, None)]
   \<and> map fst (fst (getStoredWebAgentContexts exampleEnv 1003
          (puts exampleConfig exampleEnv None grantedState
             [(1000, exampleContext ''a'' 1, None), (1001, exampleContext ''b'' 2, None),
              (1002, exampleContext ''c'' 3, None), (1003, exampleContext ''d'' 4, None)])))
       = [''b_default_2'', ''c_default_3'', ''d_default_4'']
   \<and> map (\<lambda>entry. receivedAt (snd entry)) (fst (getStoredWebAgentContexts exampleEnv 1003
          (puts exampleConfig exampleEnv None grantedState
             [(1000, exampleContext ''a'' 1, None), (1001, exampleContext ''b'' 2, None),
              (1002, exampleContext ''c'' 3, None), (1003, exampleContext ''d'' 4, None)])))
       = [1001, 1002, 1003]"
proof -
  let ?calls = "[(1000, exampleContext ''a'' 1, None), (1001, exampleContext ''b'' 2, None),
                 (1002, exampleContext ''c'' 3, None), (1003, exampleContext ''d'' 4, None)]"
  have e: "webAgentStore grantedState = []" by (simp add: grantedState_def)
  have l: "storageLimitOf exampleConfig = 3" by (simp add: storageLimitOf_def exampleConfig_def)
  have acc: "putAccepted exampleConfig exampleEnv grantedState (exampleContext agent ts)"
    for agent ts
    by (simp add: putAccepted_def isPermissionGranted_def getStoredPermissions_def
        resolveDomain_def agentTypeRejected_def truthyNumber_def capabilityFlag_def
        exampleConfig_def exampleEnv_def grantedState_def exampleContext_def lengthOrZero_def)
  have ids: "contextIdOf (exampleContext ''a'' 1) = ''a_default_1''"
      "contextIdOf (exampleContext ''b'' 2) = ''b_default_2''"
      "contextIdOf (exampleContext ''c'' 3) = ''c_default_3''"
      "contextIdOf (exampleContext ''d'' 4) = ''d_default_4''"
    by (simp_all add: contextIdOf_def exampleContext_def intToString_def)
  have ex: "expiryOf t (exampleContext agent ts) None = t + 86400000" for t agent ts
    by (simp add: expiryOf_def exampleContext_def truthyNumber_def)
  have seq: "sequentialPuts exampleConfig exampleEnv grantedState ?calls"
    by (simp add: sequentialPuts_def acc ids ex)
  have "fst (getStoredWebAgentContexts exampleEnv 1003
              (puts exampleConfig exampleEnv None grantedState ?calls))
          = [(contextIdOf (exampleContext ''b'' 2), storedEntryOf exampleEnv 1001 (exampleContext ''b'' 2) None),
             (contextIdOf (exampleContext ''c'' 3), storedEntryOf exampleEnv 1002 (exampleContext ''c'' 3) None),
             (contextIdOf (exampleContext ''d'' 4), storedEntryOf exampleEnv 1003 (exampleContext ''d'' 4) None)]"
    using write_back_eviction
      [where ?cfg = exampleConfig and ?env = exampleEnv and ?st0.0 = grantedState
         and ?handler = None
         and ?t1.0 = 1000 and ?c1.0 = "exampleContext ''a'' 1" and ?o1.0 = None
         and ?t2.0 = 1001 and ?c2.0 = "exampleContext ''b'' 2" and ?o2.0 = None
         and ?t3.0 = 1002 and ?c3.0 = "exampleContext ''c'' 3" and ?o3.0 = None
         and ?t4.0 = 1003 and ?c4.0 = "exampleContext ''d'' 4" and ?o4.0 = None]
      e l seq
    by blast
  then show ?thesis
    using e l seq by (simp add: ids storedEntryOf_def)
qed

subsection \<open>Read path and exceptions\<close>

lemma dropTrailing_prefix:
  "xs = rev (dropWhile P (rev xs)) @ rev (takeWhile P (rev xs))"
proof -
  have "rev (dropWhile P (rev xs)) @ rev (takeWhile P (rev xs))
          = rev (takeWhile P (rev xs) @ dropWhile P (rev xs))"
    by (simp only: rev_append)
  also have "\<dots> = rev (rev xs)" by (simp only: takeWhile_dropWhile_id)
  also have "\<dots> = xs" by (simp only: rev_rev_ident)
  finally show ?thesis by (rule sym)
qed

lemma dropTrailing_keeps_head:
  assumes "xs \<noteq> []" "\<not> P (hd xs)"
  shows "rev (dropWhile P (rev xs)) \<noteq> [] \<and> hd (rev (dropWhile P (rev xs))) = hd xs"
proof -
  let ?p = "rev (dropWhile P (rev xs))" and ?t = "rev (takeWhile P (rev xs))"
  have xs: "xs = ?p @ ?t" by (rule dropTrailing_prefix)
  have ne: "?p \<noteq> []"
  proof
    assume "?p = []"
    with xs have "xs = ?t" by (metis append_Nil)
    then have "hd xs \<in> set (takeWhile P (rev xs))"
      using assms(1) by (metis hd_in_set set_rev)
    then have "P (hd xs)" by (rule set_takeWhileD[THEN conjunct2])
    then show False using assms(2) by (rule notE[rotated])
  qed
  then have "hd xs = hd ?p" using xs by (metis hd_append2)
  then show ?thesis using ne by (simp only: simp_thms)
qed

lemma trim_idem: "trim (trim s) = trim s"
proof (cases "dropWhile isWhitespace s = []")
  case True
  have e: "trim s = []" unfolding trim_def True by simp
  have n: "trim [] = []" by (simp add: trim_def)
  show ?thesis by (simp only: e n)
next
  case False
  let ?d = "dropWhile isWhitespace s"
  let ?r = "rev (dropWhile isWhitespace (rev ?d))"
  have ts: "trim s = ?r" by (simp only: trim_def)
  have h: "\<not> isWhitespace (hd ?d)" using False by (rule hd_dropWhile)
  have r: "?r \<noteq> []" "hd ?r = hd ?d"
    using dropTrailing_keeps_head[of ?d isWhitespace, OF False h] by (simp_all only: simp_thms)
  have "\<not> isWhitespace (hd ?r)" by (metis r(2) h)
  then have front: "dropWhile isWhitespace ?r = ?r"
    using r(1) by (metis dropWhile.simps(2) list.collapse)
  have rear: "dropWhile isWhitespace (rev ?r) = rev ?r"
    by (simp only: rev_rev_ident dropWhile_idem)
  have "trim ?r = ?r"
    unfolding trim_def front rear by (simp only: rev_rev_ident)
  then show ?thesis by (simp only: ts)
qed

lemma normalizeMemory_valid:
  "validMemory m \<Longrightarrow>
   text (normalizeMemory m) \<noteq> [] \<and> source (normalizeMemory m) \<noteq> []
   \<and> 0 \<le> relevance (normalizeMemory m) \<and> relevance (normalizeMemory m) \<le> 1"
  by (simp add: validMemory_def normalizeMemory_def)

lemma normalizeMemory_not_blank:
  "validMemory m \<Longrightarrow> validMemory (normalizeMemory m)"
  by (simp add: validMemory_def normalizeMemory_def trim_idem)

lemma slice0_subset: "set (slice0 xs e) \<subseteq> set xs"
  by (simp add: slice0_def Let_def set_take_subset)

lemma processMemories_normalizes:
  "list_all (\<lambda>m. text m \<noteq> [] \<and> source m \<noteq> [] \<and> 0 \<le> relevance m \<and> relevance m \<le> 1)
     (processMemories cb ms options)
   \<and> sorted (map (\<lambda>m. - relevance m) (processMemories cb ms options))
   \<and> set (processMemories cb ms options) \<subseteq> normalizeMemory ` {m \<in> set ms. validMemory m}"
proof -
  let ?all = "sortByRelevanceDesc (map normalizeMemory (filter validMemory ms))"
  let ?k = "case Option.bind options topK of None \<Rightarrow> cb_topK cb | Some k \<Rightarrow> k"
  have s: "set (processMemories cb ms options) \<subseteq> set ?all"
    unfolding processMemories_def by (rule slice0_subset)
  have a: "set ?all = normalizeMemory ` {m \<in> set ms. validMemory m}"
    by (auto simp: sortByRelevanceDesc_def)
  have "sorted (map (\<lambda>m. - relevance m) ?all)" by (rule sortByRelevanceDesc_sorted)
  then have "sorted (map (\<lambda>m. - relevance m) (processMemories cb ms options))"
    unfolding processMemories_def by (rule slice0_sorted)
  moreover have "list_all (\<lambda>m. text m \<noteq> [] \<and> source m \<noteq> [] \<and> 0 \<le> relevance m \<and> relevance m \<le> 1)
     (processMemories cb ms options)"
    unfolding list_all_iff
  proof
    fix m' assume "m' \<in> set (processMemories cb ms options)"
    then obtain m where "validMemory m" "m' = normalizeMemory m" using s a by auto
    then show "text m' \<noteq> [] \<and> source m' \<noteq> [] \<and> 0 \<le> relevance m' \<and> relevance m' \<le> 1"
      using normalizeMemory_valid by simp
  qed
  ultimately show ?thesis using s a by simp
qed

lemma processMemories_topK:
  "0 \<le> k \<Longrightarrow>
   processMemories cb ms (Some \<lparr>topK = Some k, timeRange = tr, categories = cs\<rparr>)
     = take (nat k) (sortByRelevanceDesc (map normalizeMemory (filter validMemory ms)))"
  "processMemories (newContextBuilder None defaultTimeRange constructedAt) ms None
     = take 50 (sortByRelevanceDesc (map normalizeMemory (filter validMemory ms)))"
  by (simp_all add: processMemories_def slice0_take newContextBuilder_def)

lemma bp_getContext_processed:
  assumes "bp_isPermissionGranted bp env (Some (pm_getCurrentDomain env))"
    and "getContextData options = Inr contextData"
    and "bp_contextBuilder bp = Some cb"
  shows "pr_data (bp_getContext bp env getContextData now options)
           = Some \<lparr>memories = processMemories cb (memories contextData) options\<rparr>"
  using assms by (simp add: bp_getContext_def buildContextResult_def)

text \<open>
  C9. The claim holds on the read path built on \<open>ContextBuilder\<close> (the three lemmas
  above): \<open>processMemories\<close> returns normalized memories only, none blank, with
  relevance in \<open>[0, 1]\<close>, sorted by descending relevance and cut to the requested
  \<open>topK\<close>. The provider made by \<open>createProvider\<close> does none of it: whenever read
  permission is granted and the context source returns, the result carries the first 50
  memories of the source as they came, whatever the options ask for.
\<close>

theorem createProvider_getContext_unprocessed:
  assumes "isPermissionGranted env st (Some (hostnameOrLocalhost env)) (Some ReadCapability)
             = Inr True"
    and "getData options = Inr contextData"
  shows "pr_success (getContext cfg env getData now st options)
       \<and> pr_data (getContext cfg env getData now st options)
           = Some \<lparr>memories = take 50 (memories contextData)\<rparr>"
  using assms by (simp add: getContext_def slice0_take)

text \<open>
  With \<open>topK = 1\<close> requested, a source that yields a blank memory of relevance 5
  followed by two memories of relevance 1/10 and 9/10 gets all three back unchanged,
  where \<open>processMemories\<close> returns the one normalized memory of relevance 9/10.
\<close>

theorem createProvider_getContext_unprocessed_witness:
  "isPermissionGranted exampleEnv grantedState (Some (hostnameOrLocalhost exampleEnv))
       (Some ReadCapability) = Inr True
   \<and> exampleSource (Some topOne) = Inr \<lparr>memories = rawMemories\<rparr>
   \<and> pr_success (getContext exampleConfig exampleEnv exampleSource 5000 grantedState (Some topOne))
   \<and> pr_data (getContext exampleConfig exampleEnv exampleSource 5000 grantedState (Some topOne))
       = Some \<lparr>memories =
           [\<lparr>text = ''   '', relevance = 5, timestamp = 1, source = ''browsing'', metadata = None\<rparr>,
            \<lparr>text = ''low'', relevance = 1/10, timestamp = 1000, source = ''browsing'',
              metadata = None\<rparr>,
            \<lparr>text = '' high '', relevance = 9/10, timestamp = 1000, source = ''browsing'',
              metadata = None\<rparr>]\<rparr>
   \<and> processMemories (newContextBuilder None None 1000) rawMemories (Some topOne)
       = [\<lparr>text = ''high'', relevance = 9/10, timestamp = 1000, source = ''browsing'',
           metadata = Some []\<rparr>]"
proof -
  have p: "isPermissionGranted exampleEnv grantedState (Some (hostnameOrLocalhost exampleEnv))
       (Some ReadCapability) = Inr True"
    by (simp add: isPermissionGranted_def getStoredPermissions_def resolveDomain_def
        hostnameOrLocalhost_def exampleEnv_def grantedState_def truthyNumber_def
        capabilityFlag_def)
  have s: "exampleSource (Some topOne) = Inr \<lparr>memories = rawMemories\<rparr>"
    by (simp add: exampleSource_def)
  have m: "processMemories (newContextBuilder None None 1000) rawMemories (Some topOne)
       = [\<lparr>text = ''high'', relevance = 9/10, timestamp = 1000, source = ''browsing'',
           metadata = Some []\<rparr>]"
    by (simp add: rawMemories_def processMemories_def newContextBuilder_def
      topOne_def validMemory_def normalizeMemory_def exampleMemory_def trim_def isWhitespace_def
      sortByRelevanceDesc_def slice0_def)
  show ?thesis
    using createProvider_getContext_unprocessed
      [where env = exampleEnv and st = grantedState and getData = exampleSource
         and options = "Some topOne" and contextData = "\<lparr>memories = rawMemories\<rparr>"
         and cfg = exampleConfig and now = 5000, OF p s] p s m
    by (simp add: rawMemories_def exampleMemory_def)
qed

lemma handle_permission_throws:
  "isPermissionGranted env st (Some (wa_domain c)) (Some WriteCapability) = Inl e \<Longrightarrow>
   handleWebAgentContext cfg env handler now st c wopts = (caughtProvisionError c e, st)"
  by (simp add: handleWebAgentContext_def tryHandleWebAgentContext_def)

lemma handle_stringify_throws:
  "isPermissionGranted env st (Some (wa_domain c)) (Some WriteCapability) = Inr True \<Longrightarrow>
   \<not> agentTypeRejected cfg c \<Longrightarrow> jsonLength env c = Inl e \<Longrightarrow>
   handleWebAgentContext cfg env handler now st c wopts = (caughtProvisionError c e, st)"
  by (simp add: handleWebAgentContext_def tryHandleWebAgentContext_def)

lemma caughtProvisionError_present:
  "wa_memories c = Some ms \<Longrightarrow> providerErrorProvision (caughtProvisionError c e)"
  by (simp add: caughtProvisionError_def rejectedResult_def lengthOf_def
      providerErrorProvision_def errorCodeOf_def)

lemma handle_handler_throws:
  assumes "putAccepted cfg env st c" and "wa_memories c = Some ms" and "h c wopts = Inl e"
  shows "reportsSuccess (fst (handleWebAgentContext cfg env (Some h) now st c wopts))"
proof -
  obtain n where n: "jsonLength env c = Inr n"
    using assms(1) by (auto simp: putAccepted_def split: sum.splits)
  obtain live st1 where g: "getStoredWebAgentContexts env now st = (live, st1)"
    by (cases "getStoredWebAgentContexts env now st")
  show ?thesis
    using assms n g
    by (auto simp: handleWebAgentContext_def tryHandleWebAgentContext_def putAccepted_def
        Let_def lengthOf_def reportsSuccess_def)
qed

lemma handle_without_memories:
  assumes "wa_memories c = None"
  shows "fst (handleWebAgentContext cfg env None now st c wopts) = Inl undefinedLength"
proof -
  obtain live st1 where g: "getStoredWebAgentContexts env now st = (live, st1)"
    by (cases "getStoredWebAgentContexts env now st")
  show ?thesis
    using assms g
    by (auto simp: handleWebAgentContext_def tryHandleWebAgentContext_def Let_def lengthOf_def
        caughtProvisionError_def rejectedResult_def split: sum.splits bool.splits)
qed

lemma registry_getContext_sdk:
  "selectProvider providers pid = Some (createProvider cfg env getData handler now st) \<Longrightarrow>
   registry_getContext now' providers options pid
     = Inr (convertToContextResult now' (getContext cfg env getData now st options)
              (cfg_providerId cfg))"
  by (simp add: registry_getContext_def createProvider_def)

lemma caughtContextError_converted:
  "errorMessageOr ''Unknown provider error'' e \<noteq> [] \<Longrightarrow>
   providerErrorContext (Inr (convertToContextResult now' (caughtContextError cfg now e) pid))"
  by (simp add: providerErrorContext_def convertToContextResult_def caughtContextError_def
      errorCodeOf_def)

lemma registry_manager_catches:
  "selectWriter providers pid = Some p \<Longrightarrow> provideContext_m p = Some provide \<Longrightarrow>
   provide c wopts = Inl e \<Longrightarrow>
   registry_provideContext providers c wopts pid
     = Inr (registryCaught (lengthOrZero (wa_memories c)) e)"
  "selectContributor providers pid = Some p \<Longrightarrow> contributeMemory_m p = Some contribute \<Longrightarrow>
   contribute (Some ms) src = Inl e \<Longrightarrow>
   registry_contributeMemory providers (Some ms) src pid = Inr (registryCaught (length ms) e)"
  by (simp_all add: registry_provideContext_def registry_contributeMemory_def lengthOf_def)

lemma registryCaught_providerError: "providerErrorProvision (Inr (registryCaught n e))"
  by (simp add: providerErrorProvision_def registryCaught_def errorCodeOf_def)

lemma example_putAccepted:
  "putAccepted exampleConfig exampleEnv grantedState (exampleContext agent ts)"
  by (simp add: putAccepted_def isPermissionGranted_def getStoredPermissions_def
      resolveDomain_def agentTypeRejected_def truthyNumber_def capabilityFlag_def
      exampleConfig_def exampleEnv_def grantedState_def exampleContext_def lengthOrZero_def)

lemma example_read_granted:
  "isPermissionGranted exampleEnv grantedState (Some (hostnameOrLocalhost exampleEnv))
     (Some ReadCapability) = Inr True"
  by (simp add: isPermissionGranted_def getStoredPermissions_def resolveDomain_def
      hostnameOrLocalhost_def exampleEnv_def grantedState_def truthyNumber_def
      capabilityFlag_def)

text \<open>
  C5. Where an exception of a provider is turned into a result, and where it reaches the
  caller. A provider made by \<open>createProvider\<close> turns an exception of its permission
  check or of its context source into an answer with \<open>success\<close> false and the
  exception's message, which the registry reports with code \<open>PROVIDER_ERROR\<close> when the
  message is not empty; on the write path it turns an exception of the permission check
  or of the serialization into a result with code \<open>PROVIDER_ERROR\<close>, leaving the store
  as it was, and it swallows an exception of the context handler, the accepted write
  reporting success. The registry manager turns the rejection of a provider's
  \<open>provideContext\<close> or \<open>contributeMemory\<close> into a result with code
  \<open>PROVIDER_ERROR\<close>. The raw exception reaches the caller of the registry's
  \<open>getContext\<close>, in both registries, when the provider's \<open>getContext\<close> rejects; of
  \<open>provideContext\<close> and \<open>contributeMemory\<close> of the registry of \<open>index.ts\<close> when the
  provider's method rejects; and of the write method of a provider made by
  \<open>createProvider\<close>, without a handler, when the context lacks its \<open>memories\<close>.
\<close>

theorem exceptions_across_the_registry:
  "((isPermissionGranted env st (Some (hostnameOrLocalhost env)) (Some ReadCapability) = Inl e
       \<or> isPermissionGranted env st (Some (hostnameOrLocalhost env)) (Some ReadCapability)
            = Inr True \<and> getData options = Inl e)
     \<longrightarrow> getContext cfg env getData now st options = caughtContextError cfg now e
       \<and> \<not> pr_success (getContext cfg env getData now st options)
       \<and> pr_error (getContext cfg env getData now st options)
           = Some (errorMessageOr ''Unknown provider error'' e))
   \<and> (selectProvider providers pid = Some (createProvider cfg env getData handler now st)
        \<and> getContext cfg env getData now st options = caughtContextError cfg now e
        \<and> errorMessageOr ''Unknown provider error'' e \<noteq> []
     \<longrightarrow> providerErrorContext (registry_getContext now' providers options pid))
   \<and> (selectProvider providers pid = Some p \<and> getContext_m p options = Inl e
     \<longrightarrow> registry_getContext now' providers options pid = Inl e
       \<and> rawException (registry_getContext now' providers options pid))
   \<and> (selectWriterSimple providers c pid = Some p \<and> provideContext_m p = Some provide
        \<and> provide c wopts = Inl e
     \<longrightarrow> registry_provideContextSimple providers c wopts pid = Inl e
       \<and> rawException (registry_provideContextSimple providers c wopts pid))
   \<and> (selectContributor providers pid = Some p \<and> contributeMemory_m p = Some contribute
        \<and> contribute mems src = Inl e
     \<longrightarrow> registry_contributeMemorySimple providers mems src pid = Inl e
       \<and> rawException (registry_contributeMemorySimple providers mems src pid))
   \<and> (selectWriter providers pid = Some p \<and> provideContext_m p = Some provide
        \<and> provide c wopts = Inl e
     \<longrightarrow> providerErrorProvision (registry_provideContext providers c wopts pid))
   \<and> (selectContributor providers pid = Some p \<and> contributeMemory_m p = Some contribute
        \<and> contribute (Some ms) src = Inl e
     \<longrightarrow> providerErrorProvision (registry_contributeMemory providers (Some ms) src pid))
   \<and> \<not> rawException (registry_provideContext providers c wopts pid)
   \<and> (wa_memories c = Some ms
        \<and> (isPermissionGranted env st (Some (wa_domain c)) (Some WriteCapability) = Inl e
            \<or> isPermissionGranted env st (Some (wa_domain c)) (Some WriteCapability) = Inr True
                \<and> \<not> agentTypeRejected cfg c \<and> jsonLength env c = Inl e)
     \<longrightarrow> providerErrorProvision (fst (handleWebAgentContext cfg env handler now st c wopts))
       \<and> snd (handleWebAgentContext cfg env handler now st c wopts) = st)
   \<and> (putAccepted cfg env st c \<and> wa_memories c = Some ms \<and> h c wopts = Inl e
     \<longrightarrow> reportsSuccess (fst (handleWebAgentContext cfg env (Some h) now st c wopts)))
   \<and> (wa_memories c = None
     \<longrightarrow> fst (handleWebAgentContext cfg env None now st c wopts) = Inl undefinedLength
       \<and> rawException (fst (handleWebAgentContext cfg env None now st c wopts)))"
proof (intro conjI impI)
  assume "isPermissionGranted env st (Some (hostnameOrLocalhost env)) (Some ReadCapability) = Inl e
       \<or> isPermissionGranted env st (Some (hostnameOrLocalhost env)) (Some ReadCapability)
            = Inr True \<and> getData options = Inl e"
  then show g: "getContext cfg env getData now st options = caughtContextError cfg now e"
    by (auto simp: getContext_def)
  show "\<not> pr_success (getContext cfg env getData now st options)"
    unfolding g by (simp add: caughtContextError_def)
  show "pr_error (getContext cfg env getData now st options)
           = Some (errorMessageOr ''Unknown provider error'' e)"
    unfolding g by (simp add: caughtContextError_def)
next
  assume "selectProvider providers pid = Some (createProvider cfg env getData handler now st)
        \<and> getContext cfg env getData now st options = caughtContextError cfg now e
        \<and> errorMessageOr ''Unknown provider error'' e \<noteq> []"
  then show "providerErrorContext (registry_getContext now' providers options pid)"
    by (simp add: registry_getContext_sdk caughtContextError_converted)
next
  assume a: "selectProvider providers pid = Some p \<and> getContext_m p options = Inl e"
  then show r: "registry_getContext now' providers options pid = Inl e"
    by (simp add: registry_getContext_def)
  show "rawException (registry_getContext now' providers options pid)"
    unfolding r by (simp add: rawException_def)
next
  assume "selectWriterSimple providers c pid = Some p \<and> provideContext_m p = Some provide
        \<and> provide c wopts = Inl e"
  then show r: "registry_provideContextSimple providers c wopts pid = Inl e"
    by (simp add: registry_provideContextSimple_def)
  show "rawException (registry_provideContextSimple providers c wopts pid)"
    unfolding r by (simp add: rawException_def)
next
  assume "selectContributor providers pid = Some p \<and> contributeMemory_m p = Some contribute
        \<and> contribute mems src = Inl e"
  then show r: "registry_contributeMemorySimple providers mems src pid = Inl e"
    by (simp add: registry_contributeMemorySimple_def)
  show "rawException (registry_contributeMemorySimple providers mems src pid)"
    unfolding r by (simp add: rawException_def)
next
  assume "selectWriter providers pid = Some p \<and> provideContext_m p = Some provide
        \<and> provide c wopts = Inl e"
  then show "providerErrorProvision (registry_provideContext providers c wopts pid)"
    by (simp add: registry_manager_catches(1) registryCaught_providerError)
next
  assume "selectContributor providers pid = Some p \<and> contributeMemory_m p = Some contribute
        \<and> contribute (Some ms) src = Inl e"
  then show "providerErrorProvision (registry_contributeMemory providers (Some ms) src pid)"
    by (simp add: registry_manager_catches(2) registryCaught_providerError)
next
  show "\<not> rawException (registry_provideContext providers c wopts pid)"
    by (simp add: registry_provideContext_def rawException_def split: option.splits sum.splits)
next
  assume a: "wa_memories c = Some ms
        \<and> (isPermissionGranted env st (Some (wa_domain c)) (Some WriteCapability) = Inl e
            \<or> isPermissionGranted env st (Some (wa_domain c)) (Some WriteCapability) = Inr True
                \<and> \<not> agentTypeRejected cfg c \<and> jsonLength env c = Inl e)"
  then have h: "handleWebAgentContext cfg env handler now st c wopts
                  = (caughtProvisionError c e, st)"
    using handle_permission_throws handle_stringify_throws by blast
  show "providerErrorProvision (fst (handleWebAgentContext cfg env handler now st c wopts))"
    unfolding h using a by (simp add: caughtProvisionError_present)
  show "snd (handleWebAgentContext cfg env handler now st c wopts) = st"
    unfolding h by simp
next
  assume "putAccepted cfg env st c \<and> wa_memories c = Some ms \<and> h c wopts = Inl e"
  then show "reportsSuccess (fst (handleWebAgentContext cfg env (Some h) now st c wopts))"
    using handle_handler_throws by blast
next
  assume a: "wa_memories c = None"
  show r: "fst (handleWebAgentContext cfg env None now st c wopts) = Inl undefinedLength"
    using a by (rule handle_without_memories)
  show "rawException (fst (handleWebAgentContext cfg env None now st c wopts))"
    unfolding r by (simp add: rawException_def)
qed

text \<open>
  A provider of the SDK whose context source and handler throw, a provider whose methods
  reject, a state whose permission record has no capability map, and a context without
  memories.
\<close>

theorem exceptions_across_the_registry_witness:
  "isPermissionGranted exampleEnv grantedState (Some (hostnameOrLocalhost exampleEnv))
       (Some ReadCapability) = Inr True
   \<and> throwingSource None = Inl (ThrownError ''history unavailable'')
   \<and> getContext exampleConfig exampleEnv throwingSource 5000 grantedState None
       = \<lparr>pr_success = False, pr_data = None, pr_error = Some ''history unavailable'',
          pr_metadata = Some (providerErrorMetadata exampleConfig 5000)\<rparr>
   \<and> selectProvider [(''p1'', sdkProvider)] None = Some sdkProvider
   \<and> providerErrorContext (registry_getContext 6000 [(''p1'', sdkProvider)] None None)
   \<and> selectProvider [(''custom'', rejectingProvider)] None = Some rejectingProvider
   \<and> getContext_m rejectingProvider None = Inl (ThrownError ''backend down'')
   \<and> registry_getContext 6000 [(''custom'', rejectingProvider)] None None
       = Inl (ThrownError ''backend down'')
   \<and> selectWriterSimple [(''custom'', rejectingProvider)] (exampleContext ''a'' 1) None
       = Some rejectingProvider
   \<and> registry_provideContextSimple [(''custom'', rejectingProvider)] (exampleContext ''a'' 1)
         None None = Inl (ThrownError ''backend down'')
   \<and> selectContributor [(''custom'', rejectingProvider)] None = Some rejectingProvider
   \<and> registry_contributeMemorySimple [(''custom'', rejectingProvider)] (Some rawMemories)
         ''agent'' None = Inl (ThrownError ''backend down'')
   \<and> selectWriter [(''custom'', rejectingProvider)] None = Some rejectingProvider
   \<and> providerErrorProvision
        (registry_provideContext [(''custom'', rejectingProvider)] (exampleContext ''a'' 1)
           None None)
   \<and> providerErrorProvision
        (registry_contributeMemory [(''custom'', rejectingProvider)] (Some rawMemories)
           ''agent'' None)
   \<and> wa_memories (exampleContext ''a'' 1) = Some [exampleMemory ''Prefers dark mode'' (1/2)]
   \<and> isPermissionGranted exampleEnv legacyState (Some (wa_domain (exampleContext ''a'' 1)))
         (Some WriteCapability) = Inl (undefinedCapabilities WriteCapability)
   \<and> providerErrorProvision
        (fst (handleWebAgentContext exampleConfig exampleEnv None 5000 legacyState
                (exampleContext ''a'' 1) None))
   \<and> snd (handleWebAgentContext exampleConfig exampleEnv None 5000 legacyState
             (exampleContext ''a'' 1) None) = legacyState
   \<and> putAccepted exampleConfig exampleEnv grantedState (exampleContext ''a'' 1)
   \<and> throwingHandler (exampleContext ''a'' 1) None = Inl (ThrownError ''handler failed'')
   \<and> reportsSuccess
        (fst (handleWebAgentContext exampleConfig exampleEnv (Some throwingHandler) 5000
                grantedState (exampleContext ''a'' 1) None))
   \<and> wa_memories bareContext = None
   \<and> fst (handleWebAgentContext exampleConfig exampleEnv None 5000 grantedState bareContext
             None) = Inl undefinedLength"
proof -
  let ?c = "exampleContext ''a'' 1"
  let ?down = "ThrownError ''backend down''"
  let ?rej = "[(''custom'', rejectingProvider)]"
  note A = exceptions_across_the_registry
      [where env = exampleEnv and st = grantedState and getData = throwingSource
         and options = None and e = "ThrownError ''history unavailable''"
         and cfg = exampleConfig and now = 5000 and providers = "[(''p1'', sdkProvider)]"
         and pid = None and handler = "Some throwingHandler" and now' = 6000]
  note B = exceptions_across_the_registry
      [where providers = ?rej and pid = None and p = rejectingProvider and e = ?down
         and options = None and now' = 6000 and c = ?c and wopts = None
         and provide = "\<lambda>context options. Inl ?down"
         and contribute = "\<lambda>mems src. Inl ?down"
         and mems = "Some rawMemories" and ms = rawMemories and src = "''agent''"]
  note C = exceptions_across_the_registry
      [where env = exampleEnv and st = legacyState and c = ?c
         and ms = "[exampleMemory ''Prefers dark mode'' (1/2)]"
         and e = "undefinedCapabilities WriteCapability" and cfg = exampleConfig
         and handler = None and now = 5000 and wopts = None]
  note D = exceptions_across_the_registry
      [where env = exampleEnv and st = grantedState and c = ?c
         and ms = "[exampleMemory ''Prefers dark mode'' (1/2)]"
         and e = "ThrownError ''handler failed''" and cfg = exampleConfig
         and h = throwingHandler and now = 5000 and wopts = None]
  note E = exceptions_across_the_registry
      [where env = exampleEnv and st = grantedState and c = bareContext
         and cfg = exampleConfig and now = 5000 and wopts = None]
  have g: "isPermissionGranted exampleEnv grantedState (Some (hostnameOrLocalhost exampleEnv))
             (Some ReadCapability) = Inr True"
    by (rule example_read_granted)
  have t: "throwingSource None = Inl (ThrownError ''history unavailable'')"
    by (simp add: throwingSource_def)
  have a1: "getContext exampleConfig exampleEnv throwingSource 5000 grantedState None
              = caughtContextError exampleConfig 5000 (ThrownError ''history unavailable'')"
    using A[THEN conjunct1, rule_format] g t by blast
  have a1': "getContext exampleConfig exampleEnv throwingSource 5000 grantedState None
       = \<lparr>pr_success = False, pr_data = None, pr_error = Some ''history unavailable'',
          pr_metadata = Some (providerErrorMetadata exampleConfig 5000)\<rparr>"
    unfolding a1 by (simp add: caughtContextError_def errorMessageOr_def)
  have sel: "selectProvider [(''p1'', sdkProvider)] None = Some sdkProvider"
    by (simp add: selectProvider_def firstProvider_def)
  have a2: "providerErrorContext (registry_getContext 6000 [(''p1'', sdkProvider)] None None)"
    by (rule A[THEN conjunct2, THEN conjunct1, rule_format])
       (simp add: sel a1 errorMessageOr_def flip: sdkProvider_def)
  have selr: "selectProvider ?rej None = Some rejectingProvider"
    by (simp add: selectProvider_def firstProvider_def)
  have gr: "getContext_m rejectingProvider None = Inl ?down"
    by (simp add: rejectingProvider_def)
  have b3: "registry_getContext 6000 ?rej None None = Inl ?down"
    using B[THEN conjunct2, THEN conjunct2, THEN conjunct1, rule_format] selr gr by blast
  have pr: "provideContext_m rejectingProvider = Some (\<lambda>context options. Inl ?down)"
    "contributeMemory_m rejectingProvider = Some (\<lambda>mems src. Inl ?down)"
    by (simp_all add: rejectingProvider_def)
  have sws: "selectWriterSimple ?rej ?c None = Some rejectingProvider"
    by (simp add: selectWriterSimple_def rejectingProvider_def)
  have b4: "registry_provideContextSimple ?rej ?c None None = Inl ?down"
    using B[THEN conjunct2, THEN conjunct2, THEN conjunct2, THEN conjunct1, rule_format] sws pr by blast
  have sc: "selectContributor ?rej None = Some rejectingProvider"
    by (simp add: selectContributor_def rejectingProvider_def)
  have b5: "registry_contributeMemorySimple ?rej (Some rawMemories) ''agent'' None = Inl ?down"
    using B[THEN conjunct2, THEN conjunct2, THEN conjunct2, THEN conjunct2, THEN conjunct1, rule_format] sc pr by blast
  have sw: "selectWriter ?rej None = Some rejectingProvider"
    by (simp add: selectWriter_def rejectingProvider_def)
  have b6: "providerErrorProvision (registry_provideContext ?rej ?c None None)"
    using B[THEN conjunct2, THEN conjunct2, THEN conjunct2, THEN conjunct2, THEN conjunct2, THEN conjunct1, rule_format] sw pr by blast
  have b7: "providerErrorProvision
              (registry_contributeMemory ?rej (Some rawMemories) ''agent'' None)"
    using B[THEN conjunct2, THEN conjunct2, THEN conjunct2, THEN conjunct2, THEN conjunct2, THEN conjunct2, THEN conjunct1, rule_format] sc pr by blast
  have m: "wa_memories ?c = Some [exampleMemory ''Prefers dark mode'' (1/2)]"
    by (simp add: exampleContext_def)
  have l: "isPermissionGranted exampleEnv legacyState (Some (wa_domain ?c))
             (Some WriteCapability) = Inl (undefinedCapabilities WriteCapability)"
    by (simp add: isPermissionGranted_def getStoredPermissions_def resolveDomain_def
        exampleEnv_def legacyState_def exampleContext_def truthyNumber_def)
  have c9: "providerErrorProvision
        (fst (handleWebAgentContext exampleConfig exampleEnv None 5000 legacyState ?c None))
      \<and> snd (handleWebAgentContext exampleConfig exampleEnv None 5000 legacyState ?c None)
          = legacyState"
    using C[THEN conjunct2, THEN conjunct2, THEN conjunct2, THEN conjunct2, THEN conjunct2, THEN conjunct2, THEN conjunct2, THEN conjunct2, THEN conjunct1, rule_format] m l by blast
  have acc: "putAccepted exampleConfig exampleEnv grantedState ?c"
    by (rule example_putAccepted)
  have th: "throwingHandler ?c None = Inl (ThrownError ''handler failed'')"
    by (simp add: throwingHandler_def)
  have d10: "reportsSuccess
        (fst (handleWebAgentContext exampleConfig exampleEnv (Some throwingHandler) 5000
                grantedState ?c None))"
    using D[THEN conjunct2, THEN conjunct2, THEN conjunct2, THEN conjunct2, THEN conjunct2, THEN conjunct2, THEN conjunct2, THEN conjunct2, THEN conjunct2, THEN conjunct1, rule_format] acc m th by blast
  have bare: "wa_memories bareContext = None" by (simp add: bareContext_def)
  have e11: "fst (handleWebAgentContext exampleConfig exampleEnv None 5000 grantedState
                    bareContext None) = Inl undefinedLength"
    using E[THEN conjunct2, THEN conjunct2, THEN conjunct2, THEN conjunct2, THEN conjunct2, THEN conjunct2, THEN conjunct2, THEN conjunct2, THEN conjunct2, THEN conjunct2, rule_format] bare by blast
  show ?thesis
    using g t a1' sel a2 selr gr b3 sws b4 sc b5 sw b6 b7 m l c9 acc th d10 bare e11
    by (simp only: simp_thms)
qed

end
